(* ===== verification/Prelude.thy ===== *)
theory Prelude
  imports Main "HOL-Library.Word"
begin

text \<open>
  Shared vocabulary of the development: names for the machine integers of the
  Rust sources, the result type of fallible operations, and the bit-level
  lemmas on words that the component theories use.

  Conventions.  A Rust \<^verbatim>\<open>uN\<close> or \<^verbatim>\<open>iN\<close> is an \<^verbatim>\<open>N word\<close>; signedness is chosen
  by the operation (\<^term>\<open>uint\<close> or \<^term>\<open>sint\<close>, \<^term>\<open>ucast\<close> or \<^term>\<open>scast\<close>), as
  an \<^verbatim>\<open>as\<close> cast does.  A Rust \<^verbatim>\<open>usize\<close> that only counts or indexes is a
  \<^typ>\<open>nat\<close>.  \<^verbatim>\<open>Result<T, E>\<close> is the sum \<^verbatim>\<open>'e + 'a\<close> with the error on the left.
  A method taking \<^verbatim>\<open>&mut self\<close> returns its result together with the new state,
  also on the error path, because Rust keeps the writes done before an early
  return.
\<close>

unbundle bit_operations_syntax

type_synonym u8 = "8 word"
type_synonym u16 = "16 word"
type_synonym u32 = "32 word"
type_synonym u64 = "64 word"
type_synonym i64 = "64 word"
type_synonym i32 = "32 word"
type_synonym Address = "64 word"

type_synonym ('e, 'a) result = "'e + 'a"

named_theorems word_bits \<open>bit-wise characterisations of word operations\<close>
named_theorems csr_simps \<open>field access laws of control and state registers\<close>
named_theorems run_simps \<open>unfolding rules of instruction semantics\<close>

section \<open>Results\<close>

fun is_ok :: "('e, 'a) result \<Rightarrow> bool" where
  "is_ok (Inl _) = False"
| "is_ok (Inr _) = True"

definition map_err :: "('e \<Rightarrow> 'f) \<Rightarrow> ('e, 'a) result \<Rightarrow> ('f, 'a) result" where
  "map_err f r = (case r of Inl e \<Rightarrow> Inl (f e) | Inr a \<Rightarrow> Inr a)"

definition map_ok :: "('a \<Rightarrow> 'b) \<Rightarrow> ('e, 'a) result \<Rightarrow> ('e, 'b) result" where
  "map_ok f r = (case r of Inl e \<Rightarrow> Inl e | Inr a \<Rightarrow> Inr (f a))"

lemma map_err_simps [simp]:
  "map_err f (Inl e) = Inl (f e)"
  "map_err f (Inr a) = Inr a"
  by (simp_all add: map_err_def)

lemma map_ok_simps [simp]:
  "map_ok f (Inl e) = Inl e"
  "map_ok f (Inr a) = Inr (f a)"
  by (simp_all add: map_ok_def)

lemma map_err_Inr_iff [simp]: "map_err f r = Inr a \<longleftrightarrow> r = Inr a"
  by (cases r) simp_all

lemma map_ok_Inl_iff [simp]: "map_ok f r = Inl e \<longleftrightarrow> r = Inl e"
  by (cases r) simp_all

lemma is_ok_iff: "is_ok r \<longleftrightarrow> (\<exists>a. r = Inr a)"
  by (cases r) simp_all

section \<open>Words\<close>

lemma word_eq_iff_bits:
  fixes a b :: "'a::len word"
  shows "a = b \<longleftrightarrow> (\<forall>i < LENGTH('a). bit a i = bit b i)"
  by (metis bit_eqI bit_imp_le_length)

lemma word_bits_eqI:
  fixes a b :: "'a::len word"
  assumes "\<And>i. i < LENGTH('a) \<Longrightarrow> bit a i = bit b i"
  shows "a = b"
  using assms by (simp add: word_eq_iff_bits)

lemma bit_word_lt: "bit (w :: 'a::len word) i \<Longrightarrow> i < LENGTH('a)"
  by (rule bit_imp_le_length)

lemma bit_exp_minus_1 [word_bits]:
  "bit ((2 :: 'a::len word) ^ n - 1) i \<longleftrightarrow> i < n \<and> i < LENGTH('a)"
  by (auto simp: bit_mask_iff simp flip: mask_eq_exp_minus_1)

lemma take_bit_eq_iff_bits:
  fixes w :: "'a::len word"
  shows "take_bit n w = w \<longleftrightarrow> (\<forall>i \<ge> n. \<not> bit w i)"
proof
  assume "take_bit n w = w"
  then show "\<forall>i \<ge> n. \<not> bit w i"
    by (metis bit_take_bit_iff not_le)
next
  assume "\<forall>i \<ge> n. \<not> bit w i"
  then show "take_bit n w = w"
    by (intro bit_eqI) (auto simp: bit_take_bit_iff not_le[symmetric])
qed

lemma unat_power_lower_eq:
  assumes "n < LENGTH('a)"
  shows "unat ((2 :: 'a::len word) ^ n) = 2 ^ n"
  using assms by transfer (simp add: take_bit_eq_mod nat_power_eq)

lemma less_exp_iff_take_bit:
  fixes w :: "'a::len word"
  assumes "n < LENGTH('a)"
  shows "w < 2 ^ n \<longleftrightarrow> take_bit n w = w"
proof -
  have "unat ((2 :: 'a word) ^ n) = 2 ^ n"
    using assms by (metis unat_power_lower_eq)
  then have "w < 2 ^ n \<longleftrightarrow> unat w < 2 ^ n"
    by (simp add: word_less_nat_alt)
  also have "\<dots> \<longleftrightarrow> take_bit n (unat w) = unat w"
    by (simp add: take_bit_nat_eq_self_iff)
  also have "\<dots> \<longleftrightarrow> take_bit n w = w"
    by (metis unsigned_take_bit_eq word_unat_eq_iff)
  finally show ?thesis .
qed

lemma unat_ucast_up:
  fixes w :: "'a::len word"
  assumes "LENGTH('a) \<le> LENGTH('b::len)"
  shows "unat (ucast w :: 'b word) = unat w"
proof -
  have "unat w < 2 ^ LENGTH('b)"
    using assms unsigned_less [of w, where ?'a = nat]
    by (meson less_le_trans one_le_numeral power_increasing)
  then show ?thesis
    by (simp add: unsigned_ucast_eq take_bit_nat_eq_self)
qed

lemma ucast_up_eq_iff:
  fixes v w :: "'a::len word"
  assumes "LENGTH('a) \<le> LENGTH('b::len)"
  shows "(ucast v :: 'b word) = ucast w \<longleftrightarrow> v = w"
  using assms by (metis unat_ucast_up word_unat_eq_iff)

end
