(* ===== verification/Bits.thy ===== *)
theory Bits
  imports Prelude
begin

text \<open>
  Bit manipulation helpers of \<^verbatim>\<open>src/riscv/lib/src/bits.rs\<close>: the functions the
  macro \<^verbatim>\<open>bits_builtin!\<close> generates for \<^verbatim>\<open>u16\<close> and \<^verbatim>\<open>u64\<close> (one polymorphic
  definition each), \<^verbatim>\<open>ones\<close>, and the instances of the trait \<^verbatim>\<open>Bits64\<close>.  The
  trait itself is the locale \<^verbatim>\<open>Bits64\<close>; the accessors the macro \<^verbatim>\<open>csr!\<close>
  generates for a field are \<^verbatim>\<open>csr_get\<close> and \<^verbatim>\<open>csr_with\<close>, and the locale proves
  the laws every such field has.
\<close>

section \<open>Ranges of bits\<close>

definition mask_subset :: "nat \<Rightarrow> nat \<Rightarrow> 'a::len word" where
  "mask_subset start stop = (let top = push_bit (1 + start - stop) 1 in push_bit stop (top - 1))"

definition mask_range :: "nat \<Rightarrow> nat \<Rightarrow> 'a::len word" where
  "mask_range start stop =
     (if start = LENGTH('a) - 1 \<and> stop = 0 then - 1 else mask_subset start stop)"

definition bit_at :: "'a::len word \<Rightarrow> nat \<Rightarrow> bool" where
  "bit_at v b = ((drop_bit b v AND 1) \<noteq> 0)"

definition bits_subset :: "'a::len word \<Rightarrow> nat \<Rightarrow> nat \<Rightarrow> 'a word" where
  "bits_subset v start stop = drop_bit stop (v AND mask_subset start stop)"

definition set_bit_to :: "'a::len word \<Rightarrow> nat \<Rightarrow> bool \<Rightarrow> 'a word" where
  "set_bit_to v b value =
     (let m = push_bit b 1 in (v AND NOT m) OR push_bit b (if value then 1 else 0))"

definition replace_subset :: "'a::len word \<Rightarrow> nat \<Rightarrow> nat \<Rightarrow> 'a word \<Rightarrow> 'a word" where
  "replace_subset v start stop bits =
     (let m = mask_subset start stop in (v AND NOT m) OR (push_bit stop bits AND m))"

definition ones :: "u64 \<Rightarrow> u64" where
  "ones n = (let sh_amt = 64 - unat n in if n = 0 then 0 else drop_bit sh_amt (NOT 0))"

lemma bit_mask_subset [word_bits]:
  "stop \<le> start \<Longrightarrow>
   bit (mask_subset start stop :: 'a::len word) i \<longleftrightarrow> stop \<le> i \<and> i \<le> start \<and> i < LENGTH('a)"
  by (auto simp: mask_subset_def Let_def bit_push_bit_iff bit_exp_minus_1 possible_bit_word)

lemma bit_at_iff [word_bits]: "bit_at v b \<longleftrightarrow> bit v b"
  by (simp add: bit_at_def and_one_eq bit_iff_odd_drop_bit mod_2_eq_odd)

lemma bit_bits_subset [word_bits]:
  "stop \<le> start \<Longrightarrow>
   bit (bits_subset v start stop) i \<longleftrightarrow> i + stop \<le> start \<and> bit v (i + stop)"
  by (auto simp: bits_subset_def bit_drop_bit_eq bit_and_iff bit_mask_subset add.commute
      dest: bit_word_lt)

lemma bit_replace_subset [word_bits]:
  "stop \<le> start \<Longrightarrow>
   bit (replace_subset v start stop bits) i \<longleftrightarrow>
   (if stop \<le> i \<and> i \<le> start then i < LENGTH('a) \<and> bit bits (i - stop) else bit v i)"
  for v :: "'a::len word"
  by (auto simp: replace_subset_def Let_def bit_or_iff bit_and_iff bit_not_iff bit_push_bit_iff
      bit_mask_subset possible_bit_word dest: bit_word_lt)

lemma bit_set_bit_to [word_bits]:
  "bit (set_bit_to v b value) i \<longleftrightarrow> (if i = b then i < LENGTH('a) \<and> value else bit v i)"
  for v :: "'a::len word"
  by (auto simp: set_bit_to_def Let_def bit_or_iff bit_and_iff bit_not_iff bit_push_bit_iff
      bit_1_iff bit_exp_iff possible_bit_word dest: bit_word_lt)

lemma bit_ones [word_bits]: "bit (ones n) i \<longleftrightarrow> i < unat n \<and> i < 64"
proof (cases "n = 0")
  case False
  then have "0 < unat n" by (simp add: unat_gt_0)
  then show ?thesis using False
    by (auto simp: ones_def Let_def bit_drop_bit_eq bit_not_iff bit_mask_iff possible_bit_word)
qed (simp add: ones_def)

section \<open>Laws of the range accessors\<close>

lemma bits_subset_replace_subset:
  fixes v :: "'a::len word"
  assumes "stop \<le> start" "start < LENGTH('a)"
  shows "bits_subset (replace_subset v start stop bits) start stop = take_bit (1 + start - stop) bits"
  using assms by (intro word_bits_eqI) (auto simp: word_bits bit_take_bit_iff)

lemma bits_subset_replace_subset_other:
  fixes v :: "'a::len word"
  assumes "stop \<le> start" "stop' \<le> start'" "start < stop' \<or> start' < stop"
  shows "bits_subset (replace_subset v start' stop' bits) start stop = bits_subset v start stop"
  using assms by (intro word_bits_eqI) (auto simp: word_bits)

lemma replace_subset_replace_subset:
  fixes v :: "'a::len word"
  assumes "stop \<le> start"
  shows "replace_subset (replace_subset v start stop a) start stop b = replace_subset v start stop b"
  using assms by (intro word_bits_eqI) (auto simp: word_bits)

lemma replace_subset_commute:
  fixes v :: "'a::len word"
  assumes "stop \<le> start" "stop' \<le> start'" "start < stop' \<or> start' < stop"
  shows "replace_subset (replace_subset v start stop a) start' stop' b =
    replace_subset (replace_subset v start' stop' b) start stop a"
  using assms by (intro word_bits_eqI) (auto simp: word_bits)

lemma replace_subset_bits_subset:
  fixes v :: "'a::len word"
  assumes "stop \<le> start"
  shows "replace_subset v start stop (bits_subset v start stop) = v"
  using assms by (intro word_bits_eqI) (auto simp: word_bits)

lemma bits_subset_unat:
  fixes v :: "'a::len word"
  assumes "stop \<le> start" "start < LENGTH('a)"
  shows "unat (bits_subset v start stop) = unat v div 2 ^ stop mod 2 ^ (1 + start - stop)"
proof -
  have "bits_subset v start stop = take_bit (1 + start - stop) (drop_bit stop v)"
    using assms by (intro word_bits_eqI) (auto simp: word_bits bit_take_bit_iff bit_drop_bit_eq add.commute)
  moreover have "unat (drop_bit stop v) = drop_bit stop (unat v)"
    by (intro bit_eqI) (auto simp: bit_unsigned_iff bit_drop_bit_eq dest: bit_word_lt)
  ultimately have "unat (bits_subset v start stop) = take_bit (1 + start - stop) (drop_bit stop (unat v))"
    by (metis unsigned_take_bit_eq)
  then show ?thesis
    by (simp only: take_bit_eq_mod drop_bit_eq_div)
qed

lemma ones_eq_mask: "ones n = mask (unat n)"
  by (intro word_bits_eqI) (auto simp: word_bits bit_mask_iff)

section \<open>The trait \<open>Bits64\<close> and the accessors of \<open>csr!\<close>\<close>

definition csr_get :: "(u64 \<Rightarrow> 'a) \<Rightarrow> nat \<Rightarrow> nat \<Rightarrow> u64 \<Rightarrow> 'a" where
  "csr_get from_bits width accum v =
     (let offset = width - 1 in from_bits (bits_subset v (accum + offset) accum))"

definition csr_with :: "('a \<Rightarrow> u64) \<Rightarrow> nat \<Rightarrow> nat \<Rightarrow> 'a \<Rightarrow> u64 \<Rightarrow> u64" where
  "csr_with to_bits width accum value v =
     (let offset = width - 1 in replace_subset v (accum + offset) accum (to_bits value))"

lemma csr_get_with_other [csr_simps]:
  assumes "accum + (width - 1) < accum' \<or> accum' + (width' - 1) < accum"
  shows "csr_get f width accum (csr_with t width' accum' x v) = csr_get f width accum v"
  using assms by (simp add: csr_get_def csr_with_def Let_def bits_subset_replace_subset_other)

lemma csr_with_with [csr_simps]:
  "csr_with t width accum y (csr_with t width accum x v) = csr_with t width accum y v"
  by (simp add: csr_with_def Let_def replace_subset_replace_subset)

lemma bit_csr_with [word_bits]:
  "bit (csr_with t width accum x v) i \<longleftrightarrow>
   (if accum \<le> i \<and> i \<le> accum + (width - 1) then i < 64 \<and> bit (t x) (i - accum) else bit v i)"
  by (auto simp: csr_with_def Let_def bit_replace_subset dest: bit_word_lt)

locale Bits64 =
  fixes from_bits :: "u64 \<Rightarrow> 'a"
    and to_bits :: "'a \<Rightarrow> u64"
    and width :: nat
  assumes width_pos: "0 < width"
    and from_to_bits: "from_bits (take_bit width (to_bits x)) = x"
begin

lemma csr_get_with:
  assumes "accum + width \<le> 64"
  shows "csr_get from_bits width accum (csr_with to_bits width accum x v) = x"
  using assms width_pos
  by (simp add: csr_get_def csr_with_def Let_def bits_subset_replace_subset from_to_bits)

lemma csr_with_inj:
  assumes "accum + width \<le> 64"
    and "csr_with to_bits width accum x v = csr_with to_bits width accum y w"
  shows "x = y"
  using csr_get_with[OF assms(1)] assms(2) by metis

end

definition bool_from_bits :: "u64 \<Rightarrow> bool" where
  "bool_from_bits value = bit_at value 0"

definition bool_to_bits :: "bool \<Rightarrow> u64" where
  "bool_to_bits b = (if b then 1 else 0)"

definition unsigned_from_bits :: "u64 \<Rightarrow> 'a::len word" where
  "unsigned_from_bits value = ucast value"

definition unsigned_to_bits :: "'a::len word \<Rightarrow> u64" where
  "unsigned_to_bits x = ucast x"

definition signed_to_bits :: "'a::len word \<Rightarrow> u64" where
  "signed_to_bits x = scast x"

definition constant_from_bits :: "u64 \<Rightarrow> unit" where
  "constant_from_bits value = ()"

definition constant_to_bits :: "u64 \<Rightarrow> unit \<Rightarrow> u64" where
  "constant_to_bits VALUE u = VALUE"

definition fixed_from_bits :: "u64 \<Rightarrow> 'a::len word" where
  "fixed_from_bits value = ucast (bits_subset value (LENGTH('a) - 1) 0)"

definition fixed_to_bits :: "'a::len word \<Rightarrow> u64" where
  "fixed_to_bits x = bits_subset (ucast x) (LENGTH('a) - 1) 0"

interpretation bool_bits: Bits64 bool_from_bits bool_to_bits 1
  by unfold_locales (simp_all add: bool_from_bits_def bool_to_bits_def word_bits)

interpretation u8_bits: Bits64 "unsigned_from_bits :: u64 \<Rightarrow> u8" unsigned_to_bits 8
  by unfold_locales
    (auto intro!: word_bits_eqI simp: unsigned_from_bits_def unsigned_to_bits_def bit_simps)

interpretation u16_bits: Bits64 "unsigned_from_bits :: u64 \<Rightarrow> u16" unsigned_to_bits 16
  by unfold_locales
    (auto intro!: word_bits_eqI simp: unsigned_from_bits_def unsigned_to_bits_def bit_simps)

interpretation u32_bits: Bits64 "unsigned_from_bits :: u64 \<Rightarrow> u32" unsigned_to_bits 32
  by unfold_locales
    (auto intro!: word_bits_eqI simp: unsigned_from_bits_def unsigned_to_bits_def bit_simps)

interpretation i32_bits: Bits64 "unsigned_from_bits :: u64 \<Rightarrow> i32" signed_to_bits 32
  by unfold_locales
    (auto intro!: word_bits_eqI simp: unsigned_from_bits_def signed_to_bits_def bit_simps)

interpretation constant_bits1: Bits64 constant_from_bits "constant_to_bits VALUE" 1
  by unfold_locales simp_all

interpretation fixed44_bits: Bits64 "fixed_from_bits :: u64 \<Rightarrow> 44 word" fixed_to_bits 44
  by unfold_locales
    (auto intro!: word_bits_eqI simp: fixed_from_bits_def fixed_to_bits_def word_bits bit_simps)

interpretation fixed16_bits: Bits64 "fixed_from_bits :: u64 \<Rightarrow> 16 word" fixed_to_bits 16
  by unfold_locales
    (auto intro!: word_bits_eqI simp: fixed_from_bits_def fixed_to_bits_def word_bits bit_simps)

lemmas builtin_get_with [csr_simps] =
  bool_bits.csr_get_with[unfolded One_nat_def] u8_bits.csr_get_with u16_bits.csr_get_with u32_bits.csr_get_with
  i32_bits.csr_get_with fixed44_bits.csr_get_with fixed16_bits.csr_get_with

end
