(* ===== verification/Registers.thy ===== *)
theory Registers
  imports Bits
begin

text \<open>
  Integer and floating-point registers of \<^verbatim>\<open>machine_state/registers.rs\<close>.  A register
  name is a constructor; \<^verbatim>\<open>#[repr(u8)]\<close> of \<^verbatim>\<open>XRegister\<close> is \<^verbatim>\<open>xregister_repr\<close>, and
  the \<^verbatim>\<open>transmute\<close> that decodes a register number is the partial inverse of the
  representation, so that its safety argument is a theorem.  The cell arrays
  holding the values are functions from the cell index; register files are the
  locale \<^verbatim>\<open>register_file\<close>, interpreted on both kinds of registers.
\<close>

section \<open>Integer register names\<close>

datatype XRegister =
    X0 | X1 | X2 | X3 | X4 | X5 | X6 | X7 | X8 | X9 | X10
  | X11 | X12 | X13 | X14 | X15 | X16 | X17 | X18 | X19 | X20 | X21
  | X22 | X23 | X24 | X25 | X26 | X27 | X28 | X29 | X30 | X31

definition all_xregisters :: "XRegister list" where
  "all_xregisters =
     [X0, X1, X2, X3, X4, X5, X6, X7, X8, X9, X10, X11,
      X12, X13, X14, X15, X16, X17, X18, X19, X20, X21, X22, X23,
      X24, X25, X26, X27, X28, X29, X30, X31]"

primrec xregister_repr :: "XRegister \<Rightarrow> u8" where
  "xregister_repr X0 = 255"
| "xregister_repr X1 = 0"
| "xregister_repr X2 = 1"
| "xregister_repr X3 = 2"
| "xregister_repr X4 = 3"
| "xregister_repr X5 = 4"
| "xregister_repr X6 = 5"
| "xregister_repr X7 = 6"
| "xregister_repr X8 = 7"
| "xregister_repr X9 = 8"
| "xregister_repr X10 = 9"
| "xregister_repr X11 = 10"
| "xregister_repr X12 = 11"
| "xregister_repr X13 = 12"
| "xregister_repr X14 = 13"
| "xregister_repr X15 = 14"
| "xregister_repr X16 = 15"
| "xregister_repr X17 = 16"
| "xregister_repr X18 = 17"
| "xregister_repr X19 = 18"
| "xregister_repr X20 = 19"
| "xregister_repr X21 = 20"
| "xregister_repr X22 = 21"
| "xregister_repr X23 = 22"
| "xregister_repr X24 = 23"
| "xregister_repr X25 = 24"
| "xregister_repr X26 = 25"
| "xregister_repr X27 = 26"
| "xregister_repr X28 = 27"
| "xregister_repr X29 = 28"
| "xregister_repr X30 = 29"
| "xregister_repr X31 = 30"

definition transmute_xregister :: "u8 \<Rightarrow> XRegister option" where
  "transmute_xregister b = find (\<lambda>x. xregister_repr x = b) all_xregisters"

definition parse_xregister :: "5 word \<Rightarrow> XRegister" where
  "parse_xregister r = (let r = ucast r - 1 in the (transmute_xregister r))"

primrec xregister_name :: "XRegister \<Rightarrow> string" where
  "xregister_name X0 = ''zero''"
| "xregister_name X1 = ''ra''"
| "xregister_name X2 = ''sp''"
| "xregister_name X3 = ''gp''"
| "xregister_name X4 = ''tp''"
| "xregister_name X5 = ''t0''"
| "xregister_name X6 = ''t1''"
| "xregister_name X7 = ''t2''"
| "xregister_name X8 = ''s0''"
| "xregister_name X9 = ''s1''"
| "xregister_name X10 = ''a0''"
| "xregister_name X11 = ''a1''"
| "xregister_name X12 = ''a2''"
| "xregister_name X13 = ''a3''"
| "xregister_name X14 = ''a4''"
| "xregister_name X15 = ''a5''"
| "xregister_name X16 = ''a6''"
| "xregister_name X17 = ''a7''"
| "xregister_name X18 = ''s2''"
| "xregister_name X19 = ''s3''"
| "xregister_name X20 = ''s4''"
| "xregister_name X21 = ''s5''"
| "xregister_name X22 = ''s6''"
| "xregister_name X23 = ''s7''"
| "xregister_name X24 = ''s8''"
| "xregister_name X25 = ''s9''"
| "xregister_name X26 = ''s10''"
| "xregister_name X27 = ''s11''"
| "xregister_name X28 = ''t3''"
| "xregister_name X29 = ''t4''"
| "xregister_name X30 = ''t5''"
| "xregister_name X31 = ''t6''"

definition is_zero :: "XRegister \<Rightarrow> bool" where
  "is_zero x = (x = X0)"

text \<open>ABI names that the interpreter and the boot code use.\<close>

abbreviation "reg_zero \<equiv> X0"
abbreviation "reg_ra \<equiv> X1"
abbreviation "reg_sp \<equiv> X2"
abbreviation "reg_a0 \<equiv> X10"
abbreviation "reg_a1 \<equiv> X11"

section \<open>Integer register file\<close>

type_synonym XValue = u64
type_synonym XRegisters = "nat \<Rightarrow> XValue"

definition xregister_index :: "XRegister \<Rightarrow> nat" where
  "xregister_index x = unat (xregister_repr x)"

definition xr_read :: "XRegisters \<Rightarrow> XRegister \<Rightarrow> XValue" where
  "xr_read regs reg = (if is_zero reg then 0 else regs (xregister_index reg))"

definition xr_write :: "XRegisters \<Rightarrow> XRegister \<Rightarrow> XValue \<Rightarrow> XRegisters" where
  "xr_write regs reg val =
     (if is_zero reg then regs else regs(xregister_index reg := val))"

definition xr_reset :: "XRegisters \<Rightarrow> XRegisters" where
  "xr_reset regs = fold (\<lambda>i r. r(i := 0)) [0..<31] regs"

section \<open>Floating-point register names and file\<close>

datatype FRegister =
    F0 | F1 | F2 | F3 | F4 | F5 | F6 | F7 | F8 | F9 | F10
  | F11 | F12 | F13 | F14 | F15 | F16 | F17 | F18 | F19 | F20 | F21
  | F22 | F23 | F24 | F25 | F26 | F27 | F28 | F29 | F30 | F31

definition all_fregisters :: "FRegister list" where
  "all_fregisters =
     [F0, F1, F2, F3, F4, F5, F6, F7, F8, F9, F10, F11,
      F12, F13, F14, F15, F16, F17, F18, F19, F20, F21, F22, F23,
      F24, F25, F26, F27, F28, F29, F30, F31]"

primrec fregister_repr :: "FRegister \<Rightarrow> nat" where
  "fregister_repr F0 = 0"
| "fregister_repr F1 = 1"
| "fregister_repr F2 = 2"
| "fregister_repr F3 = 3"
| "fregister_repr F4 = 4"
| "fregister_repr F5 = 5"
| "fregister_repr F6 = 6"
| "fregister_repr F7 = 7"
| "fregister_repr F8 = 8"
| "fregister_repr F9 = 9"
| "fregister_repr F10 = 10"
| "fregister_repr F11 = 11"
| "fregister_repr F12 = 12"
| "fregister_repr F13 = 13"
| "fregister_repr F14 = 14"
| "fregister_repr F15 = 15"
| "fregister_repr F16 = 16"
| "fregister_repr F17 = 17"
| "fregister_repr F18 = 18"
| "fregister_repr F19 = 19"
| "fregister_repr F20 = 20"
| "fregister_repr F21 = 21"
| "fregister_repr F22 = 22"
| "fregister_repr F23 = 23"
| "fregister_repr F24 = 24"
| "fregister_repr F25 = 25"
| "fregister_repr F26 = 26"
| "fregister_repr F27 = 27"
| "fregister_repr F28 = 28"
| "fregister_repr F29 = 29"
| "fregister_repr F30 = 30"
| "fregister_repr F31 = 31"

definition transmute_fregister :: "nat \<Rightarrow> FRegister option" where
  "transmute_fregister n = find (\<lambda>x. fregister_repr x = n) all_fregisters"

definition parse_fregister :: "5 word \<Rightarrow> FRegister" where
  "parse_fregister r = (let r = unat r in the (transmute_fregister r))"

primrec fregister_name :: "FRegister \<Rightarrow> string" where
  "fregister_name F0 = ''ft0''"
| "fregister_name F1 = ''ft1''"
| "fregister_name F2 = ''ft2''"
| "fregister_name F3 = ''ft3''"
| "fregister_name F4 = ''ft4''"
| "fregister_name F5 = ''ft5''"
| "fregister_name F6 = ''ft6''"
| "fregister_name F7 = ''ft7''"
| "fregister_name F8 = ''fs0''"
| "fregister_name F9 = ''fs1''"
| "fregister_name F10 = ''fa0''"
| "fregister_name F11 = ''fa1''"
| "fregister_name F12 = ''fa2''"
| "fregister_name F13 = ''fa3''"
| "fregister_name F14 = ''fa4''"
| "fregister_name F15 = ''fa5''"
| "fregister_name F16 = ''fa6''"
| "fregister_name F17 = ''fa7''"
| "fregister_name F18 = ''fs2''"
| "fregister_name F19 = ''fs3''"
| "fregister_name F20 = ''fs4''"
| "fregister_name F21 = ''fs5''"
| "fregister_name F22 = ''fs6''"
| "fregister_name F23 = ''fs7''"
| "fregister_name F24 = ''fs8''"
| "fregister_name F25 = ''fs9''"
| "fregister_name F26 = ''fs10''"
| "fregister_name F27 = ''fs11''"
| "fregister_name F28 = ''ft8''"
| "fregister_name F29 = ''ft9''"
| "fregister_name F30 = ''ft10''"
| "fregister_name F31 = ''ft11''"

type_synonym FValue = u64
type_synonym FRegisters = "nat \<Rightarrow> FValue"

definition fr_read :: "FRegisters \<Rightarrow> FRegister \<Rightarrow> FValue" where
  "fr_read regs reg = regs (fregister_repr reg)"

definition fr_write :: "FRegisters \<Rightarrow> FRegister \<Rightarrow> FValue \<Rightarrow> FRegisters" where
  "fr_write regs reg val = regs(fregister_repr reg := val)"

definition fr_reset :: "FRegisters \<Rightarrow> FRegisters" where
  "fr_reset regs = fold (\<lambda>i r. r(i := 0)) [0..<32] regs"

section \<open>Decoding register numbers\<close>

lemma word5_all:
  assumes "\<forall>n \<in> set [0..<32]. P (of_nat n :: 5 word)"
  shows "P (r :: 5 word)"
proof -
  have "unat r < 32" using unsigned_less[of r, where ?'a = nat] by simp
  then have "P (of_nat (unat r))" using assms by (metis atLeastLessThan_iff set_upt zero_le)
  then show ?thesis by simp
qed

lemma in_all_xregisters [simp]: "x \<in> set all_xregisters"
  by (cases x) (simp_all add: all_xregisters_def)

lemma in_all_fregisters [simp]: "x \<in> set all_fregisters"
  by (cases x) (simp_all add: all_fregisters_def)

lemma transmute_xregister_repr [simp]: "transmute_xregister (xregister_repr x) = Some x"
  by (cases x) (simp_all add: transmute_xregister_def all_xregisters_def)

lemma transmute_fregister_repr [simp]: "transmute_fregister (fregister_repr x) = Some x"
  by (cases x) (simp_all add: transmute_fregister_def all_fregisters_def)

lemma xregister_repr_inject [simp]: "xregister_repr x = xregister_repr y \<longleftrightarrow> x = y"
  by (metis option.inject transmute_xregister_repr)

lemma fregister_repr_inject [simp]: "fregister_repr x = fregister_repr y \<longleftrightarrow> x = y"
  by (metis option.inject transmute_fregister_repr)

lemma xregister_index_inject [simp]: "xregister_index x = xregister_index y \<longleftrightarrow> x = y"
  by (simp add: xregister_index_def word_unat_eq_iff[symmetric])

lemma xregister_index_bound: "\<not> is_zero x \<Longrightarrow> xregister_index x < 31"
  by (cases x) (simp_all add: is_zero_def xregister_index_def)

lemma fregister_repr_bound: "fregister_repr x < 32"
  by (cases x) simp_all

definition xregister_number :: "XRegister \<Rightarrow> 5 word" where
  "xregister_number x = ucast (xregister_repr x + 1)"

lemma transmute_xregister_total:
  "transmute_xregister (ucast (r :: 5 word) - 1) = Some (parse_xregister r)"
  by (rule word5_all[of "\<lambda>r. transmute_xregister (ucast r - 1) = Some (parse_xregister r)"]) code_simp

lemma parse_xregister_number [simp]: "parse_xregister (xregister_number x) = x"
proof -
  have "\<forall>x \<in> set all_xregisters. parse_xregister (xregister_number x) = x" by code_simp
  then show ?thesis by simp
qed

lemma xregister_number_parse [simp]: "xregister_number (parse_xregister r) = r"
  by (rule word5_all[of "\<lambda>r. xregister_number (parse_xregister r) = r"]) code_simp

lemma parse_xregister_inject [simp]: "parse_xregister a = parse_xregister b \<longleftrightarrow> a = b"
  by (metis xregister_number_parse)

lemma parse_xregister_is_zero [simp]: "is_zero (parse_xregister r) \<longleftrightarrow> r = 0"
proof -
  have "parse_xregister 0 = X0" by code_simp
  then show ?thesis by (metis is_zero_def parse_xregister_inject)
qed

lemma transmute_fregister_total:
  "transmute_fregister (unat (r :: 5 word)) = Some (parse_fregister r)"
  by (rule word5_all[of "\<lambda>r. transmute_fregister (unat r) = Some (parse_fregister r)"]) code_simp

lemma parse_fregister_repr [simp]: "fregister_repr (parse_fregister r) = unat r"
  by (rule word5_all[of "\<lambda>r. fregister_repr (parse_fregister r) = unat r"]) code_simp

section \<open>The register file interface\<close>

locale register_file =
  fixes get :: "'s \<Rightarrow> 'r \<Rightarrow> 'v"
    and put :: "'s \<Rightarrow> 'r \<Rightarrow> 'v \<Rightarrow> 's"
    and hardwired :: "'r \<Rightarrow> bool"
    and dflt :: 'v
  assumes get_put_same: "\<not> hardwired r \<Longrightarrow> get (put s r v) r = v"
    and get_put_other: "r \<noteq> q \<Longrightarrow> get (put s r v) q = get s q"
    and put_hardwired: "hardwired r \<Longrightarrow> put s r v = s"
    and get_hardwired: "hardwired r \<Longrightarrow> get s r = dflt"
begin

lemma get_put:
  "get (put s r v) q = (if q = r \<and> \<not> hardwired r then v else get s q)"
  using get_put_same get_put_other put_hardwired by auto

fun put_all :: "'s \<Rightarrow> ('r \<times> 'v) list \<Rightarrow> 's" where
  "put_all s [] = s"
| "put_all s ((r, v) # ws) = put_all (put s r v) ws"

lemma get_put_all_untouched:
  "q \<notin> fst ` set ws \<Longrightarrow> get (put_all s ws) q = get s q"
  by (induction s ws rule: put_all.induct) (auto simp: get_put)

lemma get_put_all_last:
  "q \<notin> fst ` set ws2 \<Longrightarrow> \<not> hardwired q \<Longrightarrow> get (put_all s (ws1 @ (q, v) # ws2)) q = v"
  by (induction s ws1 rule: put_all.induct) (auto simp: get_put_all_untouched get_put_same)

lemma get_put_all_hardwired: "hardwired q \<Longrightarrow> get (put_all s ws) q = dflt"
  using get_hardwired by blast

end

interpretation xr: register_file xr_read xr_write is_zero 0
  by unfold_locales (auto simp: xr_read_def xr_write_def)

interpretation fr: register_file fr_read fr_write "\<lambda>_. False" 0
  by unfold_locales (auto simp: fr_read_def fr_write_def)

lemma xr_read_X0 [simp]: "xr_read s X0 = 0"
  by (simp add: xr_read_def is_zero_def)

lemma xr_write_X0 [simp]: "xr_write s X0 v = s"
  by (simp add: xr_write_def is_zero_def)

lemma xr_write_write [simp]: "xr_write (xr_write s r u) r v = xr_write s r v"
  by (simp add: xr_write_def)

lemma fold_upd_const: "fold (\<lambda>i r. r(i := c)) [a..<b] f k = (if a \<le> k \<and> k < b then c else f k)"
  by (induction b arbitrary: f) (auto simp: le_Suc_eq)

lemma xr_read_reset [simp]: "xr_read (xr_reset s) r = 0"
  using xregister_index_bound[of r] by (auto simp: xr_read_def xr_reset_def fold_upd_const)

lemma fr_read_reset [simp]: "fr_read (fr_reset s) r = 0"
  using fregister_repr_bound[of r] by (auto simp: fr_read_def fr_reset_def fold_upd_const)

end
