(* ===== verification/Traps.thy ===== *)
theory Traps
  imports Bits
begin

text \<open>
  Privilege modes (\<^verbatim>\<open>machine_state/mode.rs\<close>) and traps (\<^verbatim>\<open>traps.rs\<close>): synchronous
  exceptions, interrupts, the exceptions handed to the execution environment,
  and the methods of the trait \<^verbatim>\<open>TrapContext\<close> for both kinds of traps.  The trait
  is the locale \<^verbatim>\<open>TrapContext\<close>, with the relations between cause, code and
  handler address that trap handling relies on.
\<close>

section \<open>Modes\<close>

datatype Privilege = Unprivileged | PrivSupervisor | PrivHypervisor | PrivMachine

datatype Mode = User | Supervisor | Machine

datatype TrapMode = TrapSupervisor | TrapMachine

fun mode_privilege :: "Mode \<Rightarrow> Privilege" where
  "mode_privilege User = Unprivileged"
| "mode_privilege Supervisor = PrivSupervisor"
| "mode_privilege Machine = PrivMachine"

fun as_mode :: "TrapMode \<Rightarrow> Mode" where
  "as_mode TrapSupervisor = Supervisor"
| "as_mode TrapMachine = Machine"

text \<open>\<^verbatim>\<open>derive(PartialOrd)\<close> and \<^verbatim>\<open>as u8\<close> follow the order of the constructors.\<close>

fun mode_u8 :: "Mode \<Rightarrow> u8" where
  "mode_u8 User = 0"
| "mode_u8 Supervisor = 1"
| "mode_u8 Machine = 2"

fun privilege_rank :: "Privilege \<Rightarrow> nat" where
  "privilege_rank Unprivileged = 0"
| "privilege_rank PrivSupervisor = 1"
| "privilege_rank PrivHypervisor = 2"
| "privilege_rank PrivMachine = 3"

instantiation Mode :: linorder
begin

definition less_eq_Mode :: "Mode \<Rightarrow> Mode \<Rightarrow> bool" where
  "less_eq_Mode a b \<longleftrightarrow> unat (mode_u8 a) \<le> unat (mode_u8 b)"

definition less_Mode :: "Mode \<Rightarrow> Mode \<Rightarrow> bool" where
  "less_Mode a b \<longleftrightarrow> unat (mode_u8 a) < unat (mode_u8 b)"

instance
proof
  fix a b :: Mode
  show "a \<le> b \<Longrightarrow> b \<le> a \<Longrightarrow> a = b"
    by (cases a; cases b) (simp_all add: less_eq_Mode_def)
qed (auto simp: less_eq_Mode_def less_Mode_def)

end

instantiation Privilege :: linorder
begin

definition less_eq_Privilege :: "Privilege \<Rightarrow> Privilege \<Rightarrow> bool" where
  "less_eq_Privilege a b \<longleftrightarrow> privilege_rank a \<le> privilege_rank b"

definition less_Privilege :: "Privilege \<Rightarrow> Privilege \<Rightarrow> bool" where
  "less_Privilege a b \<longleftrightarrow> privilege_rank a < privilege_rank b"

instance
proof
  fix a b :: Privilege
  show "a \<le> b \<Longrightarrow> b \<le> a \<Longrightarrow> a = b"
    by (cases a; cases b) (simp_all add: less_eq_Privilege_def)
qed (auto simp: less_eq_Privilege_def less_Privilege_def)

end

lemma mode_privilege_mono: "a \<le> b \<longleftrightarrow> mode_privilege a \<le> mode_privilege b"
  by (cases a; cases b) (simp_all add: less_eq_Mode_def less_eq_Privilege_def)

lemma mode_u8_inject [simp]: "mode_u8 a = mode_u8 b \<longleftrightarrow> a = b"
  by (cases a; cases b) simp_all

lemma mode_le_simps [simp]:
  "User \<le> m" "m \<le> Machine" "Supervisor \<le> User \<longleftrightarrow> False"
  "Machine \<le> m \<longleftrightarrow> m = Machine" "m \<le> User \<longleftrightarrow> m = User"
  by (cases m; simp add: less_eq_Mode_def)+

section \<open>Exceptions\<close>

datatype Exception =
    InstructionAccessFault Address
  | IllegalInstruction
  | Breakpoint
  | LoadAccessFault Address
  | StoreAMOAccessFault Address
  | EnvCallFromUMode
  | EnvCallFromSMode
  | EnvCallFromMMode
  | InstructionPageFault Address
  | LoadPageFault Address
  | StoreAMOPageFault Address

datatype EnvironException =
    EnvironCallFromUMode
  | EnvironCallFromSMode
  | EnvironCallFromMMode

fun as_exception :: "EnvironException \<Rightarrow> Exception" where
  "as_exception EnvironCallFromUMode = EnvCallFromUMode"
| "as_exception EnvironCallFromSMode = EnvCallFromSMode"
| "as_exception EnvironCallFromMMode = EnvCallFromMMode"

fun environ_try_from :: "Exception \<Rightarrow> (string, EnvironException) result" where
  "environ_try_from EnvCallFromUMode = Inr EnvironCallFromUMode"
| "environ_try_from EnvCallFromSMode = Inr EnvironCallFromSMode"
| "environ_try_from EnvCallFromMMode = Inr EnvironCallFromMMode"
| "environ_try_from _ = Inl ''Execution environment supports only ecall exceptions''"

lemma environ_try_from_iff: "environ_try_from e = Inr x \<longleftrightarrow> e = as_exception x"
  by (cases e; cases x) simp_all

datatype SbiError = SbiFailed | SbiInvalidAddress

fun sbi_error_from :: "Exception \<Rightarrow> SbiError" where
  "sbi_error_from (InstructionAccessFault _) = SbiInvalidAddress"
| "sbi_error_from (InstructionPageFault _) = SbiInvalidAddress"
| "sbi_error_from (LoadAccessFault _) = SbiInvalidAddress"
| "sbi_error_from (LoadPageFault _) = SbiInvalidAddress"
| "sbi_error_from (StoreAMOAccessFault _) = SbiInvalidAddress"
| "sbi_error_from (StoreAMOPageFault _) = SbiInvalidAddress"
| "sbi_error_from IllegalInstruction = SbiFailed"
| "sbi_error_from Breakpoint = SbiFailed"
| "sbi_error_from EnvCallFromUMode = SbiFailed"
| "sbi_error_from EnvCallFromSMode = SbiFailed"
| "sbi_error_from EnvCallFromMMode = SbiFailed"

datatype Interrupt =
    SupervisorSoftware
  | MachineSoftware
  | SupervisorTimer
  | MachineTimer
  | SupervisorExternal
  | MachineExternal

fun exception_code_const :: "Interrupt \<Rightarrow> u64" where
  "exception_code_const SupervisorSoftware = 1"
| "exception_code_const MachineSoftware = 3"
| "exception_code_const SupervisorTimer = 5"
| "exception_code_const MachineTimer = 7"
| "exception_code_const SupervisorExternal = 9"
| "exception_code_const MachineExternal = 11"

definition SUPERVISOR_BIT_MASK :: u64 where
  "SUPERVISOR_BIT_MASK =
     push_bit (unat (exception_code_const SupervisorSoftware)) 1
     OR push_bit (unat (exception_code_const SupervisorTimer)) 1
     OR push_bit (unat (exception_code_const SupervisorExternal)) 1"

definition MACHINE_BIT_MASK :: u64 where
  "MACHINE_BIT_MASK =
     push_bit (unat (exception_code_const MachineSoftware)) 1
     OR push_bit (unat (exception_code_const MachineTimer)) 1
     OR push_bit (unat (exception_code_const MachineExternal)) 1"

section \<open>Trap contexts\<close>

datatype TrapKind = KindInterrupt | KindException

fun exc_exception_code :: "Exception \<Rightarrow> u64" where
  "exc_exception_code (InstructionAccessFault _) = 1"
| "exc_exception_code IllegalInstruction = 2"
| "exc_exception_code Breakpoint = 3"
| "exc_exception_code (LoadAccessFault _) = 5"
| "exc_exception_code (StoreAMOAccessFault _) = 7"
| "exc_exception_code EnvCallFromUMode = 8"
| "exc_exception_code EnvCallFromSMode = 9"
| "exc_exception_code EnvCallFromMMode = 11"
| "exc_exception_code (InstructionPageFault _) = 12"
| "exc_exception_code (LoadPageFault _) = 13"
| "exc_exception_code (StoreAMOPageFault _) = 15"

definition exc_xcause :: "Exception \<Rightarrow> u64" where
  "exc_xcause e = exc_exception_code e"

fun exc_xtval :: "Exception \<Rightarrow> u64" where
  "exc_xtval IllegalInstruction = 0"
| "exc_xtval Breakpoint = 0"
| "exc_xtval EnvCallFromUMode = 0"
| "exc_xtval EnvCallFromSMode = 0"
| "exc_xtval EnvCallFromMMode = 0"
| "exc_xtval (InstructionAccessFault addr) = addr"
| "exc_xtval (LoadAccessFault addr) = addr"
| "exc_xtval (StoreAMOAccessFault addr) = addr"
| "exc_xtval (InstructionPageFault addr) = addr"
| "exc_xtval (LoadPageFault addr) = addr"
| "exc_xtval (StoreAMOPageFault addr) = addr"

definition exc_trap_handler_address :: "Exception \<Rightarrow> u64 \<Rightarrow> Address" where
  "exc_trap_handler_address e xtvec_val = xtvec_val AND NOT 3"

definition exc_kind :: TrapKind where
  "exc_kind = KindException"

definition int_xtval :: "Interrupt \<Rightarrow> u64" where
  "int_xtval i = 0"

definition int_exception_code :: "Interrupt \<Rightarrow> u64" where
  "int_exception_code i = exception_code_const i"

definition int_xcause :: "Interrupt \<Rightarrow> u64" where
  "int_xcause i = (let interrupt_bit = push_bit 63 1 in interrupt_bit OR int_exception_code i)"

definition int_trap_handler_address :: "Interrupt \<Rightarrow> u64 \<Rightarrow> Address" where
  "int_trap_handler_address i xtvec_val =
     (let xtvec_mode = xtvec_val AND 3;
          xtvec_base = xtvec_val AND NOT 3;
          handler_offset = (if xtvec_mode = 1 then 4 * int_exception_code i else 0)
      in xtvec_base + handler_offset)"

definition int_kind :: TrapKind where
  "int_kind = KindInterrupt"

text \<open>
  A value of a type implementing \<^verbatim>\<open>TrapContext\<close>, as the methods that are generic
  in the trait receive it.
\<close>

datatype Trap = TrapExc Exception | TrapInt Interrupt

fun trap_exception_code :: "Trap \<Rightarrow> u64" where
  "trap_exception_code (TrapExc e) = exc_exception_code e"
| "trap_exception_code (TrapInt i) = int_exception_code i"

fun trap_xcause :: "Trap \<Rightarrow> u64" where
  "trap_xcause (TrapExc e) = exc_xcause e"
| "trap_xcause (TrapInt i) = int_xcause i"

fun trap_xtval :: "Trap \<Rightarrow> u64" where
  "trap_xtval (TrapExc e) = exc_xtval e"
| "trap_xtval (TrapInt i) = int_xtval i"

fun trap_handler_address :: "Trap \<Rightarrow> u64 \<Rightarrow> Address" where
  "trap_handler_address (TrapExc e) v = exc_trap_handler_address e v"
| "trap_handler_address (TrapInt i) v = int_trap_handler_address i v"

fun trap_kind :: "Trap \<Rightarrow> TrapKind" where
  "trap_kind (TrapExc _) = exc_kind"
| "trap_kind (TrapInt _) = int_kind"

locale TrapContext =
  fixes xtval :: "'t \<Rightarrow> u64"
    and exception_code :: "'t \<Rightarrow> u64"
    and xcause :: "'t \<Rightarrow> u64"
    and handler_address :: "'t \<Rightarrow> u64 \<Rightarrow> Address"
    and interrupt :: bool
  assumes code_bound: "exception_code t < 16"
    and xcause_code: "xcause t = (if interrupt then push_bit 63 1 else 0) OR exception_code t"
    and handler_direct: "handler_address t (base AND NOT 3) = base AND NOT 3"
    and handler_align: "handler_address t base AND 3 = 0"
begin

lemma xcause_interrupt_bit: "bit (xcause t) 63 \<longleftrightarrow> interrupt"
proof -
  have "\<not> bit (exception_code t) 63"
    using code_bound[of t] less_exp_iff_take_bit[of 4 "exception_code t"]
    by (auto simp: take_bit_eq_iff_bits)
  then show ?thesis
    by (simp add: xcause_code bit_or_iff)
qed

end

lemma exc_code_bound: "exc_exception_code e < 16"
  by (cases e) simp_all

lemma int_code_bound: "int_exception_code i < 16"
  by (cases i) (simp_all add: int_exception_code_def)

lemma and_not_3_and_3: "((w :: u64) AND NOT 3) AND 3 = 0"
  by (simp only: and.assoc bit.conj_cancel_left and_zero_eq)

lemma and_minus_4_and_3 [simp]: "((w :: u64) AND - 4) AND 3 = 0"
  using and_not_3_and_3[of w] by simp

lemma and_not_3_idem: "((w :: u64) AND NOT 3) AND NOT 3 = w AND NOT 3"
  by (simp only: and.assoc and.idem)

lemma four_times_and_3: "(4 * w :: u64) AND 3 = 0"
proof -
  have *: "(3 :: u64) = mask 2" by (simp add: mask_eq_exp_minus_1)
  have "(4 * w :: u64) = push_bit 2 w" by (simp add: push_bit_eq_mult mult.commute)
  then show ?thesis unfolding *
    by (auto intro!: word_bits_eqI simp: bit_and_iff bit_push_bit_iff bit_mask_iff)
qed

lemma and_3_eq_0_iff: "(a :: u64) AND 3 = 0 \<longleftrightarrow> (\<exists>b. a = 4 * b)"
proof
  assume a: "a AND 3 = 0"
  have *: "(3 :: u64) = mask 2" by (simp add: mask_eq_exp_minus_1)
  have "\<not> bit a i" if "i < 2" for i
  proof -
    have "\<not> bit (a AND 3) i" using a by simp
    then show ?thesis using that by (simp add: * bit_and_iff bit_mask_iff)
  qed
  then have "a = push_bit 2 (drop_bit 2 a)"
    by (intro word_bits_eqI) (metis bit_drop_bit_eq bit_push_bit_iff comp_apply le_add_diff_inverse
        linorder_not_le possible_bit_word)
  moreover have "push_bit 2 (drop_bit 2 a) = 4 * drop_bit 2 a"
    by (simp add: push_bit_eq_mult mult.commute)
  ultimately have "a = 4 * drop_bit 2 a" by simp
  then show "\<exists>b. a = 4 * b" ..
qed (auto simp: four_times_and_3)

lemma add_and_3_eq_0:
  assumes "(a :: u64) AND 3 = 0" "b AND 3 = 0"
  shows "(a + b) AND 3 = 0"
  using assms unfolding and_3_eq_0_iff by (metis distrib_left)

interpretation exc_ctx: TrapContext exc_xtval exc_exception_code exc_xcause exc_trap_handler_address False
  by unfold_locales
    (simp_all add: exc_code_bound exc_xcause_def exc_trap_handler_address_def and_not_3_and_3
      and_not_3_idem)

lemma int_handler_align: "int_trap_handler_address i base AND 3 = 0"
  by (simp add: int_trap_handler_address_def Let_def and_not_3_and_3 add_and_3_eq_0 four_times_and_3)

lemma int_handler_direct: "int_trap_handler_address i (base AND NOT 3) = base AND NOT 3"
  by (simp add: int_trap_handler_address_def Let_def and_not_3_and_3 and_not_3_idem)

interpretation int_ctx: TrapContext int_xtval int_exception_code int_xcause int_trap_handler_address True
  by unfold_locales
    (simp_all add: int_code_bound int_xcause_def Let_def int_handler_align int_handler_direct[simplified])

lemma trap_handler_align: "trap_handler_address t base AND 3 = 0"
  by (cases t) (simp_all add: exc_ctx.handler_align int_ctx.handler_align)

lemma trap_code_bound: "trap_exception_code t < 16"
  by (cases t) (simp_all add: exc_ctx.code_bound int_ctx.code_bound)

end
