(* ===== verification/Xstatus.thy ===== *)
theory Xstatus
  imports Traps
begin

text \<open>
  The status registers: \<^verbatim>\<open>machine_state/csregisters/xstatus.rs\<close> (the packed layouts
  \<^verbatim>\<open>MStatus\<close>, \<^verbatim>\<open>SStatus\<close>, \<^verbatim>\<open>MNStatus\<close> and their field types) and
  \<^verbatim>\<open>csregisters/values/mstatus.rs\<close> (the unpacked cells \<^verbatim>\<open>MStatusValue\<close>).  A packed
  layout is a 64-bit word; the accessors that \<^verbatim>\<open>csr!\<close> generates for a field are
  abbreviations of \<^verbatim>\<open>csr_get\<close> and \<^verbatim>\<open>csr_with\<close> at the field's offset.  The field
  types are instances of the trait \<^verbatim>\<open>Bits64\<close>.
\<close>

section \<open>Field types\<close>

datatype MPPValue = MPP_User | MPP_Supervisor | MPP_Machine

fun mpp_mode :: "MPPValue \<Rightarrow> Mode" where
  "mpp_mode MPP_User = User"
| "mpp_mode MPP_Supervisor = Supervisor"
| "mpp_mode MPP_Machine = Machine"

fun mpp_u8 :: "MPPValue \<Rightarrow> u8" where
  "mpp_u8 MPP_User = 0"
| "mpp_u8 MPP_Supervisor = 1"
| "mpp_u8 MPP_Machine = 3"

definition mpp_from_u8 :: "u8 \<Rightarrow> MPPValue" where
  "mpp_from_u8 value =
     (let b = value AND 3
      in if b = 0 then MPP_User else if b = 1 then MPP_Supervisor
         else if b = 3 then MPP_Machine else MPP_User)"

definition mpp_from_bits :: "u64 \<Rightarrow> MPPValue" where
  "mpp_from_bits value = mpp_from_u8 (ucast value)"

definition mpp_to_bits :: "MPPValue \<Rightarrow> u64" where
  "mpp_to_bits value = ucast (mpp_u8 value)"

datatype SPPValue = SPP_User | SPP_Supervisor

fun spp_u8 :: "SPPValue \<Rightarrow> u8" where
  "spp_u8 SPP_User = 0"
| "spp_u8 SPP_Supervisor = 1"

definition spp_from_u8 :: "u8 \<Rightarrow> SPPValue" where
  "spp_from_u8 value = (if value AND 1 = 0 then SPP_User else SPP_Supervisor)"

definition spp_from_bits :: "u64 \<Rightarrow> SPPValue" where
  "spp_from_bits value = spp_from_u8 (ucast value)"

definition spp_to_bits :: "SPPValue \<Rightarrow> u64" where
  "spp_to_bits value = ucast (spp_u8 value)"

datatype XLenValue = MXL64

fun xlen_u8 :: "XLenValue \<Rightarrow> u8" where
  "xlen_u8 MXL64 = 2"

definition xlen_from_u8 :: "u8 \<Rightarrow> XLenValue" where
  "xlen_from_u8 value = MXL64"

definition xlen_from_bits :: "u64 \<Rightarrow> XLenValue" where
  "xlen_from_bits value = xlen_from_u8 (ucast value)"

definition xlen_to_bits :: "XLenValue \<Rightarrow> u64" where
  "xlen_to_bits value = ucast (xlen_u8 value)"

datatype ExtensionValue = Ext_Off | Ext_Dirty

fun ext_u8 :: "ExtensionValue \<Rightarrow> u8" where
  "ext_u8 Ext_Off = 0"
| "ext_u8 Ext_Dirty = 3"

definition ext_from_u8 :: "u8 \<Rightarrow> ExtensionValue" where
  "ext_from_u8 value = (if value AND 3 = 0 then Ext_Off else Ext_Dirty)"

definition ext_from_bits :: "u64 \<Rightarrow> ExtensionValue" where
  "ext_from_bits value = ext_from_u8 (ucast value)"

definition ext_to_bits :: "ExtensionValue \<Rightarrow> u64" where
  "ext_to_bits value = ucast (ext_u8 value)"

interpretation mpp_bits: Bits64 mpp_from_bits mpp_to_bits 2
proof
  fix x show "mpp_from_bits (take_bit 2 (mpp_to_bits x)) = x"
    by (cases x) (simp_all add: mpp_from_bits_def mpp_to_bits_def mpp_from_u8_def Let_def)
qed simp

interpretation spp_bits: Bits64 spp_from_bits spp_to_bits 1
proof
  fix x show "spp_from_bits (take_bit 1 (spp_to_bits x)) = x"
    by (cases x) (simp_all add: spp_from_bits_def spp_to_bits_def spp_from_u8_def)
qed simp

interpretation xlen_bits: Bits64 xlen_from_bits xlen_to_bits 2
proof
  fix x show "xlen_from_bits (take_bit 2 (xlen_to_bits x)) = x"
    by (cases x) (simp add: xlen_from_bits_def xlen_from_u8_def)
qed simp

interpretation ext_bits: Bits64 ext_from_bits ext_to_bits 2
proof
  fix x show "ext_from_bits (take_bit 2 (ext_to_bits x)) = x"
    by (cases x) (simp_all add: ext_from_bits_def ext_to_bits_def ext_from_u8_def)
qed simp

lemmas status_get_with [csr_simps] =
  mpp_bits.csr_get_with spp_bits.csr_get_with[unfolded One_nat_def] xlen_bits.csr_get_with ext_bits.csr_get_with

section \<open>The packed layouts\<close>

subsection \<open>\<open>MStatus\<close>\<close>

abbreviation "MStatus_wpri1 \<equiv> csr_get constant_from_bits (Suc 0) 0"
abbreviation "MStatus_with_wpri1 \<equiv> csr_with (constant_to_bits 0) (Suc 0) 0"
abbreviation "MStatus_sie \<equiv> csr_get bool_from_bits (Suc 0) (Suc 0)"
abbreviation "MStatus_with_sie \<equiv> csr_with bool_to_bits (Suc 0) (Suc 0)"
abbreviation "MStatus_wpri2 \<equiv> csr_get constant_from_bits (Suc 0) 2"
abbreviation "MStatus_with_wpri2 \<equiv> csr_with (constant_to_bits 0) (Suc 0) 2"
abbreviation "MStatus_mie \<equiv> csr_get bool_from_bits (Suc 0) 3"
abbreviation "MStatus_with_mie \<equiv> csr_with bool_to_bits (Suc 0) 3"
abbreviation "MStatus_wpri3 \<equiv> csr_get constant_from_bits (Suc 0) 4"
abbreviation "MStatus_with_wpri3 \<equiv> csr_with (constant_to_bits 0) (Suc 0) 4"
abbreviation "MStatus_spie \<equiv> csr_get bool_from_bits (Suc 0) 5"
abbreviation "MStatus_with_spie \<equiv> csr_with bool_to_bits (Suc 0) 5"
abbreviation "MStatus_ube \<equiv> csr_get bool_from_bits (Suc 0) 6"
abbreviation "MStatus_with_ube \<equiv> csr_with bool_to_bits (Suc 0) 6"
abbreviation "MStatus_mpie \<equiv> csr_get bool_from_bits (Suc 0) 7"
abbreviation "MStatus_with_mpie \<equiv> csr_with bool_to_bits (Suc 0) 7"
abbreviation "MStatus_spp \<equiv> csr_get spp_from_bits (Suc 0) 8"
abbreviation "MStatus_with_spp \<equiv> csr_with spp_to_bits (Suc 0) 8"
abbreviation "MStatus_vs \<equiv> csr_get constant_from_bits 2 9"
abbreviation "MStatus_with_vs \<equiv> csr_with (constant_to_bits 0) 2 9"
abbreviation "MStatus_mpp \<equiv> csr_get mpp_from_bits 2 11"
abbreviation "MStatus_with_mpp \<equiv> csr_with mpp_to_bits 2 11"
abbreviation "MStatus_fs \<equiv> csr_get ext_from_bits 2 13"
abbreviation "MStatus_with_fs \<equiv> csr_with ext_to_bits 2 13"
abbreviation "MStatus_xs \<equiv> csr_get ext_from_bits 2 15"
abbreviation "MStatus_with_xs \<equiv> csr_with ext_to_bits 2 15"
abbreviation "MStatus_mprv \<equiv> csr_get bool_from_bits (Suc 0) 17"
abbreviation "MStatus_with_mprv \<equiv> csr_with bool_to_bits (Suc 0) 17"
abbreviation "MStatus_sum \<equiv> csr_get bool_from_bits (Suc 0) 18"
abbreviation "MStatus_with_sum \<equiv> csr_with bool_to_bits (Suc 0) 18"
abbreviation "MStatus_mxr \<equiv> csr_get bool_from_bits (Suc 0) 19"
abbreviation "MStatus_with_mxr \<equiv> csr_with bool_to_bits (Suc 0) 19"
abbreviation "MStatus_tvm \<equiv> csr_get bool_from_bits (Suc 0) 20"
abbreviation "MStatus_with_tvm \<equiv> csr_with bool_to_bits (Suc 0) 20"
abbreviation "MStatus_tw \<equiv> csr_get bool_from_bits (Suc 0) 21"
abbreviation "MStatus_with_tw \<equiv> csr_with bool_to_bits (Suc 0) 21"
abbreviation "MStatus_tsr \<equiv> csr_get bool_from_bits (Suc 0) 22"
abbreviation "MStatus_with_tsr \<equiv> csr_with bool_to_bits (Suc 0) 22"
abbreviation "MStatus_wpri4 \<equiv> csr_get constant_from_bits 9 23"
abbreviation "MStatus_with_wpri4 \<equiv> csr_with (constant_to_bits 0) 9 23"
abbreviation "MStatus_uxl \<equiv> csr_get xlen_from_bits 2 32"
abbreviation "MStatus_with_uxl \<equiv> csr_with xlen_to_bits 2 32"
abbreviation "MStatus_sxl \<equiv> csr_get xlen_from_bits 2 34"
abbreviation "MStatus_with_sxl \<equiv> csr_with xlen_to_bits 2 34"
abbreviation "MStatus_sbe \<equiv> csr_get bool_from_bits (Suc 0) 36"
abbreviation "MStatus_with_sbe \<equiv> csr_with bool_to_bits (Suc 0) 36"
abbreviation "MStatus_mbe \<equiv> csr_get bool_from_bits (Suc 0) 37"
abbreviation "MStatus_with_mbe \<equiv> csr_with bool_to_bits (Suc 0) 37"
abbreviation "MStatus_wpri5 \<equiv> csr_get constant_from_bits 25 38"
abbreviation "MStatus_with_wpri5 \<equiv> csr_with (constant_to_bits 0) 25 38"
abbreviation "MStatus_sd \<equiv> csr_get bool_from_bits (Suc 0) 63"
abbreviation "MStatus_with_sd \<equiv> csr_with bool_to_bits (Suc 0) 63"

definition MStatus_from_bits :: "u64 \<Rightarrow> u64" where
  "MStatus_from_bits v =
     (let new = 0;
          new = MStatus_with_wpri1 (MStatus_wpri1 v) new;
          new = MStatus_with_sie (MStatus_sie v) new;
          new = MStatus_with_wpri2 (MStatus_wpri2 v) new;
          new = MStatus_with_mie (MStatus_mie v) new;
          new = MStatus_with_wpri3 (MStatus_wpri3 v) new;
          new = MStatus_with_spie (MStatus_spie v) new;
          new = MStatus_with_ube (MStatus_ube v) new;
          new = MStatus_with_mpie (MStatus_mpie v) new;
          new = MStatus_with_spp (MStatus_spp v) new;
          new = MStatus_with_vs (MStatus_vs v) new;
          new = MStatus_with_mpp (MStatus_mpp v) new;
          new = MStatus_with_fs (MStatus_fs v) new;
          new = MStatus_with_xs (MStatus_xs v) new;
          new = MStatus_with_mprv (MStatus_mprv v) new;
          new = MStatus_with_sum (MStatus_sum v) new;
          new = MStatus_with_mxr (MStatus_mxr v) new;
          new = MStatus_with_tvm (MStatus_tvm v) new;
          new = MStatus_with_tw (MStatus_tw v) new;
          new = MStatus_with_tsr (MStatus_tsr v) new;
          new = MStatus_with_wpri4 (MStatus_wpri4 v) new;
          new = MStatus_with_uxl (MStatus_uxl v) new;
          new = MStatus_with_sxl (MStatus_sxl v) new;
          new = MStatus_with_sbe (MStatus_sbe v) new;
          new = MStatus_with_mbe (MStatus_mbe v) new;
          new = MStatus_with_wpri5 (MStatus_wpri5 v) new;
          new = MStatus_with_sd (MStatus_sd v) new
      in new)"

definition MStatus_new ::
  "bool \<Rightarrow> bool \<Rightarrow> bool \<Rightarrow> bool \<Rightarrow> bool
    \<Rightarrow> SPPValue \<Rightarrow> MPPValue \<Rightarrow> ExtensionValue \<Rightarrow>
    ExtensionValue \<Rightarrow> bool \<Rightarrow> bool \<Rightarrow> bool \<Rightarrow>
    bool \<Rightarrow> bool \<Rightarrow> bool \<Rightarrow> XLenValue \<Rightarrow>
    XLenValue \<Rightarrow> bool \<Rightarrow> bool \<Rightarrow> bool \<Rightarrow> u64" where
  "MStatus_new sie mie spie ube mpie spp mpp fs xs mprv sm mxr tvm tw tsr uxl sxl sbe mbe sd =
     (let myself = MStatus_from_bits 0;
          myself = MStatus_with_wpri1 () myself;
          myself = MStatus_with_sie sie myself;
          myself = MStatus_with_wpri2 () myself;
          myself = MStatus_with_mie mie myself;
          myself = MStatus_with_wpri3 () myself;
          myself = MStatus_with_spie spie myself;
          myself = MStatus_with_ube ube myself;
          myself = MStatus_with_mpie mpie myself;
          myself = MStatus_with_spp spp myself;
          myself = MStatus_with_vs () myself;
          myself = MStatus_with_mpp mpp myself;
          myself = MStatus_with_fs fs myself;
          myself = MStatus_with_xs xs myself;
          myself = MStatus_with_mprv mprv myself;
          myself = MStatus_with_sum sm myself;
          myself = MStatus_with_mxr mxr myself;
          myself = MStatus_with_tvm tvm myself;
          myself = MStatus_with_tw tw myself;
          myself = MStatus_with_tsr tsr myself;
          myself = MStatus_with_wpri4 () myself;
          myself = MStatus_with_uxl uxl myself;
          myself = MStatus_with_sxl sxl myself;
          myself = MStatus_with_sbe sbe myself;
          myself = MStatus_with_mbe mbe myself;
          myself = MStatus_with_wpri5 () myself;
          myself = MStatus_with_sd sd myself
      in myself)"

subsection \<open>\<open>SStatus\<close>\<close>

abbreviation "SStatus_wpri1 \<equiv> csr_get constant_from_bits (Suc 0) 0"
abbreviation "SStatus_with_wpri1 \<equiv> csr_with (constant_to_bits 0) (Suc 0) 0"
abbreviation "SStatus_sie \<equiv> csr_get bool_from_bits (Suc 0) (Suc 0)"
abbreviation "SStatus_with_sie \<equiv> csr_with bool_to_bits (Suc 0) (Suc 0)"
abbreviation "SStatus_wpri2 \<equiv> csr_get constant_from_bits 3 2"
abbreviation "SStatus_with_wpri2 \<equiv> csr_with (constant_to_bits 0) 3 2"
abbreviation "SStatus_spie \<equiv> csr_get bool_from_bits (Suc 0) 5"
abbreviation "SStatus_with_spie \<equiv> csr_with bool_to_bits (Suc 0) 5"
abbreviation "SStatus_ube \<equiv> csr_get bool_from_bits (Suc 0) 6"
abbreviation "SStatus_with_ube \<equiv> csr_with bool_to_bits (Suc 0) 6"
abbreviation "SStatus_wpri3 \<equiv> csr_get constant_from_bits (Suc 0) 7"
abbreviation "SStatus_with_wpri3 \<equiv> csr_with (constant_to_bits 0) (Suc 0) 7"
abbreviation "SStatus_spp \<equiv> csr_get spp_from_bits (Suc 0) 8"
abbreviation "SStatus_with_spp \<equiv> csr_with spp_to_bits (Suc 0) 8"
abbreviation "SStatus_vs \<equiv> csr_get constant_from_bits 2 9"
abbreviation "SStatus_with_vs \<equiv> csr_with (constant_to_bits 0) 2 9"
abbreviation "SStatus_wpri4 \<equiv> csr_get constant_from_bits 2 11"
abbreviation "SStatus_with_wpri4 \<equiv> csr_with (constant_to_bits 0) 2 11"
abbreviation "SStatus_fs \<equiv> csr_get ext_from_bits 2 13"
abbreviation "SStatus_with_fs \<equiv> csr_with ext_to_bits 2 13"
abbreviation "SStatus_xs \<equiv> csr_get ext_from_bits 2 15"
abbreviation "SStatus_with_xs \<equiv> csr_with ext_to_bits 2 15"
abbreviation "SStatus_wpri5 \<equiv> csr_get constant_from_bits (Suc 0) 17"
abbreviation "SStatus_with_wpri5 \<equiv> csr_with (constant_to_bits 0) (Suc 0) 17"
abbreviation "SStatus_sum \<equiv> csr_get bool_from_bits (Suc 0) 18"
abbreviation "SStatus_with_sum \<equiv> csr_with bool_to_bits (Suc 0) 18"
abbreviation "SStatus_mxr \<equiv> csr_get bool_from_bits (Suc 0) 19"
abbreviation "SStatus_with_mxr \<equiv> csr_with bool_to_bits (Suc 0) 19"
abbreviation "SStatus_wpri6 \<equiv> csr_get constant_from_bits 12 20"
abbreviation "SStatus_with_wpri6 \<equiv> csr_with (constant_to_bits 0) 12 20"
abbreviation "SStatus_uxl \<equiv> csr_get xlen_from_bits 2 32"
abbreviation "SStatus_with_uxl \<equiv> csr_with xlen_to_bits 2 32"
abbreviation "SStatus_wpri7 \<equiv> csr_get constant_from_bits 29 34"
abbreviation "SStatus_with_wpri7 \<equiv> csr_with (constant_to_bits 0) 29 34"
abbreviation "SStatus_sd \<equiv> csr_get bool_from_bits (Suc 0) 63"
abbreviation "SStatus_with_sd \<equiv> csr_with bool_to_bits (Suc 0) 63"

definition SStatus_from_bits :: "u64 \<Rightarrow> u64" where
  "SStatus_from_bits v =
     (let new = 0;
          new = SStatus_with_wpri1 (SStatus_wpri1 v) new;
          new = SStatus_with_sie (SStatus_sie v) new;
          new = SStatus_with_wpri2 (SStatus_wpri2 v) new;
          new = SStatus_with_spie (SStatus_spie v) new;
          new = SStatus_with_ube (SStatus_ube v) new;
          new = SStatus_with_wpri3 (SStatus_wpri3 v) new;
          new = SStatus_with_spp (SStatus_spp v) new;
          new = SStatus_with_vs (SStatus_vs v) new;
          new = SStatus_with_wpri4 (SStatus_wpri4 v) new;
          new = SStatus_with_fs (SStatus_fs v) new;
          new = SStatus_with_xs (SStatus_xs v) new;
          new = SStatus_with_wpri5 (SStatus_wpri5 v) new;
          new = SStatus_with_sum (SStatus_sum v) new;
          new = SStatus_with_mxr (SStatus_mxr v) new;
          new = SStatus_with_wpri6 (SStatus_wpri6 v) new;
          new = SStatus_with_uxl (SStatus_uxl v) new;
          new = SStatus_with_wpri7 (SStatus_wpri7 v) new;
          new = SStatus_with_sd (SStatus_sd v) new
      in new)"

subsection \<open>\<open>MNStatus\<close>\<close>

abbreviation "MNStatus_wpri1 \<equiv> csr_get constant_from_bits 3 0"
abbreviation "MNStatus_with_wpri1 \<equiv> csr_with (constant_to_bits 0) 3 0"
abbreviation "MNStatus_nmie \<equiv> csr_get constant_from_bits (Suc 0) 3"
abbreviation "MNStatus_with_nmie \<equiv> csr_with (constant_to_bits 1) (Suc 0) 3"
abbreviation "MNStatus_wpri2 \<equiv> csr_get constant_from_bits 3 4"
abbreviation "MNStatus_with_wpri2 \<equiv> csr_with (constant_to_bits 0) 3 4"
abbreviation "MNStatus_mnpv \<equiv> csr_get constant_from_bits (Suc 0) 7"
abbreviation "MNStatus_with_mnpv \<equiv> csr_with (constant_to_bits 0) (Suc 0) 7"
abbreviation "MNStatus_wpri3 \<equiv> csr_get constant_from_bits 3 8"
abbreviation "MNStatus_with_wpri3 \<equiv> csr_with (constant_to_bits 0) 3 8"
abbreviation "MNStatus_mnpp \<equiv> csr_get mpp_from_bits 2 11"
abbreviation "MNStatus_with_mnpp \<equiv> csr_with mpp_to_bits 2 11"
abbreviation "MNStatus_wpri4 \<equiv> csr_get constant_from_bits 51 13"
abbreviation "MNStatus_with_wpri4 \<equiv> csr_with (constant_to_bits 0) 51 13"

definition MNStatus_from_bits :: "u64 \<Rightarrow> u64" where
  "MNStatus_from_bits v =
     (let new = 0;
          new = MNStatus_with_wpri1 (MNStatus_wpri1 v) new;
          new = MNStatus_with_nmie (MNStatus_nmie v) new;
          new = MNStatus_with_wpri2 (MNStatus_wpri2 v) new;
          new = MNStatus_with_mnpv (MNStatus_mnpv v) new;
          new = MNStatus_with_wpri3 (MNStatus_wpri3 v) new;
          new = MNStatus_with_mnpp (MNStatus_mnpp v) new;
          new = MNStatus_with_wpri4 (MNStatus_wpri4 v) new
      in new)"

subsection \<open>Conversions and normalisation\<close>

definition MStatus_to_sstatus :: "u64 \<Rightarrow> u64" where
  "MStatus_to_sstatus v = SStatus_from_bits v"

definition SStatus_to_mstatus :: "u64 \<Rightarrow> u64 \<Rightarrow> u64" where
  "SStatus_to_mstatus s mstatus =
     (let m = mstatus;
          m = MStatus_with_sie (SStatus_sie s) m;
          m = MStatus_with_spie (SStatus_spie s) m;
          m = MStatus_with_ube (SStatus_ube s) m;
          m = MStatus_with_spp (SStatus_spp s) m;
          m = MStatus_with_vs (SStatus_vs s) m;
          m = MStatus_with_fs (SStatus_fs s) m;
          m = MStatus_with_xs (SStatus_xs s) m;
          m = MStatus_with_sum (SStatus_sum s) m;
          m = MStatus_with_mxr (SStatus_mxr s) m;
          m = MStatus_with_uxl (SStatus_uxl s) m;
          m = MStatus_with_sd (SStatus_sd s) m
      in m)"

definition SStatus_normalise :: "u64 \<Rightarrow> u64" where
  "SStatus_normalise s =
     (let any_dirty = (SStatus_fs s = Ext_Dirty \<or> SStatus_xs s = Ext_Dirty)
      in SStatus_with_sd any_dirty s)"

definition MStatus_normalise :: "u64 \<Rightarrow> u64" where
  "MStatus_normalise m = SStatus_to_mstatus (SStatus_normalise (MStatus_to_sstatus m)) m"

definition MStatus_default :: u64 where
  "MStatus_default =
     (let m = MStatus_from_bits 0;
          m = MStatus_with_sie False m;
          m = MStatus_with_mie False m;
          m = MStatus_with_spie False m;
          m = MStatus_with_mpie False m;
          m = MStatus_with_spp SPP_Supervisor m;
          m = MStatus_with_mpp MPP_Supervisor m;
          m = MStatus_with_ube False m;
          m = MStatus_with_sbe False m;
          m = MStatus_with_mbe False m;
          m = MStatus_with_fs Ext_Dirty m;
          m = MStatus_with_xs Ext_Dirty m;
          m = MStatus_with_sd False m;
          m = MStatus_with_uxl MXL64 m;
          m = MStatus_with_sxl MXL64 m;
          m = MStatus_with_mprv False m;
          m = MStatus_with_sum True m;
          m = MStatus_with_mxr False m;
          m = MStatus_with_tvm False m;
          m = MStatus_with_tw False m;
          m = MStatus_with_tsr False m
      in m)"

section \<open>The unpacked register\<close>

record MStatusValue =
  ms_sie :: bool
  ms_mie :: bool
  ms_spie :: bool
  ms_ube :: bool
  ms_mpie :: bool
  ms_spp :: SPPValue
  ms_mpp :: MPPValue
  ms_fs :: ExtensionValue
  ms_xs :: ExtensionValue
  ms_mprv :: bool
  ms_sum :: bool
  ms_mxr :: bool
  ms_tvm :: bool
  ms_tw :: bool
  ms_tsr :: bool
  ms_uxl :: XLenValue
  ms_sxl :: XLenValue
  ms_sbe :: bool
  ms_mbe :: bool

definition compute_sd :: "ExtensionValue \<Rightarrow> ExtensionValue \<Rightarrow> bool" where
  "compute_sd fs xs = (fs = Ext_Dirty \<or> xs = Ext_Dirty)"

definition mstatus_read_sd :: "MStatusValue \<Rightarrow> bool" where
  "mstatus_read_sd s = compute_sd (ms_fs s) (ms_xs s)"

definition mstatus_read :: "MStatusValue \<Rightarrow> u64" where
  "mstatus_read s =
     MStatus_new (ms_sie s) (ms_mie s) (ms_spie s) (ms_ube s) (ms_mpie s) 
       (ms_spp s) (ms_mpp s) (ms_fs s) (ms_xs s) 
       (ms_mprv s) (ms_sum s) (ms_mxr s) (ms_tvm s) (ms_tw s) (ms_tsr s) 
       (ms_uxl s) (ms_sxl s) (ms_sbe s) (ms_mbe s) (compute_sd (ms_xs s) (ms_fs s))"

definition mstatus_write :: "u64 \<Rightarrow> MStatusValue \<Rightarrow> MStatusValue" where
  "mstatus_write bits s =
     (let value = MStatus_from_bits bits in
      s\<lparr>ms_sie := MStatus_sie value,
        ms_mie := MStatus_mie value,
        ms_spie := MStatus_spie value,
        ms_ube := MStatus_ube value,
        ms_mpie := MStatus_mpie value,
        ms_spp := MStatus_spp value,
        ms_mpp := MStatus_mpp value,
        ms_fs := MStatus_fs value,
        ms_xs := MStatus_xs value,
        ms_mprv := MStatus_mprv value,
        ms_sum := MStatus_sum value,
        ms_mxr := MStatus_mxr value,
        ms_tvm := MStatus_tvm value,
        ms_tw := MStatus_tw value,
        ms_tsr := MStatus_tsr value,
        ms_uxl := MStatus_uxl value,
        ms_sxl := MStatus_sxl value,
        ms_sbe := MStatus_sbe value,
        ms_mbe := MStatus_mbe value\<rparr>)"

definition mstatus_replace :: "u64 \<Rightarrow> MStatusValue \<Rightarrow> u64 \<times> MStatusValue" where
  "mstatus_replace bits s =
     (let value = MStatus_from_bits bits;
          old_value = MStatus_new (ms_sie s) (ms_mie s) (ms_spie s) (ms_ube s) (ms_mpie s) 
            (ms_spp s) (ms_mpp s) (ms_fs s) (ms_xs s) 
            (ms_mprv s) (ms_sum s) (ms_mxr s) (ms_tvm s) (ms_tw s) (ms_tsr s) 
            (ms_uxl s) (ms_sxl s) (ms_sbe s) (ms_mbe s) (compute_sd (ms_fs s) (ms_xs s))
      in (old_value,
          s\<lparr>ms_sie := MStatus_sie value,
            ms_mie := MStatus_mie value,
            ms_spie := MStatus_spie value,
            ms_ube := MStatus_ube value,
            ms_mpie := MStatus_mpie value,
            ms_spp := MStatus_spp value,
            ms_mpp := MStatus_mpp value,
            ms_fs := MStatus_fs value,
            ms_xs := MStatus_xs value,
            ms_mprv := MStatus_mprv value,
            ms_sum := MStatus_sum value,
            ms_mxr := MStatus_mxr value,
            ms_tvm := MStatus_tvm value,
            ms_tw := MStatus_tw value,
            ms_tsr := MStatus_tsr value,
            ms_uxl := MStatus_uxl value,
            ms_sxl := MStatus_sxl value,
            ms_sbe := MStatus_sbe value,
            ms_mbe := MStatus_mbe value\<rparr>))"

section \<open>Laws of the packed layouts\<close>

lemma csr_with_take_bitI:
  assumes "n = accum + width" "0 < width" "take_bit accum v = take_bit accum w"
  shows "take_bit n (csr_with t width accum x v) = take_bit n (csr_with t width accum x w)"
proof (rule word_bits_eqI)
  fix i assume "i < LENGTH(64)"
  have "bit v i = bit w i" if "i < accum"
    using assms(3) that by (metis bit_take_bit_iff)
  then show "bit (take_bit n (csr_with t width accum x v)) i = bit (take_bit n (csr_with t width accum x w)) i"
    using assms(1,2) by (auto simp: bit_take_bit_iff bit_csr_with)
qed

lemma word64_take_bitI: "take_bit 64 v = take_bit 64 w \<Longrightarrow> v = w" for v w :: u64
  by (simp add: word_eq_iff_bits bit_eq_iff bit_take_bit_iff)

lemma MStatus_get_from_bits [csr_simps]:
  "MStatus_sie (MStatus_from_bits v) = MStatus_sie v"
  "MStatus_mie (MStatus_from_bits v) = MStatus_mie v"
  "MStatus_spie (MStatus_from_bits v) = MStatus_spie v"
  "MStatus_ube (MStatus_from_bits v) = MStatus_ube v"
  "MStatus_mpie (MStatus_from_bits v) = MStatus_mpie v"
  "MStatus_spp (MStatus_from_bits v) = MStatus_spp v"
  "MStatus_mpp (MStatus_from_bits v) = MStatus_mpp v"
  "MStatus_fs (MStatus_from_bits v) = MStatus_fs v"
  "MStatus_xs (MStatus_from_bits v) = MStatus_xs v"
  "MStatus_mprv (MStatus_from_bits v) = MStatus_mprv v"
  "MStatus_sum (MStatus_from_bits v) = MStatus_sum v"
  "MStatus_mxr (MStatus_from_bits v) = MStatus_mxr v"
  "MStatus_tvm (MStatus_from_bits v) = MStatus_tvm v"
  "MStatus_tw (MStatus_from_bits v) = MStatus_tw v"
  "MStatus_tsr (MStatus_from_bits v) = MStatus_tsr v"
  "MStatus_uxl (MStatus_from_bits v) = MStatus_uxl v"
  "MStatus_sxl (MStatus_from_bits v) = MStatus_sxl v"
  "MStatus_sbe (MStatus_from_bits v) = MStatus_sbe v"
  "MStatus_mbe (MStatus_from_bits v) = MStatus_mbe v"
  "MStatus_sd (MStatus_from_bits v) = MStatus_sd v"
  by (simp_all add: MStatus_from_bits_def Let_def csr_simps)

lemma SStatus_get_from_bits [csr_simps]:
  "SStatus_sie (SStatus_from_bits v) = SStatus_sie v"
  "SStatus_spie (SStatus_from_bits v) = SStatus_spie v"
  "SStatus_ube (SStatus_from_bits v) = SStatus_ube v"
  "SStatus_spp (SStatus_from_bits v) = SStatus_spp v"
  "SStatus_fs (SStatus_from_bits v) = SStatus_fs v"
  "SStatus_xs (SStatus_from_bits v) = SStatus_xs v"
  "SStatus_sum (SStatus_from_bits v) = SStatus_sum v"
  "SStatus_mxr (SStatus_from_bits v) = SStatus_mxr v"
  "SStatus_uxl (SStatus_from_bits v) = SStatus_uxl v"
  "SStatus_sd (SStatus_from_bits v) = SStatus_sd v"
  by (simp_all add: SStatus_from_bits_def Let_def csr_simps)

lemma MStatus_get_new:
  assumes "v = MStatus_new sie mie spie ube mpie spp mpp fs xs mprv sm mxr tvm tw tsr uxl sxl sbe mbe sd"
  shows "MStatus_sie v = sie" "MStatus_mie v = mie" "MStatus_spie v = spie" "MStatus_ube v = ube"
    "MStatus_mpie v = mpie" "MStatus_spp v = spp" "MStatus_mpp v = mpp" "MStatus_fs v = fs"
    "MStatus_xs v = xs" "MStatus_mprv v = mprv" "MStatus_sum v = sm" "MStatus_mxr v = mxr"
    "MStatus_tvm v = tvm" "MStatus_tw v = tw" "MStatus_tsr v = tsr" "MStatus_uxl v = uxl"
    "MStatus_sxl v = sxl" "MStatus_sbe v = sbe" "MStatus_mbe v = mbe" "MStatus_sd v = sd"
  unfolding assms by (simp_all add: MStatus_new_def Let_def csr_simps)

lemmas MStatus_get_new_simps [csr_simps] = MStatus_get_new[OF refl]

lemma constant_unit: "csr_get constant_from_bits w a v = ()"
  by simp

lemma MStatus_from_bits_new:
  "MStatus_from_bits v =
   MStatus_new (MStatus_sie v) (MStatus_mie v) (MStatus_spie v) (MStatus_ube v) (MStatus_mpie v)
     (MStatus_spp v) (MStatus_mpp v) (MStatus_fs v) (MStatus_xs v) (MStatus_mprv v) (MStatus_sum v)
     (MStatus_mxr v) (MStatus_tvm v) (MStatus_tw v) (MStatus_tsr v) (MStatus_uxl v) (MStatus_sxl v)
     (MStatus_sbe v) (MStatus_mbe v) (MStatus_sd v)"
  unfolding MStatus_new_def Let_def
  by (subst MStatus_from_bits_def, unfold Let_def constant_unit, rule word64_take_bitI)
    (intro csr_with_take_bitI; simp)

lemma MStatus_from_bits_idem [simp]: "MStatus_from_bits (MStatus_from_bits v) = MStatus_from_bits v"
  by (subst (1 3) MStatus_from_bits_new) (simp only: MStatus_get_from_bits)

lemma MStatus_from_bits_of_new [simp]:
  "MStatus_from_bits (MStatus_new sie mie spie ube mpie spp mpp fs xs mprv sm mxr tvm tw tsr uxl sxl sbe mbe sd)
   = MStatus_new sie mie spie ube mpie spp mpp fs xs mprv sm mxr tvm tw tsr uxl sxl sbe mbe sd"
  by (subst MStatus_from_bits_new) (simp only: MStatus_get_new_simps)

section \<open>Laws of the unpacked register\<close>

lemma mstatus_write_read [simp]: "mstatus_write (mstatus_read s) s' = s"
  for s s' :: MStatusValue
  by (simp add: mstatus_write_def mstatus_read_def Let_def csr_simps)

lemma mstatus_replace_eq: "mstatus_replace v s = (mstatus_read s, mstatus_write v s)"
  by (simp add: mstatus_replace_def mstatus_write_def mstatus_read_def Let_def compute_sd_def disj_commute)

lemma mstatus_write_write [simp]: "mstatus_write a (mstatus_write b s) = mstatus_write a s"
  by (simp add: mstatus_write_def Let_def)

lemma mstatus_read_canonical [simp]: "MStatus_from_bits (mstatus_read s) = mstatus_read s"
  by (simp add: mstatus_read_def)

lemma mstatus_read_fields [csr_simps]:
  "MStatus_sie (mstatus_read s) = ms_sie s"
  "MStatus_mie (mstatus_read s) = ms_mie s"
  "MStatus_spie (mstatus_read s) = ms_spie s"
  "MStatus_ube (mstatus_read s) = ms_ube s"
  "MStatus_mpie (mstatus_read s) = ms_mpie s"
  "MStatus_spp (mstatus_read s) = ms_spp s"
  "MStatus_mpp (mstatus_read s) = ms_mpp s"
  "MStatus_fs (mstatus_read s) = ms_fs s"
  "MStatus_xs (mstatus_read s) = ms_xs s"
  "MStatus_mprv (mstatus_read s) = ms_mprv s"
  "MStatus_sum (mstatus_read s) = ms_sum s"
  "MStatus_mxr (mstatus_read s) = ms_mxr s"
  "MStatus_tvm (mstatus_read s) = ms_tvm s"
  "MStatus_tw (mstatus_read s) = ms_tw s"
  "MStatus_tsr (mstatus_read s) = ms_tsr s"
  "MStatus_uxl (mstatus_read s) = ms_uxl s"
  "MStatus_sxl (mstatus_read s) = ms_sxl s"
  "MStatus_sbe (mstatus_read s) = ms_sbe s"
  "MStatus_mbe (mstatus_read s) = ms_mbe s"
  "MStatus_sd (mstatus_read s) = compute_sd (ms_fs s) (ms_xs s)"
  by (simp_all add: mstatus_read_def csr_simps compute_sd_def disj_commute)

lemma mstatus_write_fields [csr_simps]:
  "ms_sie (mstatus_write v s) = MStatus_sie v"
  "ms_mie (mstatus_write v s) = MStatus_mie v"
  "ms_spie (mstatus_write v s) = MStatus_spie v"
  "ms_ube (mstatus_write v s) = MStatus_ube v"
  "ms_mpie (mstatus_write v s) = MStatus_mpie v"
  "ms_spp (mstatus_write v s) = MStatus_spp v"
  "ms_mpp (mstatus_write v s) = MStatus_mpp v"
  "ms_fs (mstatus_write v s) = MStatus_fs v"
  "ms_xs (mstatus_write v s) = MStatus_xs v"
  "ms_mprv (mstatus_write v s) = MStatus_mprv v"
  "ms_sum (mstatus_write v s) = MStatus_sum v"
  "ms_mxr (mstatus_write v s) = MStatus_mxr v"
  "ms_tvm (mstatus_write v s) = MStatus_tvm v"
  "ms_tw (mstatus_write v s) = MStatus_tw v"
  "ms_tsr (mstatus_write v s) = MStatus_tsr v"
  "ms_uxl (mstatus_write v s) = MStatus_uxl v"
  "ms_sxl (mstatus_write v s) = MStatus_sxl v"
  "ms_sbe (mstatus_write v s) = MStatus_sbe v"
  "ms_mbe (mstatus_write v s) = MStatus_mbe v"
  by (simp_all add: mstatus_write_def Let_def csr_simps)

end
