(* ===== verification/Satp.thy ===== *)
theory Satp
  imports Bits
begin

text \<open>
  The address translation register, \<^verbatim>\<open>machine_state/csregisters/satp.rs\<close>: the mode
  field as an instance of the trait \<^verbatim>\<open>Bits64\<close>, the packed layout \<^verbatim>\<open>Satp\<close> and its
  normalisation.
\<close>

datatype SvLength = SvLen39 | SvLen48 | SvLen57

fun sv_length_usize :: "SvLength \<Rightarrow> nat" where
  "sv_length_usize SvLen39 = 0"
| "sv_length_usize SvLen48 = 1"
| "sv_length_usize SvLen57 = 2"

datatype TranslationAlgorithm = Bare | Sv39 | Sv48 | Sv57

fun alg_enc :: "TranslationAlgorithm \<Rightarrow> u64" where
  "alg_enc Bare = 0"
| "alg_enc Sv39 = 8"
| "alg_enc Sv48 = 9"
| "alg_enc Sv57 = 10"

definition alg_from_bits :: "u64 \<Rightarrow> TranslationAlgorithm" where
  "alg_from_bits value =
     (let m = value AND 15
      in if m = 0 then Bare else if m = 8 then Sv39 else if m = 9 then Sv48
         else if m = 10 then Sv57 else Bare)"

definition alg_to_bits :: "TranslationAlgorithm \<Rightarrow> u64" where
  "alg_to_bits a = alg_enc a"

interpretation alg_bits: Bits64 alg_from_bits alg_to_bits 4
proof
  fix x show "alg_from_bits (take_bit 4 (alg_to_bits x)) = x"
    by (cases x) (simp_all add: alg_from_bits_def alg_to_bits_def Let_def)
qed simp

declare alg_bits.csr_get_with [csr_simps]

abbreviation Satp_ppn :: "u64 \<Rightarrow> 44 word" where "Satp_ppn \<equiv> csr_get fixed_from_bits 44 0"
abbreviation Satp_with_ppn :: "44 word \<Rightarrow> u64 \<Rightarrow> u64" where "Satp_with_ppn \<equiv> csr_with fixed_to_bits 44 0"
abbreviation Satp_asid :: "u64 \<Rightarrow> 16 word" where "Satp_asid \<equiv> csr_get fixed_from_bits 16 44"
abbreviation Satp_with_asid :: "16 word \<Rightarrow> u64 \<Rightarrow> u64" where "Satp_with_asid \<equiv> csr_with fixed_to_bits 16 44"
abbreviation Satp_mode :: "u64 \<Rightarrow> TranslationAlgorithm" where "Satp_mode \<equiv> csr_get alg_from_bits 4 60"
abbreviation Satp_with_mode :: "TranslationAlgorithm \<Rightarrow> u64 \<Rightarrow> u64" where
  "Satp_with_mode \<equiv> csr_with alg_to_bits 4 60"

definition Satp_from_bits :: "u64 \<Rightarrow> u64" where
  "Satp_from_bits v =
     (let new = 0;
          new = Satp_with_ppn (Satp_ppn v) new;
          new = Satp_with_asid (Satp_asid v) new;
          new = Satp_with_mode (Satp_mode v) new
      in new)"

definition Satp_default :: u64 where
  "Satp_default = Satp_from_bits (push_bit 60 0)"

definition Satp_normalise :: "u64 \<Rightarrow> u64" where
  "Satp_normalise s =
     (case Satp_mode s of
        Bare \<Rightarrow> Satp_with_asid (fixed_from_bits 0) (Satp_with_ppn (fixed_from_bits 0) s)
      | Sv39 \<Rightarrow> s
      | Sv48 \<Rightarrow> s
      | Sv57 \<Rightarrow> s)"

lemma Satp_get_from_bits [csr_simps]:
  "Satp_ppn (Satp_from_bits v) = Satp_ppn v"
  "Satp_asid (Satp_from_bits v) = Satp_asid v"
  "Satp_mode (Satp_from_bits v) = Satp_mode v"
  by (simp_all add: Satp_from_bits_def Let_def csr_simps)

lemma csr_with_fixed_zero [simp]:
  "fixed_to_bits (fixed_from_bits 0 :: 'a::len word) = 0"
  by (simp add: fixed_to_bits_def fixed_from_bits_def bits_subset_def)

lemma Satp_normalise_mode [csr_simps]: "Satp_mode (Satp_normalise v) = Satp_mode v"
  by (simp add: Satp_normalise_def csr_simps split: TranslationAlgorithm.split)

text \<open>Normalising a \<^verbatim>\<open>Bare\<close> value clears the whole register.\<close>

lemma Satp_normalise_bare:
  assumes "Satp_mode v = Bare"
  shows "Satp_normalise (Satp_from_bits v) = 0"
proof (rule word_bits_eqI)
  fix i assume "i < LENGTH(64)"
  then show "bit (Satp_normalise (Satp_from_bits v)) i = bit (0 :: u64) i"
    using assms
    by (auto simp: Satp_normalise_def csr_simps Satp_from_bits_def Let_def bit_csr_with alg_to_bits_def)
qed

lemma Satp_normalise_translating:
  assumes "Satp_mode v \<noteq> Bare"
  shows "Satp_normalise (Satp_from_bits v) = v"
proof (rule word_bits_eqI)
  fix i assume "i < LENGTH(64)"
  have m: "alg_to_bits (Satp_mode v) = bits_subset v 63 60"
  proof -
    let ?b = "bits_subset v 63 60"
    have "take_bit 4 ?b = ?b"
      by (simp add: take_bit_eq_iff_bits bit_bits_subset)
    then have "?b AND 15 = ?b"
      by (simp add: take_bit_eq_mask mask_eq_exp_minus_1)
    then show ?thesis using assms
      by (auto simp: csr_get_def alg_from_bits_def alg_to_bits_def Let_def split: if_splits)
  qed
  have "Satp_normalise (Satp_from_bits v) = Satp_from_bits v"
    using assms by (cases "Satp_mode v") (simp_all add: Satp_normalise_def csr_simps)
  moreover from \<open>i < LENGTH(64)\<close> have "bit (Satp_from_bits v) i = bit v i"
    unfolding Satp_from_bits_def Let_def bit_csr_with m
    by (auto simp: fixed_from_bits_def fixed_to_bits_def csr_get_def word_bits bit_simps)
  ultimately show "bit (Satp_normalise (Satp_from_bits v)) i = bit v i" by simp
qed

end
