(* ===== verification/CSRegisters.thy ===== *)
theory CSRegisters
  imports Xstatus Satp
begin

text \<open>
  Control and state registers: \<^verbatim>\<open>machine_state/csregisters.rs\<close>, with the mapping of
  shadow registers to their root (\<^verbatim>\<open>csregisters/root.rs\<close>), the storage of the root
  registers (\<^verbatim>\<open>csregisters/values.rs\<close>, \<^verbatim>\<open>values/xip.rs\<close>) and the handling of side
  effects (\<^verbatim>\<open>csregisters/effects.rs\<close>, where both effects do nothing).

  A register is its discriminant, the 12-bit CSR address that \<^verbatim>\<open>#[repr(usize)]\<close>
  gives it; \<^verbatim>\<open>all_csregisters\<close> lists the declared ones in the order
  \<^verbatim>\<open>CSRegister::iter()\<close> visits them.  All root registers but \<^verbatim>\<open>mstatus\<close> (unpacked)
  and \<^verbatim>\<open>mip\<close> (always zero) are raw 64-bit cells, held in \<^verbatim>\<open>csr_raw\<close>.
\<close>

section \<open>Register names\<close>

type_synonym CSRegister = "12 word"
type_synonym RootCSRegister = "12 word"
type_synonym CSRRepr = u64

definition all_csregisters :: "CSRegister list" where
  "all_csregisters =
     [0x1, 0x2, 0x3, 0xC00, 0xC01, 0xC02, 0xC03, 0xC04, 0xC05, 0xC06, 0xC07, 0xC08,
      0xC09, 0xC0A, 0xC0B, 0xC0C, 0xC0D, 0xC0E, 0xC0F, 0xC10, 0xC11, 0xC12, 0xC13, 0xC14,
      0xC15, 0xC16, 0xC17, 0xC18, 0xC19, 0xC1A, 0xC1B, 0xC1C, 0xC1D, 0xC1E, 0xC1F, 0x100,
      0x104, 0x105, 0x106, 0x10A, 0x140, 0x141, 0x142, 0x143, 0x144, 0x180, 0x5A8, 0x600,
      0x602, 0x603, 0x604, 0x606, 0x607, 0x643, 0x644, 0x645, 0x64A, 0xE12, 0x60A, 0x680,
      0x6A8, 0x605, 0x200, 0x204, 0x205, 0x240, 0x241, 0x242, 0x243, 0x244, 0x280, 0xF11,
      0xF12, 0xF13, 0xF14, 0xF15, 0x300, 0x301, 0x302, 0x303, 0x304, 0x305, 0x306, 0x340,
      0x341, 0x342, 0x343, 0x344, 0x34A, 0x34B, 0x30A, 0x747, 0x3A0, 0x3A2, 0x3A4, 0x3A6,
      0x3A8, 0x3AA, 0x3AC, 0x3AE, 0x3B0, 0x3B1, 0x3B2, 0x3B3, 0x3B4, 0x3B5, 0x3B6, 0x3B7,
      0x3B8, 0x3B9, 0x3BA, 0x3BB, 0x3BC, 0x3BD, 0x3BE, 0x3BF, 0x3C0, 0x3C1, 0x3C2, 0x3C3,
      0x3C4, 0x3C5, 0x3C6, 0x3C7, 0x3C8, 0x3C9, 0x3CA, 0x3CB, 0x3CC, 0x3CD, 0x3CE, 0x3CF,
      0x3D0, 0x3D1, 0x3D2, 0x3D3, 0x3D4, 0x3D5, 0x3D6, 0x3D7, 0x3D8, 0x3D9, 0x3DA, 0x3DB,
      0x3DC, 0x3DD, 0x3DE, 0x3DF, 0x3E0, 0x3E1, 0x3E2, 0x3E3, 0x3E4, 0x3E5, 0x3E6, 0x3E7,
      0x3E8, 0x3E9, 0x3EA, 0x3EB, 0x3EC, 0x3ED, 0x3EE, 0x3EF, 0x740, 0x741, 0x742, 0x744,
      0xB00, 0xB02, 0xB03, 0xB04, 0xB05, 0xB06, 0xB07, 0xB08, 0xB09, 0xB0A, 0xB0B, 0xB0C,
      0xB0D, 0xB0E, 0xB0F, 0xB10, 0xB11, 0xB12, 0xB13, 0xB14, 0xB15, 0xB16, 0xB17, 0xB18,
      0xB19, 0xB1A, 0xB1B, 0xB1C, 0xB1D, 0xB1E, 0xB1F, 0x320, 0x323, 0x324, 0x325, 0x326,
      0x327, 0x328, 0x329, 0x32A, 0x32B, 0x32C, 0x32D, 0x32E, 0x32F, 0x330, 0x331, 0x332,
      0x333, 0x334, 0x335, 0x336, 0x337, 0x338, 0x339, 0x33A, 0x33B, 0x33C, 0x33D, 0x33E,
      0x33F, 0x7A0, 0x7A1, 0x7A2, 0x7A3, 0x7A5, 0x7A8, 0x7B0, 0x7B1, 0x7B2, 0x7B3]"

abbreviation CSR_fflags :: CSRegister where "CSR_fflags \<equiv> 0x1"
abbreviation CSR_frm :: CSRegister where "CSR_frm \<equiv> 0x2"
abbreviation CSR_fcsr :: CSRegister where "CSR_fcsr \<equiv> 0x3"
abbreviation CSR_cycle :: CSRegister where "CSR_cycle \<equiv> 0xC00"
abbreviation CSR_time :: CSRegister where "CSR_time \<equiv> 0xC01"
abbreviation CSR_instret :: CSRegister where "CSR_instret \<equiv> 0xC02"
abbreviation CSR_sstatus :: CSRegister where "CSR_sstatus \<equiv> 0x100"
abbreviation CSR_sie :: CSRegister where "CSR_sie \<equiv> 0x104"
abbreviation CSR_stvec :: CSRegister where "CSR_stvec \<equiv> 0x105"
abbreviation CSR_scounteren :: CSRegister where "CSR_scounteren \<equiv> 0x106"
abbreviation CSR_senvcfg :: CSRegister where "CSR_senvcfg \<equiv> 0x10A"
abbreviation CSR_sepc :: CSRegister where "CSR_sepc \<equiv> 0x141"
abbreviation CSR_scause :: CSRegister where "CSR_scause \<equiv> 0x142"
abbreviation CSR_stval :: CSRegister where "CSR_stval \<equiv> 0x143"
abbreviation CSR_sip :: CSRegister where "CSR_sip \<equiv> 0x144"
abbreviation CSR_satp :: CSRegister where "CSR_satp \<equiv> 0x180"
abbreviation CSR_mstatus :: CSRegister where "CSR_mstatus \<equiv> 0x300"
abbreviation CSR_misa :: CSRegister where "CSR_misa \<equiv> 0x301"
abbreviation CSR_medeleg :: CSRegister where "CSR_medeleg \<equiv> 0x302"
abbreviation CSR_mideleg :: CSRegister where "CSR_mideleg \<equiv> 0x303"
abbreviation CSR_mie :: CSRegister where "CSR_mie \<equiv> 0x304"
abbreviation CSR_mtvec :: CSRegister where "CSR_mtvec \<equiv> 0x305"
abbreviation CSR_mcounteren :: CSRegister where "CSR_mcounteren \<equiv> 0x306"
abbreviation CSR_mepc :: CSRegister where "CSR_mepc \<equiv> 0x341"
abbreviation CSR_mcause :: CSRegister where "CSR_mcause \<equiv> 0x342"
abbreviation CSR_mtval :: CSRegister where "CSR_mtval \<equiv> 0x343"
abbreviation CSR_mip :: CSRegister where "CSR_mip \<equiv> 0x344"
abbreviation CSR_menvcfg :: CSRegister where "CSR_menvcfg \<equiv> 0x30A"
abbreviation CSR_mseccfg :: CSRegister where "CSR_mseccfg \<equiv> 0x747"
abbreviation CSR_mnepc :: CSRegister where "CSR_mnepc \<equiv> 0x741"
abbreviation CSR_mncause :: CSRegister where "CSR_mncause \<equiv> 0x742"
abbreviation CSR_mnstatus :: CSRegister where "CSR_mnstatus \<equiv> 0x744"

definition try_parse :: "u32 \<Rightarrow> CSRegister option" where
  "try_parse r =
     (if unat r < 0x1000 \<and> (ucast r :: 12 word) \<in> set all_csregisters then Some (ucast r) else None)"

definition privilege :: "CSRegister \<Rightarrow> Privilege option" where
  "privilege reg =
     (let r = unat reg in
      if (0x000 \<le> r \<and> r \<le> 0x0FF)
         \<or> (0x400 \<le> r \<and> r \<le> 0x4FF)
         \<or> (0x800 \<le> r \<and> r \<le> 0x8FF)
         \<or> (0xC00 \<le> r \<and> r \<le> 0xC7F)
         \<or> (0xC80 \<le> r \<and> r \<le> 0xCBF)
         \<or> (0xCC0 \<le> r \<and> r \<le> 0xCFF)
      then Some Unprivileged
      else if (0x100 \<le> r \<and> r \<le> 0x1FF)
         \<or> (0x500 \<le> r \<and> r \<le> 0x57F)
         \<or> (0x580 \<le> r \<and> r \<le> 0x5BF)
         \<or> (0x5C0 \<le> r \<and> r \<le> 0x5FF)
         \<or> (0x900 \<le> r \<and> r \<le> 0x97F)
         \<or> (0x980 \<le> r \<and> r \<le> 0x9BF)
         \<or> (0x9C0 \<le> r \<and> r \<le> 0x9FF)
         \<or> (0xD00 \<le> r \<and> r \<le> 0xD7F)
         \<or> (0xD80 \<le> r \<and> r \<le> 0xDBF)
         \<or> (0xDC0 \<le> r \<and> r \<le> 0xDFF)
      then Some PrivSupervisor
      else if (0x200 \<le> r \<and> r \<le> 0x2FF)
         \<or> (0x600 \<le> r \<and> r \<le> 0x67F)
         \<or> (0x680 \<le> r \<and> r \<le> 0x6BF)
         \<or> (0x6C0 \<le> r \<and> r \<le> 0x6FF)
         \<or> (0xA00 \<le> r \<and> r \<le> 0xA7F)
         \<or> (0xA80 \<le> r \<and> r \<le> 0xABF)
         \<or> (0xAC0 \<le> r \<and> r \<le> 0xAFF)
         \<or> (0xE00 \<le> r \<and> r \<le> 0xE7F)
         \<or> (0xE80 \<le> r \<and> r \<le> 0xEBF)
         \<or> (0xEC0 \<le> r \<and> r \<le> 0xEFF)
      then Some PrivHypervisor
      else if (0x300 \<le> r \<and> r \<le> 0x3FF)
         \<or> (0x700 \<le> r \<and> r \<le> 0x77F)
         \<or> (0x780 \<le> r \<and> r \<le> 0x79F)
         \<or> (0x7A0 \<le> r \<and> r \<le> 0x7AF)
         \<or> (0x7B0 \<le> r \<and> r \<le> 0x7BF)
         \<or> (0x7C0 \<le> r \<and> r \<le> 0x7FF)
         \<or> (0xB00 \<le> r \<and> r \<le> 0xB7F)
         \<or> (0xB80 \<le> r \<and> r \<le> 0xBBF)
         \<or> (0xBC0 \<le> r \<and> r \<le> 0xBFF)
         \<or> (0xF00 \<le> r \<and> r \<le> 0xF7F)
         \<or> (0xF80 \<le> r \<and> r \<le> 0xFBF)
         \<or> (0xFC0 \<le> r \<and> r \<le> 0xFFF)
      then Some PrivMachine
      else None)"

definition is_read_only :: "CSRegister \<Rightarrow> bool" where
  "is_read_only reg = (drop_bit 10 (unat reg) AND 3 = 3)"

section \<open>Rules for the values written\<close>

definition WPRI_MASK_EMPTY :: CSRRepr where
  "WPRI_MASK_EMPTY = - 1"

definition WPRI_MASK_MSTATUS :: CSRRepr where
  "WPRI_MASK_MSTATUS =
     NOT (push_bit 0 (ones 1) OR push_bit 2 (ones 1) OR push_bit 4 (ones 1)
          OR push_bit 23 (ones 9) OR push_bit 38 (ones 25))"

definition WPRI_MASK_MENVCFG :: CSRRepr where
  "WPRI_MASK_MENVCFG = NOT (push_bit 1 (ones 3) OR push_bit 8 (ones 54))"

definition WPRI_MASK_MSECCFG :: CSRRepr where
  "WPRI_MASK_MSECCFG = NOT (push_bit 3 (ones 5) OR push_bit 10 (ones (64 - 10)))"

definition WPRI_MASK_SSTATUS :: CSRRepr where
  "WPRI_MASK_SSTATUS =
     NOT (push_bit 0 (ones 1) OR push_bit 2 (ones 3) OR push_bit 7 (ones 1) OR push_bit 11 (ones 2)
          OR push_bit 17 (ones 1) OR push_bit 20 (ones 12) OR push_bit 34 (ones 29))"

definition WPRI_MASK_SENVCFG :: CSRRepr where
  "WPRI_MASK_SENVCFG = NOT (push_bit 1 (ones 3) OR push_bit 8 (ones (64 - 8)))"

definition WPRI_MASK_MNCAUSE :: CSRRepr where
  "WPRI_MASK_MNCAUSE = NOT (push_bit (64 - 1) (ones 1))"

definition WPRI_MASK_MNSTATUS :: CSRRepr where
  "WPRI_MASK_MNSTATUS =
     NOT (push_bit 0 (ones 3) OR push_bit 4 (ones 3) OR push_bit 8 (ones 3) OR push_bit 13 (ones (64 - 13)))"

definition wpri_mask :: "CSRegister \<Rightarrow> CSRRepr" where
  "wpri_mask reg =
     (if reg = CSR_mstatus then WPRI_MASK_MSTATUS
      else if reg = CSR_menvcfg then WPRI_MASK_MENVCFG
      else if reg = CSR_mseccfg then WPRI_MASK_MSECCFG
      else if reg = CSR_sstatus then WPRI_MASK_SSTATUS
      else if reg = CSR_senvcfg then WPRI_MASK_SENVCFG
      else if reg = CSR_mncause then WPRI_MASK_MNCAUSE
      else if reg = CSR_mnstatus then WPRI_MASK_MNSTATUS
      else WPRI_MASK_EMPTY)"

definition clear_wpri_fields :: "CSRegister \<Rightarrow> CSRRepr \<Rightarrow> CSRRepr" where
  "clear_wpri_fields reg new_value = new_value AND wpri_mask reg"

definition INTERRUPT_BIT :: CSRRepr where
  "INTERRUPT_BIT = push_bit 63 1"

definition WLRL_MCAUSE_VALUES :: "CSRRepr list" where
  "WLRL_MCAUSE_VALUES =
     [INTERRUPT_BIT OR 1, INTERRUPT_BIT OR 3, INTERRUPT_BIT OR 5, INTERRUPT_BIT OR 7,
      INTERRUPT_BIT OR 9, INTERRUPT_BIT OR 11,
      0, 1, 2, 3, 4, 5, 6, 7, 8, 9, 11, 12, 13, 15]"

definition WLRL_SCAUSE_VALUES :: "CSRRepr list" where
  "WLRL_SCAUSE_VALUES =
     [INTERRUPT_BIT OR 1, INTERRUPT_BIT OR 5, INTERRUPT_BIT OR 9,
      0, 1, 2, 3, 4, 5, 6, 7, 8, 9, 12, 13, 15]"

definition legal_values :: "CSRegister \<Rightarrow> CSRRepr list" where
  "legal_values reg =
     (if reg = CSR_mcause then WLRL_MCAUSE_VALUES
      else if reg = CSR_scause then WLRL_SCAUSE_VALUES
      else [])"

definition is_legal :: "CSRegister \<Rightarrow> CSRRepr \<Rightarrow> bool" where
  "is_legal reg new_value =
     (let legal = legal_values reg in legal = [] \<or> new_value \<in> set legal)"

definition WARL_MISA_VALUE :: CSRRepr where
  "WARL_MISA_VALUE =
     push_bit 62 2 OR push_bit 0 1 OR push_bit 2 1 OR push_bit 3 1 OR push_bit 5 1
     OR push_bit 8 1 OR push_bit 12 1 OR push_bit 18 1 OR push_bit 20 1"

definition WARL_MASK_MEDELEG :: CSRRepr where
  "WARL_MASK_MEDELEG =
     NOT (push_bit 10 (ones 1) OR push_bit 11 (ones 1) OR push_bit 14 (ones 1)
          OR push_bit 16 (ones (64 - 16)))"

definition WARL_MASK_MIDELEG :: CSRRepr where
  "WARL_MASK_MIDELEG =
     NOT (push_bit 0 (ones 1) OR push_bit 2 (ones 1) OR push_bit 4 (ones 1) OR push_bit 6 (ones 1)
          OR push_bit 8 (ones 1) OR push_bit 10 (ones 1) OR push_bit 12 (ones 4)
          OR push_bit 16 (ones (64 - 16)))"

definition WARL_MASK_XTVEC :: CSRRepr where
  "WARL_MASK_XTVEC = NOT (push_bit 1 (ones 1))"

definition WARL_MASK_MIP_MIE :: CSRRepr where
  "WARL_MASK_MIP_MIE = MACHINE_BIT_MASK OR SUPERVISOR_BIT_MASK"

definition WARL_MASK_SIP_SIE :: CSRRepr where
  "WARL_MASK_SIP_SIE = SUPERVISOR_BIT_MASK"

definition WARL_MASK_XEPC :: CSRRepr where
  "WARL_MASK_XEPC = NOT 1"

definition FRM_SHIFT :: nat where
  "FRM_SHIFT = 5"

definition FRM_MASK :: CSRRepr where
  "FRM_MASK = push_bit FRM_SHIFT 7"

definition FFLAGS_MASK :: CSRRepr where
  "FFLAGS_MASK = 31"

definition FCSR_MASK :: CSRRepr where
  "FCSR_MASK = FRM_MASK OR FFLAGS_MASK"

definition transform_warl_fields :: "CSRegister \<Rightarrow> CSRRepr \<Rightarrow> CSRRepr option" where
  "transform_warl_fields reg new_value =
     Some (if reg = CSR_misa then WARL_MISA_VALUE
       else if reg = CSR_medeleg then new_value AND WARL_MASK_MEDELEG
       else if reg = CSR_mideleg then new_value AND WARL_MASK_MIDELEG
       else if reg = CSR_mtvec \<or> reg = CSR_stvec then new_value AND WARL_MASK_XTVEC
       else if reg = CSR_mip \<or> reg = CSR_mie then new_value AND WARL_MASK_MIP_MIE
       else if reg = CSR_sip \<or> reg = CSR_sie then new_value AND WARL_MASK_SIP_SIE
       else if reg = CSR_mepc \<or> reg = CSR_sepc \<or> reg = CSR_mnepc then new_value AND WARL_MASK_XEPC
       else if reg = CSR_satp then Satp_normalise (Satp_from_bits new_value)
       else if reg = CSR_mstatus then MStatus_normalise (MStatus_from_bits new_value)
       else if reg = CSR_sstatus then SStatus_normalise (SStatus_from_bits new_value)
       else if reg = CSR_mnstatus then MNStatus_from_bits new_value
       else new_value)"

definition make_value_writable :: "CSRegister \<Rightarrow> CSRRepr \<Rightarrow> CSRRepr option" where
  "make_value_writable reg value =
     (let value = clear_wpri_fields reg value
      in case transform_warl_fields reg value of
           None \<Rightarrow> None
         | Some value \<Rightarrow> if is_legal reg value then Some value else None)"

definition default_value :: "CSRegister \<Rightarrow> CSRRepr" where
  "default_value reg =
     (if reg = CSR_mnstatus then MNStatus_from_bits 0
      else if reg = CSR_mncause then push_bit 31 (ones 1)
      else if reg = CSR_scounteren \<or> reg = CSR_mcounteren then ones 32
      else if reg = CSR_misa then WARL_MISA_VALUE
      else if reg = CSR_sstatus then MStatus_to_sstatus MStatus_default
      else if reg = CSR_mstatus then MStatus_default
      else if reg = CSR_satp then Satp_default
      else if reg = CSR_medeleg \<or> reg = CSR_mideleg then ones 64
      else 0)"

section \<open>Storage\<close>

record CSRegisters =
  csr_mstatus :: MStatusValue
  csr_raw :: "RootCSRegister \<Rightarrow> CSRRepr"

definition root_of :: "CSRegister \<Rightarrow> RootCSRegister" where
  "root_of reg =
     (if reg = CSR_fflags \<or> reg = CSR_frm then CSR_fcsr
      else if reg = CSR_sstatus then CSR_mstatus
      else if reg = CSR_sie then CSR_mie
      else if reg = CSR_sip then CSR_mip
      else reg)"

definition general_raw_read :: "CSRegisters \<Rightarrow> RootCSRegister \<Rightarrow> CSRRepr" where
  "general_raw_read s csr =
     (if csr = CSR_mstatus then mstatus_read (csr_mstatus s)
      else if csr = CSR_mip then 0
      else csr_raw s csr)"

definition general_raw_write :: "CSRegisters \<Rightarrow> RootCSRegister \<Rightarrow> CSRRepr \<Rightarrow> CSRegisters" where
  "general_raw_write s csr value =
     (if csr = CSR_mstatus then s\<lparr>csr_mstatus := mstatus_write value (csr_mstatus s)\<rparr>
      else if csr = CSR_mip then s
      else s\<lparr>csr_raw := (csr_raw s)(csr := value)\<rparr>)"

definition general_raw_replace ::
  "CSRegisters \<Rightarrow> RootCSRegister \<Rightarrow> CSRRepr \<Rightarrow> CSRRepr \<times> CSRegisters" where
  "general_raw_replace s csr value =
     (if csr = CSR_mstatus then
        let (old, m) = mstatus_replace value (csr_mstatus s) in (old, s\<lparr>csr_mstatus := m\<rparr>)
      else if csr = CSR_mip then (0, s)
      else (csr_raw s csr, s\<lparr>csr_raw := (csr_raw s)(csr := value)\<rparr>))"

section \<open>Reading and writing registers\<close>

definition transform_write :: "CSRegisters \<Rightarrow> CSRegister \<Rightarrow> CSRRepr \<Rightarrow> CSRRepr" where
  "transform_write s reg value =
     (if reg = CSR_sstatus then
        let mstatus = mstatus_read (csr_mstatus s);
            mstatus = MStatus_from_bits mstatus;
            sstatus = SStatus_from_bits value
        in SStatus_to_mstatus sstatus mstatus
      else if reg = CSR_sip then
        let mip = general_raw_read s CSR_mip;
            sip_only = value AND WARL_MASK_SIP_SIE;
            mip_only = mip AND NOT WARL_MASK_SIP_SIE
        in sip_only OR mip_only
      else if reg = CSR_sie then
        let mie = csr_raw s CSR_mie;
            sie_only = value AND WARL_MASK_SIP_SIE;
            mie_only = mie AND NOT WARL_MASK_SIP_SIE
        in sie_only OR mie_only
      else if reg = CSR_fcsr then value AND FCSR_MASK
      else if reg = CSR_frm then
        let fcsr = csr_raw s CSR_fcsr;
            fcsr = fcsr AND NOT FRM_MASK
        in (push_bit FRM_SHIFT value AND FRM_MASK) OR fcsr
      else if reg = CSR_fflags then
        let fcsr = csr_raw s CSR_fcsr;
            fcsr = fcsr AND NOT FFLAGS_MASK
        in (value AND FFLAGS_MASK) OR fcsr
      else value)"

definition transform_read :: "CSRegisters \<Rightarrow> CSRegister \<Rightarrow> CSRRepr option \<Rightarrow> CSRRepr" where
  "transform_read s reg source =
     (let v = (case source of None \<Rightarrow> general_raw_read s (root_of reg) | Some v \<Rightarrow> v)
      in if reg = CSR_sstatus then MStatus_to_sstatus (MStatus_from_bits v)
         else if reg = CSR_sip then v AND WARL_MASK_SIP_SIE
         else if reg = CSR_sie then v AND WARL_MASK_SIP_SIE
         else if reg = CSR_fcsr then v AND FCSR_MASK
         else if reg = CSR_frm then drop_bit FRM_SHIFT (v AND FRM_MASK)
         else if reg = CSR_fflags then v AND FFLAGS_MASK
         else v)"

definition csr_write :: "CSRegisters \<Rightarrow> CSRegister \<Rightarrow> CSRRepr \<Rightarrow> CSRegisters" where
  "csr_write s reg value =
     (case make_value_writable reg value of
        None \<Rightarrow> s
      | Some value \<Rightarrow>
          let value = transform_write s reg value;
              source_reg = root_of reg
          in general_raw_write s source_reg value)"

definition csr_read :: "CSRegisters \<Rightarrow> CSRegister \<Rightarrow> CSRRepr" where
  "csr_read s reg = transform_read s reg None"

definition csr_replace :: "CSRegisters \<Rightarrow> CSRegister \<Rightarrow> CSRRepr \<Rightarrow> CSRRepr \<times> CSRegisters" where
  "csr_replace s reg value =
     (case make_value_writable reg value of
        Some value \<Rightarrow>
          let value = transform_write s reg value;
              source_reg = root_of reg;
              (old_value, s') = general_raw_replace s source_reg value;
              old_value = transform_read s' reg (Some old_value)
          in (old_value, s')
      | None \<Rightarrow> (csr_read s reg, s))"

definition csr_set_bits :: "CSRegisters \<Rightarrow> CSRegister \<Rightarrow> CSRRepr \<Rightarrow> CSRRepr \<times> CSRegisters" where
  "csr_set_bits s reg bits =
     (let old_value = csr_read s reg;
          new_value = old_value OR bits
      in (old_value, csr_write s reg new_value))"

definition csr_clear_bits :: "CSRegisters \<Rightarrow> CSRegister \<Rightarrow> CSRRepr \<Rightarrow> CSRRepr \<times> CSRegisters" where
  "csr_clear_bits s reg bits =
     (let old_value = csr_read s reg;
          new_value = old_value AND NOT bits
      in (old_value, csr_write s reg new_value))"

definition csr_reset :: "CSRegisters \<Rightarrow> CSRegisters" where
  "csr_reset s = fold (\<lambda>reg s. general_raw_write s (root_of reg) (default_value reg)) all_csregisters s"

definition floating_disabled :: "CSRegisters \<Rightarrow> bool" where
  "floating_disabled s = (ms_fs (csr_mstatus s) = Ext_Off)"

section \<open>Access checks\<close>

definition check_privilege :: "CSRegister \<Rightarrow> Mode \<Rightarrow> (Exception, unit) result" where
  "check_privilege reg mode =
     (if mode_privilege mode < the (privilege reg) then Inl IllegalInstruction else Inr ())"

definition check_write :: "CSRegister \<Rightarrow> (Exception, unit) result" where
  "check_write reg = (if is_read_only reg then Inl IllegalInstruction else Inr ())"

definition check_satp_access :: "CSRegister \<Rightarrow> bool \<Rightarrow> (Exception, unit) result" where
  "check_satp_access csr tvm_field =
     (if tvm_field \<and> csr = CSR_satp then Inl IllegalInstruction else Inr ())"

definition check_fs_access :: "CSRegister \<Rightarrow> ExtensionValue \<Rightarrow> (Exception, unit) result" where
  "check_fs_access csr fs_field =
     (if (csr = CSR_fcsr \<or> csr = CSR_frm \<or> csr = CSR_fflags) \<and> fs_field = Ext_Off
      then Inl IllegalInstruction else Inr ())"

definition access_checks :: "CSRegister \<Rightarrow> Mode \<Rightarrow> CSRegisters \<Rightarrow> (Exception, unit) result" where
  "access_checks csr mode s =
     (case check_privilege csr mode of
        Inl e \<Rightarrow> Inl e
      | Inr _ \<Rightarrow>
        (case check_satp_access csr (ms_tvm (csr_mstatus s)) of
           Inl e \<Rightarrow> Inl e
         | Inr _ \<Rightarrow> check_fs_access csr (ms_fs (csr_mstatus s))))"

section \<open>Interrupts and trap delegation\<close>

fun possible_interrupts :: "CSRegisters \<Rightarrow> Mode \<Rightarrow> CSRRepr" where
  "possible_interrupts s User = SUPERVISOR_BIT_MASK OR MACHINE_BIT_MASK"
| "possible_interrupts s Supervisor =
     (if ms_sie (csr_mstatus s) then csr_read s CSR_sie else 0) OR MACHINE_BIT_MASK"
| "possible_interrupts s Machine =
     (if ms_mie (csr_mstatus s) then csr_read s CSR_mie else 0)"

definition get_trap_mode :: "CSRegisters \<Rightarrow> Trap \<Rightarrow> Mode \<Rightarrow> TrapMode" where
  "get_trap_mode s trap_source current_mode =
     (if current_mode \<le> Supervisor then
        let deleg = (case trap_kind trap_source of KindInterrupt \<Rightarrow> CSR_mideleg
                                                 | KindException \<Rightarrow> CSR_medeleg);
            deleg_val = csr_read s deleg
        in if bit_at deleg_val (unat (trap_exception_code trap_source))
           then TrapSupervisor else TrapMachine
      else TrapMachine)"

definition get_trap_handler :: "CSRegisters \<Rightarrow> Trap \<Rightarrow> TrapMode \<Rightarrow> Address" where
  "get_trap_handler s trap_source trap_mode =
     (let xtvec = csr_read s (case trap_mode of TrapSupervisor \<Rightarrow> CSR_stvec | TrapMachine \<Rightarrow> CSR_mtvec)
      in trap_handler_address trap_source xtvec)"

section \<open>Addresses, privileges and access\<close>

lemma nat_split_256:
  assumes "r < (4096 :: nat)"
  obtains q m where "r = 256 * q + m" "m < 256" "q \<in> {0,1,2,3,4,5,6,7,8,9,10,11,12,13,14,15}"
proof
  show "r = 256 * (r div 256) + r mod 256" "r mod 256 < 256" by simp_all
  have "r div 256 \<in> {..<16}" using assms by (simp add: less_mult_imp_div_less)
  moreover have "{..<16 :: nat} = {0,1,2,3,4,5,6,7,8,9,10,11,12,13,14,15}" by code_simp
  ultimately show "r div 256 \<in> {0,1,2,3,4,5,6,7,8,9,10,11,12,13,14,15}" by metis
qed

lemma privilege_eq:
  "privilege reg = Some (let p = unat reg div 0x100 mod 4 in
     if p = 0 then Unprivileged else if p = 1 then PrivSupervisor
     else if p = 2 then PrivHypervisor else PrivMachine)"
proof -
  have "unat reg < 4096"
    using unsigned_less[of reg, where ?'a = nat] by simp
  then obtain q m where rq: "unat reg = 256 * q + m" "m < 256"
    "q \<in> {0,1,2,3,4,5,6,7,8,9,10,11,12,13,14,15}"
    by (rule nat_split_256)
  have "unat reg div 0x100 = q" using rq(1,2) by simp
  with rq(3) show ?thesis
    unfolding privilege_def Let_def rq(1) using rq(2)
    by (elim insertE emptyE; simp; arith?)
qed

lemma is_read_only_iff: "is_read_only reg \<longleftrightarrow> 0xC00 \<le> unat reg"
proof -
  have "unat reg < 4096"
    using unsigned_less[of reg, where ?'a = nat] by simp
  then obtain q m where rq: "unat reg = 256 * q + m" "m < 256"
    "q \<in> {0,1,2,3,4,5,6,7,8,9,10,11,12,13,14,15}"
    by (rule nat_split_256)
  have "drop_bit 10 (unat reg) AND 3 = unat reg div 1024 mod 4"
    using take_bit_eq_mask[of 2 "unat reg div 1024"]
    by (simp add: drop_bit_eq_div take_bit_eq_mod mask_eq_exp_minus_1)
  moreover have "unat reg div 1024 = q div 4"
    using rq(1,2) div_mult2_eq[of "unat reg" 256 4] by simp
  ultimately show ?thesis
    unfolding is_read_only_def rq(1) using rq(2,3)
    by (elim insertE emptyE; simp)
qed

lemma check_privilege_ok_iff:
  "is_ok (check_privilege reg mode) \<longleftrightarrow>
   unat reg div 0x100 mod 4 \<le> privilege_rank (mode_privilege mode)"
  by (cases mode) (auto simp: check_privilege_def privilege_eq Let_def less_Privilege_def)

lemma try_parse_iff:
  "try_parse r = Some reg \<longleftrightarrow> reg \<in> set all_csregisters \<and> r = ucast reg"
proof
  assume "try_parse r = Some reg"
  then have *: "unat r < 0x1000" "reg = ucast r" "reg \<in> set all_csregisters"
    by (auto simp: try_parse_def split: if_splits)
  moreover from *(1) have "(ucast (ucast r :: 12 word) :: u32) = r"
    using less_exp_iff_take_bit[of 12 r] by (simp add: word_less_nat_alt unsigned_ucast_eq)
  ultimately show "reg \<in> set all_csregisters \<and> r = ucast reg" by simp
next
  assume *: "reg \<in> set all_csregisters \<and> r = ucast reg"
  have "unat (ucast reg :: u32) < 0x1000"
    using unsigned_less[of reg, where ?'a = nat] by (simp add: unsigned_ucast_eq take_bit_nat_eq_self)
  moreover have "(ucast (ucast reg :: u32) :: 12 word) = reg"
    by (intro word_bits_eqI) (simp add: bit_simps)
  ultimately show "try_parse r = Some reg"
    using * by (simp add: try_parse_def)
qed

section \<open>Root registers\<close>

lemma root_of_idem [simp]: "root_of (root_of r) = root_of r"
  by (simp add: root_of_def)

lemma general_raw_replace_eq:
  "general_raw_replace s csr v = (general_raw_read s csr, general_raw_write s csr v)"
  by (simp add: general_raw_replace_def general_raw_read_def general_raw_write_def
      mstatus_replace_eq)

lemma general_raw_read_write_other:
  "csr \<noteq> csr' \<Longrightarrow> general_raw_read (general_raw_write s csr v) csr' = general_raw_read s csr'"
  by (auto simp: general_raw_read_def general_raw_write_def)

lemma csr_read_cong:
  "general_raw_read s (root_of q) = general_raw_read s' (root_of q) \<Longrightarrow> csr_read s q = csr_read s' q"
  by (simp only: csr_read_def transform_read_def option.case)

lemma transform_read_Some_None:
  "transform_read s' reg (Some (general_raw_read s (root_of reg))) = transform_read s reg None"
  by (simp add: transform_read_def)

lemma csr_replace_read_write: "csr_replace s reg v = (csr_read s reg, csr_write s reg v)"
  by (simp add: csr_replace_def csr_write_def csr_read_def general_raw_replace_eq Let_def
      transform_read_Some_None split: option.split)

lemma csr_read_write_other_root:
  assumes "root_of q \<noteq> root_of reg"
  shows "csr_read (csr_write s reg v) q = csr_read s q"
  using assms by (intro csr_read_cong)
    (simp add: csr_write_def general_raw_read_write_other Let_def split: option.split)


section \<open>Status registers\<close>

lemma csr_with_commute [csr_simps]:
  assumes "accum + (width - 1) < accum'"
  shows "csr_with t width accum x (csr_with t' width' accum' y v) =
    csr_with t' width' accum' y (csr_with t width accum x v)"
  using assms by (simp add: csr_with_def Let_def replace_subset_commute)

lemma MStatus_normalise_from_bits:
  "MStatus_normalise (MStatus_from_bits v) =
   MStatus_new (MStatus_sie v) (MStatus_mie v) (MStatus_spie v) (MStatus_ube v) (MStatus_mpie v)
     (MStatus_spp v) (MStatus_mpp v) (MStatus_fs v) (MStatus_xs v) (MStatus_mprv v) (MStatus_sum v)
     (MStatus_mxr v) (MStatus_tvm v) (MStatus_tw v) (MStatus_tsr v) (MStatus_uxl v) (MStatus_sxl v)
     (MStatus_sbe v) (MStatus_mbe v) (MStatus_fs v = Ext_Dirty \<or> MStatus_xs v = Ext_Dirty)"
  unfolding MStatus_normalise_def SStatus_to_mstatus_def SStatus_normalise_def MStatus_to_sstatus_def Let_def
  by (simp only: csr_simps SStatus_get_from_bits MStatus_get_from_bits)
    (simp only: MStatus_from_bits_new[of v], simp add: MStatus_new_def Let_def csr_simps)

lemma mstatus_read_write:
  "mstatus_read (mstatus_write v s) = MStatus_normalise (MStatus_from_bits v)"
  by (simp add: MStatus_normalise_from_bits mstatus_read_def mstatus_write_fields compute_sd_def disj_commute)

lemma MStatus_normalise_idem:
  "MStatus_normalise (MStatus_from_bits (MStatus_normalise (MStatus_from_bits v))) =
   MStatus_normalise (MStatus_from_bits v)"
  by (simp only: MStatus_normalise_from_bits csr_simps)

lemma SStatus_normalise_fields [csr_simps]:
  "SStatus_sie (SStatus_normalise (SStatus_from_bits x)) = SStatus_sie x"
  "SStatus_spie (SStatus_normalise (SStatus_from_bits x)) = SStatus_spie x"
  "SStatus_ube (SStatus_normalise (SStatus_from_bits x)) = SStatus_ube x"
  "SStatus_spp (SStatus_normalise (SStatus_from_bits x)) = SStatus_spp x"
  "SStatus_fs (SStatus_normalise (SStatus_from_bits x)) = SStatus_fs x"
  "SStatus_xs (SStatus_normalise (SStatus_from_bits x)) = SStatus_xs x"
  "SStatus_sum (SStatus_normalise (SStatus_from_bits x)) = SStatus_sum x"
  "SStatus_mxr (SStatus_normalise (SStatus_from_bits x)) = SStatus_mxr x"
  "SStatus_uxl (SStatus_normalise (SStatus_from_bits x)) = SStatus_uxl x"
  "SStatus_sd (SStatus_normalise (SStatus_from_bits x)) \<longleftrightarrow>
     (SStatus_fs x = Ext_Dirty \<or> SStatus_xs x = Ext_Dirty)"
  by (simp_all add: SStatus_normalise_def Let_def csr_simps)

lemma SStatus_to_mstatus_fields [csr_simps]:
  "MStatus_sie (SStatus_to_mstatus s m) = SStatus_sie s"
  "MStatus_spie (SStatus_to_mstatus s m) = SStatus_spie s"
  "MStatus_ube (SStatus_to_mstatus s m) = SStatus_ube s"
  "MStatus_spp (SStatus_to_mstatus s m) = SStatus_spp s"
  "MStatus_fs (SStatus_to_mstatus s m) = SStatus_fs s"
  "MStatus_xs (SStatus_to_mstatus s m) = SStatus_xs s"
  "MStatus_sum (SStatus_to_mstatus s m) = SStatus_sum s"
  "MStatus_mxr (SStatus_to_mstatus s m) = SStatus_mxr s"
  "MStatus_uxl (SStatus_to_mstatus s m) = SStatus_uxl s"
  "MStatus_sd (SStatus_to_mstatus s m) = SStatus_sd s"
  by (simp_all add: SStatus_to_mstatus_def Let_def csr_simps)

lemma SStatus_to_mstatus_machine_fields [csr_simps]:
  "MStatus_mie (SStatus_to_mstatus s m) = MStatus_mie m"
  "MStatus_mpie (SStatus_to_mstatus s m) = MStatus_mpie m"
  "MStatus_mpp (SStatus_to_mstatus s m) = MStatus_mpp m"
  "MStatus_mprv (SStatus_to_mstatus s m) = MStatus_mprv m"
  "MStatus_tvm (SStatus_to_mstatus s m) = MStatus_tvm m"
  "MStatus_tw (SStatus_to_mstatus s m) = MStatus_tw m"
  "MStatus_tsr (SStatus_to_mstatus s m) = MStatus_tsr m"
  "MStatus_sxl (SStatus_to_mstatus s m) = MStatus_sxl m"
  "MStatus_sbe (SStatus_to_mstatus s m) = MStatus_sbe m"
  "MStatus_mbe (SStatus_to_mstatus s m) = MStatus_mbe m"
  by (simp_all add: SStatus_to_mstatus_def Let_def csr_simps)

lemma SStatus_from_bits_sdI:
  assumes "SStatus_sie r = SStatus_sie x" "SStatus_spie r = SStatus_spie x" "SStatus_ube r = SStatus_ube x"
    "SStatus_spp r = SStatus_spp x" "SStatus_fs r = SStatus_fs x" "SStatus_xs r = SStatus_xs x"
    "SStatus_sum r = SStatus_sum x" "SStatus_mxr r = SStatus_mxr x" "SStatus_uxl r = SStatus_uxl x"
  shows "SStatus_from_bits r = SStatus_with_sd (SStatus_sd r) (SStatus_from_bits x)"
  unfolding SStatus_from_bits_def Let_def assms constant_unit by (simp only: csr_with_with)

lemma sstatus_write_read:
  "MStatus_to_sstatus (MStatus_from_bits (mstatus_read (mstatus_write
     (SStatus_to_mstatus (SStatus_from_bits (SStatus_normalise (SStatus_from_bits x))) m) s))) =
   SStatus_normalise (SStatus_from_bits x)"
proof -
  let ?w = "SStatus_normalise (SStatus_from_bits x)"
  let ?r = "mstatus_read (mstatus_write (SStatus_to_mstatus (SStatus_from_bits ?w) m) s)"
  have f: "SStatus_sie ?r = SStatus_sie x" "SStatus_spie ?r = SStatus_spie x" "SStatus_ube ?r = SStatus_ube x"
    "SStatus_spp ?r = SStatus_spp x" "SStatus_fs ?r = SStatus_fs x" "SStatus_xs ?r = SStatus_xs x"
    "SStatus_sum ?r = SStatus_sum x" "SStatus_mxr ?r = SStatus_mxr x" "SStatus_uxl ?r = SStatus_uxl x"
    "SStatus_sd ?r = (SStatus_fs x = Ext_Dirty \<or> SStatus_xs x = Ext_Dirty)"
    by (simp_all only: mstatus_read_fields mstatus_write_fields SStatus_to_mstatus_fields
        SStatus_get_from_bits SStatus_normalise_fields compute_sd_def)
  have "SStatus_from_bits ?r = SStatus_with_sd (SStatus_sd ?r) (SStatus_from_bits x)"
    by (intro SStatus_from_bits_sdI f)
  also have "\<dots> = ?w"
    unfolding f(10) by (simp only: SStatus_normalise_def Let_def SStatus_get_from_bits)
  finally show ?thesis
    by (simp only: MStatus_to_sstatus_def mstatus_read_canonical)
qed

section \<open>Reading back what was written\<close>

definition legalised :: "CSRegister \<Rightarrow> CSRRepr \<Rightarrow> CSRRepr" where
  "legalised reg w =
     (if reg = CSR_mip \<or> reg = CSR_sip then 0
      else if reg = CSR_fcsr then w AND FCSR_MASK
      else if reg = CSR_frm then w AND 7
      else if reg = CSR_fflags then w AND FFLAGS_MASK
      else w)"

lemma frm_read_write:
  "drop_bit FRM_SHIFT (((push_bit FRM_SHIFT w AND FRM_MASK) OR (f AND NOT FRM_MASK)) AND FRM_MASK) = w AND 7"
  for w f :: u64
proof -
  have m: "FRM_MASK = push_bit 5 (mask 3)" "(7 :: u64) = mask 3"
    by (simp_all add: FRM_MASK_def FRM_SHIFT_def mask_eq_exp_minus_1)
  show ?thesis unfolding m FRM_SHIFT_def
    by (rule word_bits_eqI) (force simp: bit_simps)
qed

lemma masked_merge: "((w AND m) OR (f AND NOT m)) AND m = w AND m" for w f m :: u64
  by (rule word_bits_eqI) (auto simp: bit_and_iff bit_or_iff bit_not_iff)

lemma csr_read_write_same:
  "csr_read (csr_write s reg v) reg =
   (case make_value_writable reg v of None \<Rightarrow> csr_read s reg | Some w \<Rightarrow> legalised reg w)"
proof (cases "make_value_writable reg v")
  case (Some w)
  consider "reg = CSR_mstatus" | "reg = CSR_sstatus" | "reg = CSR_mip" | "reg = CSR_sip" | "reg = CSR_sie"
    | "reg = CSR_fcsr" | "reg = CSR_frm" | "reg = CSR_fflags"
    | "reg \<notin> {CSR_mstatus, CSR_sstatus, CSR_mip, CSR_sip, CSR_sie, CSR_fcsr, CSR_frm, CSR_fflags}"
    by blast
  then show ?thesis
  proof cases
    case 1
    with Some have "w = MStatus_normalise (MStatus_from_bits (clear_wpri_fields reg v))"
      by (simp add: make_value_writable_def transform_warl_fields_def is_legal_def legal_values_def)
    with 1 Some show ?thesis
      by (simp add: csr_read_def csr_write_def transform_read_def transform_write_def root_of_def
          general_raw_read_def general_raw_write_def legalised_def mstatus_read_write MStatus_normalise_idem)
  next
    case 2
    with Some have "w = SStatus_normalise (SStatus_from_bits (clear_wpri_fields reg v))"
      by (simp add: make_value_writable_def transform_warl_fields_def is_legal_def legal_values_def)
    with 2 Some show ?thesis
      by (simp add: csr_read_def csr_write_def transform_read_def transform_write_def root_of_def Let_def
          general_raw_read_def general_raw_write_def legalised_def del: mstatus_read_canonical)
        (simp only: sstatus_write_read)
  next
    case 5
    with Some have "w = clear_wpri_fields reg v AND WARL_MASK_SIP_SIE"
      by (simp add: make_value_writable_def transform_warl_fields_def is_legal_def legal_values_def)
    with 5 Some show ?thesis
      by (simp add: csr_read_def csr_write_def transform_read_def transform_write_def root_of_def Let_def
          general_raw_read_def general_raw_write_def legalised_def masked_merge and.assoc)
  qed (use Some in \<open>simp_all add: csr_read_def csr_write_def transform_read_def transform_write_def
      root_of_def Let_def general_raw_read_def general_raw_write_def legalised_def frm_read_write[simplified]
      masked_merge and.assoc\<close>)
qed (simp add: csr_write_def)

section \<open>Shadow registers\<close>

lemma csr_write_mstatus_other:
  assumes "root_of reg \<noteq> CSR_mstatus"
  shows "csr_mstatus (csr_write s reg v) = csr_mstatus s"
  using assms by (simp add: csr_write_def general_raw_write_def Let_def split: option.split)

lemma csr_write_sstatus_eq:
  "csr_write s CSR_sstatus v =
   s\<lparr>csr_mstatus := mstatus_write (SStatus_to_mstatus (SStatus_from_bits
      (SStatus_normalise (SStatus_from_bits (v AND WPRI_MASK_SSTATUS)))) (mstatus_read (csr_mstatus s)))
      (csr_mstatus s)\<rparr>"
  by (simp add: csr_write_def make_value_writable_def transform_warl_fields_def is_legal_def
      legal_values_def transform_write_def root_of_def general_raw_write_def Let_def clear_wpri_fields_def
      wpri_mask_def)

lemma csr_write_sstatus_machine_fields:
  fixes s v defines "m \<equiv> csr_mstatus s" and "m' \<equiv> csr_mstatus (csr_write s CSR_sstatus v)"
  shows "ms_mie m' = ms_mie m" "ms_mpie m' = ms_mpie m" "ms_mpp m' = ms_mpp m" "ms_mprv m' = ms_mprv m"
    "ms_tvm m' = ms_tvm m" "ms_tw m' = ms_tw m" "ms_tsr m' = ms_tsr m" "ms_sxl m' = ms_sxl m"
    "ms_sbe m' = ms_sbe m" "ms_mbe m' = ms_mbe m"
  unfolding m_def m'_def csr_write_sstatus_eq
  by (simp_all add: mstatus_write_fields SStatus_to_mstatus_machine_fields mstatus_read_fields)

lemma csr_write_sstatus_raw: "csr_raw (csr_write s CSR_sstatus v) = csr_raw s"
  by (simp add: csr_write_sstatus_eq)

lemma fcsr_parts: "(f AND FCSR_MASK) = push_bit FRM_SHIFT (drop_bit FRM_SHIFT (f AND FRM_MASK)) OR (f AND FFLAGS_MASK)"
proof -
  have m: "FRM_MASK = push_bit 5 (mask 3)" "FFLAGS_MASK = mask 5"
    by (simp_all add: FRM_MASK_def FRM_SHIFT_def FFLAGS_MASK_def mask_eq_exp_minus_1)
  show ?thesis unfolding m FCSR_MASK_def FRM_SHIFT_def
    by (rule word_bits_eqI) (auto simp: bit_simps)
qed

lemma csr_read_fcsr: "csr_read s CSR_fcsr = push_bit FRM_SHIFT (csr_read s CSR_frm) OR csr_read s CSR_fflags"
  using fcsr_parts[of "csr_raw s CSR_fcsr"]
  by (simp only: csr_read_def transform_read_def root_of_def general_raw_read_def option.case Let_def) simp

lemma frm_merge_fflags:
  "((push_bit FRM_SHIFT w AND FRM_MASK) OR (f AND NOT FRM_MASK)) AND FFLAGS_MASK = f AND FFLAGS_MASK"
  for w f :: u64
proof -
  have m: "FRM_MASK = push_bit 5 (mask 3)" "FFLAGS_MASK = mask 5"
    by (simp_all add: FRM_MASK_def FRM_SHIFT_def FFLAGS_MASK_def mask_eq_exp_minus_1)
  show ?thesis unfolding m FRM_SHIFT_def by (rule word_bits_eqI) (auto simp: bit_simps)
qed

lemma fflags_merge_frm:
  "((w AND FFLAGS_MASK) OR (f AND NOT FFLAGS_MASK)) AND FRM_MASK = f AND FRM_MASK"
  for w f :: u64
proof -
  have m: "FRM_MASK = push_bit 5 (mask 3)" "FFLAGS_MASK = mask 5"
    by (simp_all add: FRM_MASK_def FRM_SHIFT_def FFLAGS_MASK_def mask_eq_exp_minus_1)
  show ?thesis unfolding m by (rule word_bits_eqI) (auto simp: bit_simps)
qed

lemma make_value_writable_fp:
  "make_value_writable CSR_frm v = Some v" "make_value_writable CSR_fflags v = Some v"
  "make_value_writable CSR_fcsr v = Some v"
  by (simp_all add: make_value_writable_def transform_warl_fields_def is_legal_def legal_values_def
      clear_wpri_fields_def wpri_mask_def WPRI_MASK_EMPTY_def)

lemma csr_write_frm_keeps_fflags: "csr_read (csr_write s CSR_frm v) CSR_fflags = csr_read s CSR_fflags"
  by (simp add: csr_read_def csr_write_def make_value_writable_fp transform_read_def transform_write_def
      root_of_def general_raw_read_def general_raw_write_def Let_def frm_merge_fflags)

lemma csr_write_fflags_keeps_frm: "csr_read (csr_write s CSR_fflags v) CSR_frm = csr_read s CSR_frm"
  by (simp only: csr_read_def csr_write_def make_value_writable_fp transform_read_def transform_write_def
      root_of_def general_raw_read_def general_raw_write_def Let_def option.case) (simp add: fflags_merge_frm[simplified]
      flip: drop_bit_and drop_bit_or)

lemma csr_write_sie_mie:
  "csr_read (csr_write s CSR_sie v) CSR_mie =
   (v AND SUPERVISOR_BIT_MASK) OR (csr_read s CSR_mie AND NOT SUPERVISOR_BIT_MASK)"
  by (simp add: csr_read_def csr_write_def make_value_writable_def transform_warl_fields_def is_legal_def
      legal_values_def clear_wpri_fields_def wpri_mask_def WPRI_MASK_EMPTY_def WARL_MASK_SIP_SIE_def
      transform_read_def transform_write_def root_of_def general_raw_read_def general_raw_write_def
      Let_def and.assoc)

section \<open>Trap delegation\<close>

lemma get_trap_mode_not_lower: "m \<le> as_mode (get_trap_mode s t m)"
  by (cases m) (auto simp: get_trap_mode_def Let_def less_eq_Mode_def)

lemma get_trap_handler_align: "get_trap_handler s t m AND 3 = 0"
  by (simp add: get_trap_handler_def trap_handler_align)

section \<open>Reset\<close>

definition reset_reg :: "CSRegister \<Rightarrow> CSRegisters \<Rightarrow> CSRegisters" where
  "reset_reg reg s = general_raw_write s (root_of reg) (default_value reg)"

lemma csr_reset_fold: "csr_reset s = fold reset_reg all_csregisters s"
  by (simp add: csr_reset_def reset_reg_def[abs_def])

lemma fold_reset_raw:
  assumes "\<forall>reg \<in> set regs. root_of reg = r \<longrightarrow> default_value reg = d"
    and "r \<noteq> CSR_mstatus" "r \<noteq> CSR_mip"
  shows "csr_raw (fold reset_reg regs s) r = (if r \<in> root_of ` set regs then d else csr_raw s r)"
  using assms(1)
proof (induction regs arbitrary: s)
  case (Cons reg regs)
  then show ?case using assms(2,3)
    by (cases "root_of reg = r") (auto simp: reset_reg_def general_raw_write_def)
qed simp

lemma fold_reset_mstatus_other:
  "\<forall>reg \<in> set regs. root_of reg \<noteq> CSR_mstatus \<Longrightarrow> csr_mstatus (fold reset_reg regs s) = csr_mstatus s"
  by (induction regs arbitrary: s) (auto simp: reset_reg_def general_raw_write_def)

lemma all_csregisters_split:
  obtains pre post where "all_csregisters = pre @ CSR_mstatus # post"
    "\<forall>reg \<in> set post. root_of reg \<noteq> CSR_mstatus"
proof
  show "all_csregisters = takeWhile (\<lambda>r. r \<noteq> CSR_mstatus) all_csregisters @ CSR_mstatus #
      tl (dropWhile (\<lambda>r. r \<noteq> CSR_mstatus) all_csregisters)"
    by code_simp
  show "\<forall>reg \<in> set (tl (dropWhile (\<lambda>r. r \<noteq> CSR_mstatus) all_csregisters)). root_of reg \<noteq> CSR_mstatus"
    by code_simp
qed

lemma csr_reset_mstatus: "csr_mstatus (csr_reset s) = mstatus_write MStatus_default m"
proof -
  obtain pre post where *: "all_csregisters = pre @ CSR_mstatus # post"
    "\<forall>reg \<in> set post. root_of reg \<noteq> CSR_mstatus"
    by (rule all_csregisters_split)
  let ?s = "fold reset_reg pre s"
  have "csr_mstatus (csr_reset s) = csr_mstatus (reset_reg CSR_mstatus ?s)"
    unfolding csr_reset_fold *(1) using fold_reset_mstatus_other[OF *(2)] by simp
  also have "\<dots> = mstatus_write MStatus_default (csr_mstatus ?s)"
    by (simp add: reset_reg_def general_raw_write_def root_of_def default_value_def)
  also have "\<dots> = mstatus_write MStatus_default m"
    by (metis mstatus_write_read mstatus_write_write)
  finally show ?thesis .
qed

lemma default_value_root: "root_of reg \<noteq> CSR_mstatus \<Longrightarrow> default_value (root_of reg) = default_value reg"
  by (auto simp: root_of_def default_value_def split: if_splits)

lemma csr_reset_read:
  assumes "reg \<in> set all_csregisters" "root_of reg \<noteq> CSR_mstatus"
  shows "csr_read (csr_reset s) reg = default_value reg"
proof (cases "root_of reg = CSR_mip")
  case True
  then have "reg = CSR_mip \<or> reg = CSR_sip" by (auto simp: root_of_def split: if_splits)
  then show ?thesis
    by (auto simp: csr_read_def transform_read_def root_of_def general_raw_read_def default_value_def)
next
  case False
  have "\<forall>q \<in> set all_csregisters. root_of q = root_of reg \<longrightarrow> default_value q = default_value (root_of reg)"
    using assms(2) default_value_root by metis
  then have "csr_raw (csr_reset s) (root_of reg) = default_value (root_of reg)"
    unfolding csr_reset_fold using assms False by (subst fold_reset_raw) auto
  then have "general_raw_read (csr_reset s) (root_of reg) = default_value reg"
    using assms(2) False by (simp add: general_raw_read_def default_value_root)
  moreover have "default_value reg = 0"
    if "reg \<in> {CSR_sip, CSR_sie, CSR_fcsr, CSR_frm, CSR_fflags}"
    using that by (auto simp: default_value_def)
  moreover have "reg \<noteq> CSR_sstatus" using assms(2) by (auto simp: root_of_def)
  ultimately show ?thesis
    by (auto simp: csr_read_def transform_read_def Let_def)
qed

section \<open>Legal contents\<close>

text \<open>The stored registers hold legal values at any time.  Two initial values are not legal and stay until
  the first write: the zero of a freshly allocated \<^verbatim>\<open>misa\<close> (the first argument), and the reset values of
  \<^verbatim>\<open>medeleg\<close> and \<^verbatim>\<open>mideleg\<close>, which have bits that no write can set.\<close>

definition csr_wf :: "CSRRepr \<Rightarrow> CSRegisters \<Rightarrow> bool" where
  "csr_wf misa s \<longleftrightarrow>
     csr_raw s CSR_misa \<in> {misa, WARL_MISA_VALUE}
     \<and> (csr_raw s CSR_medeleg AND WARL_MASK_MEDELEG = csr_raw s CSR_medeleg \<or> csr_raw s CSR_medeleg = ones 64)
     \<and> (csr_raw s CSR_mideleg AND WARL_MASK_MIDELEG = csr_raw s CSR_mideleg \<or> csr_raw s CSR_mideleg = ones 64)
     \<and> csr_raw s CSR_mcause \<in> set WLRL_MCAUSE_VALUES
     \<and> csr_raw s CSR_scause \<in> set WLRL_SCAUSE_VALUES
     \<and> csr_raw s CSR_menvcfg AND WPRI_MASK_MENVCFG = csr_raw s CSR_menvcfg
     \<and> csr_raw s CSR_mseccfg AND WPRI_MASK_MSECCFG = csr_raw s CSR_mseccfg
     \<and> csr_raw s CSR_senvcfg AND WPRI_MASK_SENVCFG = csr_raw s CSR_senvcfg
     \<and> csr_raw s CSR_mncause AND WPRI_MASK_MNCAUSE = csr_raw s CSR_mncause
     \<and> csr_raw s CSR_mnstatus AND WPRI_MASK_MNSTATUS = csr_raw s CSR_mnstatus
     \<and> csr_raw s CSR_mtvec AND WARL_MASK_XTVEC = csr_raw s CSR_mtvec
     \<and> csr_raw s CSR_stvec AND WARL_MASK_XTVEC = csr_raw s CSR_stvec
     \<and> csr_raw s CSR_mie AND WARL_MASK_MIP_MIE = csr_raw s CSR_mie
     \<and> csr_raw s CSR_mepc AND WARL_MASK_XEPC = csr_raw s CSR_mepc
     \<and> csr_raw s CSR_sepc AND WARL_MASK_XEPC = csr_raw s CSR_sepc
     \<and> csr_raw s CSR_mnepc AND WARL_MASK_XEPC = csr_raw s CSR_mnepc
     \<and> (Satp_mode (csr_raw s CSR_satp) = Bare \<longrightarrow> csr_raw s CSR_satp = 0)"

lemma csr_wf_mstatus [simp]: "csr_wf misa (s\<lparr>csr_mstatus := m\<rparr>) = csr_wf misa s"
  by (simp add: csr_wf_def)

lemma and_mask_idem: "(v AND m) AND m = v AND m" for v m :: u64
  by (simp add: and.assoc)

lemma Satp_legal: "Satp_mode (Satp_normalise (Satp_from_bits v)) = Bare \<Longrightarrow> Satp_normalise (Satp_from_bits v) = 0"
  by (simp add: csr_simps Satp_normalise_bare)

lemma sie_within:
  "(w AND WARL_MASK_SIP_SIE OR mie AND NOT WARL_MASK_SIP_SIE) AND WARL_MASK_MIP_MIE =
   w AND WARL_MASK_SIP_SIE OR mie AND NOT WARL_MASK_SIP_SIE"
  if "mie AND WARL_MASK_MIP_MIE = mie" for w mie :: u64
proof (rule bit_eqI)
  fix n
  have "bit (mie AND WARL_MASK_MIP_MIE) n = bit mie n" using that by simp
  then show "bit ((w AND WARL_MASK_SIP_SIE OR mie AND NOT WARL_MASK_SIP_SIE) AND WARL_MASK_MIP_MIE) n =
      bit (w AND WARL_MASK_SIP_SIE OR mie AND NOT WARL_MASK_SIP_SIE) n"
    unfolding WARL_MASK_MIP_MIE_def WARL_MASK_SIP_SIE_def by (auto simp only: bit_simps)
qed

definition raw_legal :: "CSRRepr \<Rightarrow> CSRegister \<Rightarrow> CSRRepr \<Rightarrow> bool" where
  "raw_legal misa r v \<longleftrightarrow>
     (r = CSR_misa \<longrightarrow> v \<in> {misa, WARL_MISA_VALUE})
     \<and> (r = CSR_medeleg \<longrightarrow> v AND WARL_MASK_MEDELEG = v \<or> v = ones 64)
     \<and> (r = CSR_mideleg \<longrightarrow> v AND WARL_MASK_MIDELEG = v \<or> v = ones 64)
     \<and> (r = CSR_mcause \<longrightarrow> v \<in> set WLRL_MCAUSE_VALUES)
     \<and> (r = CSR_scause \<longrightarrow> v \<in> set WLRL_SCAUSE_VALUES)
     \<and> (r = CSR_menvcfg \<longrightarrow> v AND WPRI_MASK_MENVCFG = v)
     \<and> (r = CSR_mseccfg \<longrightarrow> v AND WPRI_MASK_MSECCFG = v)
     \<and> (r = CSR_senvcfg \<longrightarrow> v AND WPRI_MASK_SENVCFG = v)
     \<and> (r = CSR_mncause \<longrightarrow> v AND WPRI_MASK_MNCAUSE = v)
     \<and> (r = CSR_mnstatus \<longrightarrow> v AND WPRI_MASK_MNSTATUS = v)
     \<and> (r = CSR_mtvec \<or> r = CSR_stvec \<longrightarrow> v AND WARL_MASK_XTVEC = v)
     \<and> (r = CSR_mie \<longrightarrow> v AND WARL_MASK_MIP_MIE = v)
     \<and> (r = CSR_mepc \<or> r = CSR_sepc \<or> r = CSR_mnepc \<longrightarrow> v AND WARL_MASK_XEPC = v)
     \<and> (r = CSR_satp \<longrightarrow> Satp_mode v = Bare \<longrightarrow> v = 0)"

lemma csr_wf_raw_legal: "csr_wf misa s \<longleftrightarrow> (\<forall>r. raw_legal misa r (csr_raw s r))"
  unfolding csr_wf_def raw_legal_def
  by (simp only: all_conj_distrib imp_disjL all_simps simp_thms conj_assoc)

lemma csr_wf_raw_write:
  assumes "csr_wf misa s" "raw_legal misa r v"
  shows "csr_wf misa (general_raw_write s r v)"
  using assms by (simp add: csr_wf_raw_legal general_raw_write_def)

lemma MNStatus_wpri: "MNStatus_from_bits v AND WPRI_MASK_MNSTATUS = MNStatus_from_bits v"
  by (rule word_bits_eqI)
    (auto simp: WPRI_MASK_MNSTATUS_def MNStatus_from_bits_def Let_def bit_csr_with constant_to_bits_def word_bits bit_simps)

abbreviation legal_roots :: "CSRegister set" where
  "legal_roots \<equiv> {CSR_misa, CSR_medeleg, CSR_mideleg, CSR_mcause, CSR_scause, CSR_menvcfg, CSR_mseccfg, CSR_senvcfg,
     CSR_mncause, CSR_mnstatus, CSR_mtvec, CSR_stvec, CSR_mie, CSR_mepc, CSR_sepc, CSR_mnepc, CSR_satp}"

lemma written_legal:
  assumes "make_value_writable reg value = Some v" "reg \<in> legal_roots"
  shows "raw_legal misa reg v"
  using assms Satp_legal
  by (auto simp: make_value_writable_def raw_legal_def transform_warl_fields_def and_mask_idem is_legal_def
      legal_values_def MNStatus_wpri clear_wpri_fields_def wpri_mask_def Let_def WLRL_MCAUSE_VALUES_def
      WLRL_SCAUSE_VALUES_def split: if_splits)

lemma transform_write_legal:
  assumes "csr_wf misa s" "make_value_writable reg value = Some v"
  shows "root_of reg \<noteq> CSR_mstatus \<Longrightarrow> raw_legal misa (root_of reg) (transform_write s reg v)"
proof -
  assume "root_of reg \<noteq> CSR_mstatus"
  consider "reg = CSR_sie" | "reg \<in> legal_roots" | "root_of reg \<notin> legal_roots"
  proof -
    have "reg = CSR_sie \<or> root_of reg = reg \<or> root_of reg = CSR_fcsr \<or> root_of reg = CSR_mstatus \<or> root_of reg = CSR_mip"
      by (simp add: root_of_def)
    with that show thesis by (elim disjE) force+
  qed
  then show ?thesis
  proof cases
    case 1
    then show ?thesis using assms(1) sie_within
      by (simp add: raw_legal_def transform_write_def root_of_def Let_def csr_wf_def)
  next
    case 2
    then have "root_of reg = reg" "transform_write s reg v = v"
      by (auto simp: root_of_def transform_write_def)
    with written_legal [OF assms(2) 2] show ?thesis by simp
  next
    case 3
    then show ?thesis by (simp add: raw_legal_def)
  qed
qed

lemma csr_wf_write:
  assumes "csr_wf misa s"
  shows "csr_wf misa (csr_write s reg value)"
proof (cases "make_value_writable reg value")
  case (Some v)
  then have eq: "csr_write s reg value = general_raw_write s (root_of reg) (transform_write s reg v)"
    by (simp add: csr_write_def Let_def)
  show ?thesis
  proof (cases "root_of reg = CSR_mstatus")
    case True
    then show ?thesis using assms unfolding eq by (simp add: general_raw_write_def)
  next
    case False
    from csr_wf_raw_write [OF assms transform_write_legal [OF assms Some False]] show ?thesis
      unfolding eq .
  qed
qed (simp add: csr_write_def assms)

lemma csr_reset_raw:
  assumes "r \<in> set all_csregisters" "root_of r = r" "r \<noteq> CSR_mstatus" "r \<noteq> CSR_mip"
  shows "csr_raw (csr_reset s) r = default_value r"
proof -
  have "\<forall>q \<in> set all_csregisters. root_of q = r \<longrightarrow> default_value q = default_value r"
    using assms(3) default_value_root by metis
  from fold_reset_raw [OF this assms(3,4), of s] show ?thesis
    unfolding csr_reset_fold using image_eqI [of r root_of r, OF assms(2) [symmetric] assms(1)] by (simp only: if_True)
qed

lemma csr_reset_legal_roots:
  assumes "r \<in> legal_roots"
  shows "csr_raw (csr_reset s) r = default_value r"
proof -
  let ?rs = "[CSR_misa, CSR_medeleg, CSR_mideleg, CSR_mcause, CSR_scause, CSR_menvcfg, CSR_mseccfg, CSR_senvcfg,
    CSR_mncause, CSR_mnstatus, CSR_mtvec, CSR_stvec, CSR_mie, CSR_mepc, CSR_sepc, CSR_mnepc, CSR_satp]"
  have "list_all (\<lambda>r. r \<in> set all_csregisters \<and> root_of r = r \<and> r \<noteq> CSR_mstatus \<and> r \<noteq> CSR_mip) ?rs"
    by code_simp
  moreover have "r \<in> set ?rs" using assms by simp
  ultimately show ?thesis unfolding list_all_iff using csr_reset_raw by blast
qed

lemma csr_wf_reset: "csr_wf WARL_MISA_VALUE (csr_reset s)"
proof -
  have "Satp_default = 0"
    by (rule word_bits_eqI)
      (auto simp: Satp_default_def Satp_from_bits_def Let_def bit_csr_with csr_get_def alg_from_bits_def
        alg_to_bits_def fixed_from_bits_def fixed_to_bits_def bits_subset_def)
  moreover have "push_bit 31 (ones 1) AND WPRI_MASK_MNCAUSE = push_bit 31 (ones 1)" by code_simp
  ultimately show ?thesis
    unfolding csr_wf_def
    by (simp add: csr_reset_legal_roots default_value_def MNStatus_wpri WLRL_MCAUSE_VALUES_def WLRL_SCAUSE_VALUES_def)
qed

lemma csr_wf_any: "csr_wf WARL_MISA_VALUE s \<Longrightarrow> csr_wf misa s"
  by (auto simp: csr_wf_def)

text \<open>A delegation register holds the last value written to it, masked, or what it held before.\<close>

lemma delegation_write:
  "csr_raw (csr_write s reg v) CSR_medeleg
     = (if reg = CSR_medeleg then v AND WARL_MASK_MEDELEG else csr_raw s CSR_medeleg)"
  "csr_raw (csr_write s reg v) CSR_mideleg
     = (if reg = CSR_mideleg then v AND WARL_MASK_MIDELEG else csr_raw s CSR_mideleg)"
  by (auto simp: csr_write_def make_value_writable_def transform_warl_fields_def transform_write_def
      general_raw_write_def root_of_def clear_wpri_fields_def wpri_mask_def WPRI_MASK_EMPTY_def is_legal_def
      legal_values_def Let_def split: option.split if_splits)

lemma delegation_history:
  "csr_raw (fold (\<lambda>(reg, v) s. csr_write s reg v) ws s) CSR_medeleg
     = (case find (\<lambda>w. fst w = CSR_medeleg) (rev ws) of
          None \<Rightarrow> csr_raw s CSR_medeleg | Some w \<Rightarrow> snd w AND WARL_MASK_MEDELEG)"
  "csr_raw (fold (\<lambda>(reg, v) s. csr_write s reg v) ws s) CSR_mideleg
     = (case find (\<lambda>w. fst w = CSR_mideleg) (rev ws) of
          None \<Rightarrow> csr_raw s CSR_mideleg | Some w \<Rightarrow> snd w AND WARL_MASK_MIDELEG)"
  by (induction ws rule: rev_induct) (auto simp: delegation_write)

lemma csr_wf_epc:
  assumes "csr_wf misa s"
  shows "\<not> bit (csr_read s CSR_mepc) 0" "\<not> bit (csr_read s CSR_sepc) 0"
  using assms [unfolded csr_wf_def WARL_MASK_XEPC_def] 
  by (auto simp: csr_read_def transform_read_def root_of_def general_raw_read_def bit_simps dest: arg_cong [of _ _ "\<lambda>w. bit w 0"])

end
