(* ===== verification/Memory.thy ===== *)
theory Memory
  imports Traps
begin

text \<open>
  Main memory and the bus: \<^verbatim>\<open>machine_state/bus/main_memory.rs\<close>,
  \<^verbatim>\<open>machine_state/bus/devices.rs\<close>, \<^verbatim>\<open>machine_state/bus.rs\<close>, and the little-endian
  storage of elements in the byte region (\<^verbatim>\<open>dyn_region_read\<close> and
  \<^verbatim>\<open>dyn_region_write\<close> of \<^verbatim>\<open>state_backend/owned_backend.rs\<close>).  Elements are words
  whose length is a whole number of bytes.  The memory size \<^verbatim>\<open>ML::BYTES\<close> is a field
  of the memory state.  The traits \<^verbatim>\<open>AddressableRead\<close> and \<^verbatim>\<open>AddressableWrite\<close> are
  the locale \<^verbatim>\<open>addressable\<close>, interpreted on the bus for every element width that
  instructions access.
\<close>

section \<open>Elements in the byte region\<close>

definition elem_size :: "'a::len word itself \<Rightarrow> nat" where
  "elem_size _ = LENGTH('a) div 8"

definition to_stored :: "'a::len word \<Rightarrow> u8 list" where
  "to_stored w = map (\<lambda>i. ucast (drop_bit (8 * i) w)) [0..<LENGTH('a) div 8]"

fun from_stored :: "u8 list \<Rightarrow> 'a::len word" where
  "from_stored [] = 0"
| "from_stored (b # bs) = ucast b OR push_bit 8 (from_stored bs)"

definition dyn_region_read :: "(nat \<Rightarrow> u8) \<Rightarrow> nat \<Rightarrow> 'a::len word" where
  "dyn_region_read region address =
     from_stored (map (\<lambda>i. region (address + i)) [0..<elem_size TYPE('a word)])"

definition dyn_region_write :: "(nat \<Rightarrow> u8) \<Rightarrow> nat \<Rightarrow> 'a::len word \<Rightarrow> nat \<Rightarrow> u8" where
  "dyn_region_write region address value =
     (\<lambda>i. if address \<le> i \<and> i < address + elem_size TYPE('a word)
          then to_stored value ! (i - address) else region i)"

definition dyn_region_read_all :: "(nat \<Rightarrow> u8) \<Rightarrow> nat \<Rightarrow> nat \<Rightarrow> 'a::len word list" where
  "dyn_region_read_all region address n =
     map (\<lambda>k. dyn_region_read region (address + k * elem_size TYPE('a word))) [0..<n]"

primrec dyn_region_write_all :: "'a::len word list \<Rightarrow> (nat \<Rightarrow> u8) \<Rightarrow> nat \<Rightarrow> nat \<Rightarrow> u8" where
  "dyn_region_write_all [] region address = region"
| "dyn_region_write_all (v # vs) region address =
     dyn_region_write_all vs (dyn_region_write region address v) (address + elem_size TYPE('a word))"

section \<open>Main memory\<close>

datatype OutOfBounds = OutOfBounds

record MainMemory =
  mm_BYTES :: nat
  mm_data :: "nat \<Rightarrow> u8"

definition mm_reset :: "MainMemory \<Rightarrow> MainMemory" where
  "mm_reset m = m\<lparr>mm_data := fold (\<lambda>i d. dyn_region_write d i (0 :: u8)) [0..<mm_BYTES m] (mm_data m)\<rparr>"

definition mm_read :: "MainMemory \<Rightarrow> Address \<Rightarrow> (OutOfBounds, 'a::len word) result" where
  "mm_read m addr =
     (if unat addr + elem_size TYPE('a word) > mm_BYTES m then Inl OutOfBounds
      else Inr (dyn_region_read (mm_data m) (unat addr)))"

definition mm_read_all :: "MainMemory \<Rightarrow> Address \<Rightarrow> nat \<Rightarrow> (OutOfBounds, 'a::len word list) result" where
  "mm_read_all m addr n =
     (if unat addr + n * elem_size TYPE('a word) > mm_BYTES m then Inl OutOfBounds
      else Inr (dyn_region_read_all (mm_data m) (unat addr) n))"

definition mm_write :: "MainMemory \<Rightarrow> Address \<Rightarrow> 'a::len word \<Rightarrow> (OutOfBounds, MainMemory) result" where
  "mm_write m addr value =
     (if unat addr + elem_size TYPE('a word) > mm_BYTES m then Inl OutOfBounds
      else Inr (m\<lparr>mm_data := dyn_region_write (mm_data m) (unat addr) value\<rparr>))"

definition mm_write_all :: "MainMemory \<Rightarrow> Address \<Rightarrow> 'a::len word list \<Rightarrow> (OutOfBounds, MainMemory) result" where
  "mm_write_all m addr values =
     (if unat addr + length values * elem_size TYPE('a word) > mm_BYTES m then Inl OutOfBounds
      else Inr (m\<lparr>mm_data := dyn_region_write_all values (mm_data m) (unat addr)\<rparr>))"

definition mm_eq :: "MainMemory \<Rightarrow> MainMemory \<Rightarrow> bool" where
  "mm_eq m other =
     list_all (\<lambda>i. dyn_region_read (mm_data m) i = (dyn_region_read (mm_data other) i :: u8)) [0..<mm_BYTES m]"

section \<open>Devices\<close>

definition DEVICES_ADDRESS_SPACE_LENGTH :: u64 where
  "DEVICES_ADDRESS_SPACE_LENGTH = 2 * 1024 * 1024 * 1024"

record Devices =
  dev_placeholder :: u8

definition devices_reset :: "Devices \<Rightarrow> Devices" where
  "devices_reset d = d\<lparr>dev_placeholder := 0\<rparr>"

definition devices_read :: "Devices \<Rightarrow> Address \<Rightarrow> (OutOfBounds, 'a::len word) result" where
  "devices_read d addr = Inl OutOfBounds"

definition devices_read_all :: "Devices \<Rightarrow> Address \<Rightarrow> nat \<Rightarrow> (OutOfBounds, 'a::len word list) result" where
  "devices_read_all d addr n = Inl OutOfBounds"

definition devices_write :: "Devices \<Rightarrow> Address \<Rightarrow> 'a::len word \<Rightarrow> (OutOfBounds, Devices) result" where
  "devices_write d addr value = Inl OutOfBounds"

definition devices_write_all :: "Devices \<Rightarrow> Address \<Rightarrow> 'a::len word list \<Rightarrow> (OutOfBounds, Devices) result" where
  "devices_write_all d addr values = Inl OutOfBounds"

section \<open>The bus\<close>

datatype AddressSpace = SpaceDevices | SpaceMainMemory | SpaceOutOfBounds

definition saturating_sub :: "u64 \<Rightarrow> u64 \<Rightarrow> u64" where
  "saturating_sub a b = (if b \<le> a then a - b else 0)"

definition locate :: "nat \<Rightarrow> Address \<Rightarrow> AddressSpace \<times> Address" where
  "locate BYTES addr =
     (if addr < DEVICES_ADDRESS_SPACE_LENGTH then (SpaceDevices, addr)
      else
        let mem_addr = saturating_sub addr DEVICES_ADDRESS_SPACE_LENGTH;
            mem_size = of_nat BYTES
        in if mem_addr < mem_size then (SpaceMainMemory, mem_addr)
           else (SpaceOutOfBounds, saturating_sub mem_addr mem_size))"

fun space_start :: "nat \<Rightarrow> AddressSpace \<Rightarrow> Address" where
  "space_start BYTES SpaceDevices = 0"
| "space_start BYTES SpaceMainMemory = DEVICES_ADDRESS_SPACE_LENGTH"
| "space_start BYTES SpaceOutOfBounds = DEVICES_ADDRESS_SPACE_LENGTH + of_nat BYTES"

definition start_of_main_memory :: "nat \<Rightarrow> Address" where
  "start_of_main_memory BYTES = space_start BYTES SpaceMainMemory"

record Bus =
  bus_devices :: Devices
  bus_memory :: MainMemory

abbreviation bus_BYTES :: "Bus \<Rightarrow> nat" where
  "bus_BYTES b \<equiv> mm_BYTES (bus_memory b)"

definition bus_reset :: "Bus \<Rightarrow> Bus" where
  "bus_reset b = b\<lparr>bus_devices := devices_reset (bus_devices b), bus_memory := mm_reset (bus_memory b)\<rparr>"

definition bus_read :: "Bus \<Rightarrow> Address \<Rightarrow> (OutOfBounds, 'a::len word) result" where
  "bus_read b addr =
     (let (addr_space, local_address) = locate (bus_BYTES b) addr in
      case addr_space of
        SpaceDevices \<Rightarrow> devices_read (bus_devices b) local_address
      | SpaceMainMemory \<Rightarrow> mm_read (bus_memory b) local_address
      | SpaceOutOfBounds \<Rightarrow> Inl OutOfBounds)"

definition bus_read_all :: "Bus \<Rightarrow> Address \<Rightarrow> nat \<Rightarrow> (OutOfBounds, 'a::len word list) result" where
  "bus_read_all b addr n =
     (let end_addr = addr + of_nat (n * elem_size TYPE('a word) - 1);
          (addr_space, local_addr) = locate (bus_BYTES b) addr;
          (end_addr_space, _) = locate (bus_BYTES b) end_addr
      in if addr_space \<noteq> end_addr_space then Inl OutOfBounds
         else case addr_space of
           SpaceDevices \<Rightarrow> devices_read_all (bus_devices b) local_addr n
         | SpaceMainMemory \<Rightarrow> mm_read_all (bus_memory b) local_addr n
         | SpaceOutOfBounds \<Rightarrow> Inl OutOfBounds)"

definition bus_write :: "Bus \<Rightarrow> Address \<Rightarrow> 'a::len word \<Rightarrow> (OutOfBounds, Bus) result" where
  "bus_write b addr value =
     (let (addr_space, local_address) = locate (bus_BYTES b) addr in
      case addr_space of
        SpaceDevices \<Rightarrow> map_ok (\<lambda>d. b\<lparr>bus_devices := d\<rparr>) (devices_write (bus_devices b) local_address value)
      | SpaceMainMemory \<Rightarrow> map_ok (\<lambda>m. b\<lparr>bus_memory := m\<rparr>) (mm_write (bus_memory b) local_address value)
      | SpaceOutOfBounds \<Rightarrow> Inl OutOfBounds)"

definition bus_write_all :: "Bus \<Rightarrow> Address \<Rightarrow> 'a::len word list \<Rightarrow> (OutOfBounds, Bus) result" where
  "bus_write_all b addr values =
     (let end_addr = addr + of_nat (length values * elem_size TYPE('a word) - 1);
          (addr_space, local_addr) = locate (bus_BYTES b) addr;
          (end_addr_space, _) = locate (bus_BYTES b) end_addr
      in if addr_space \<noteq> end_addr_space then Inl OutOfBounds
         else case addr_space of
           SpaceDevices \<Rightarrow> map_ok (\<lambda>d. b\<lparr>bus_devices := d\<rparr>) (devices_write_all (bus_devices b) local_addr values)
         | SpaceMainMemory \<Rightarrow> map_ok (\<lambda>m. b\<lparr>bus_memory := m\<rparr>) (mm_write_all (bus_memory b) local_addr values)
         | SpaceOutOfBounds \<Rightarrow> Inl OutOfBounds)"

section \<open>Little-endian storage\<close>

lemma bit_from_stored [word_bits]:
  "bit (from_stored bs :: 'a::len word) i \<longleftrightarrow>
   i < LENGTH('a) \<and> i div 8 < length bs \<and> bit (bs ! (i div 8)) (i mod 8)"
proof (induction bs arbitrary: i)
  case (Cons b bs)
  show ?case
  proof (cases "i < 8")
    case True
    then show ?thesis by (auto simp: bit_or_iff bit_push_bit_iff bit_simps dest: bit_word_lt)
  next
    case False
    then have *: "i div 8 = Suc ((i - 8) div 8)" "(i - 8) mod 8 = i mod 8"
      by (simp_all add: le_div_geq le_mod_geq)
    have "bit (from_stored (b # bs) :: 'a word) i \<longleftrightarrow> i < LENGTH('a) \<and> bit (from_stored bs :: 'a word) (i - 8)"
      using False by (auto simp: bit_or_iff bit_push_bit_iff bit_simps dest: bit_word_lt)
    then show ?thesis unfolding Cons.IH by (auto simp: *)
  qed
qed simp

lemma length_to_stored [simp]: "length (to_stored (w :: 'a::len word)) = LENGTH('a) div 8"
  by (simp add: to_stored_def)

lemma bit_to_stored [word_bits]:
  "k < LENGTH('a) div 8 \<Longrightarrow> bit (to_stored (w :: 'a::len word) ! k) j \<longleftrightarrow> j < 8 \<and> bit w (8 * k + j)"
  by (auto simp: to_stored_def bit_simps dest: bit_word_lt)

lemma from_to_stored:
  assumes "8 dvd LENGTH('a::len)"
  shows "from_stored (to_stored w) = (w :: 'a word)"
proof (rule word_bits_eqI)
  fix i assume "i < LENGTH('a)"
  moreover from this assms have "i div 8 < LENGTH('a) div 8"
    by (metis div_less_mono zero_less_numeral dvd_imp_mod_0 less_mult_imp_div_less dvd_div_mult_self)
  ultimately show "bit (from_stored (to_stored w) :: 'a word) i = bit w i"
    by (simp add: word_bits)
qed

lemma to_from_stored:
  assumes "8 dvd LENGTH('a::len)" "length bs = LENGTH('a) div 8"
  shows "to_stored (from_stored bs :: 'a word) = bs"
proof (rule nth_equalityI)
  fix k assume "k < length (to_stored (from_stored bs :: 'a word))"
  then have k: "k < LENGTH('a) div 8" by simp
  show "to_stored (from_stored bs :: 'a word) ! k = bs ! k"
  proof (rule word_bits_eqI)
    fix j assume j: "j < LENGTH(8)"
    then have "8 * k + j < LENGTH('a)" using k assms(1) by auto
    with j k show "bit (to_stored (from_stored bs :: 'a word) ! k) j = bit (bs ! k) j"
      by (simp add: bit_to_stored bit_from_stored assms(2))
  qed
qed (simp add: assms)

lemma dyn_region_read_write_same:
  assumes "8 dvd LENGTH('a::len)"
  shows "dyn_region_read (dyn_region_write r a v) a = (v :: 'a word)"
proof -
  have "map (\<lambda>i. dyn_region_write r a v (a + i)) [0..<elem_size TYPE('a word)] = to_stored v"
    by (rule nth_equalityI) (simp_all add: dyn_region_write_def elem_size_def)
  then show ?thesis by (simp add: dyn_region_read_def from_to_stored[OF assms])
qed

lemma dyn_region_read_write_disjoint:
  fixes v :: "'a::len word"
  assumes "a + elem_size TYPE('a word) \<le> b \<or> b + elem_size TYPE('b word) \<le> a"
  shows "dyn_region_read (dyn_region_write r a v) b = (dyn_region_read r b :: 'b::len word)"
proof -
  have "map (\<lambda>i. dyn_region_write r a v (b + i)) [0..<elem_size TYPE('b word)] =
        map (\<lambda>i. r (b + i)) [0..<elem_size TYPE('b word)]"
    using assms by (auto simp: dyn_region_write_def)
  then show ?thesis by (simp only: dyn_region_read_def)
qed

lemma dyn_region_write_write_same:
  fixes v w :: "'a::len word"
  shows "dyn_region_write (dyn_region_write r a v) a w = dyn_region_write r a w"
  by (auto simp: dyn_region_write_def)

lemma dyn_region_byte: "dyn_region_read r i = r i" for r :: "nat \<Rightarrow> u8"
  by (simp add: dyn_region_read_def elem_size_def)

section \<open>The address map\<close>

abbreviation DEV :: nat where
  "DEV \<equiv> 0x80000000"

definition bus_wf :: "Bus \<Rightarrow> bool" where
  "bus_wf b \<longleftrightarrow> bus_BYTES b < 2 ^ 63"

lemma DEV_eq [simp]: "unat DEVICES_ADDRESS_SPACE_LENGTH = DEV"
  by (simp add: DEVICES_ADDRESS_SPACE_LENGTH_def)

lemma locate_eq:
  assumes "n < 2 ^ 63"
  shows "locate n addr =
    (if unat addr < DEV then (SpaceDevices, addr)
     else if unat addr < DEV + n then (SpaceMainMemory, addr - DEVICES_ADDRESS_SPACE_LENGTH)
     else (SpaceOutOfBounds, addr - DEVICES_ADDRESS_SPACE_LENGTH - of_nat n))"
proof -
  have n: "unat (of_nat n :: u64) = n" using assms by (simp add: unat_of_nat)
  have sub: "unat (addr - DEVICES_ADDRESS_SPACE_LENGTH) = unat addr - DEV" if "DEV \<le> unat addr"
    using that by (simp add: unat_sub_if_size DEVICES_ADDRESS_SPACE_LENGTH_def)
  show ?thesis
    unfolding locate_def saturating_sub_def Let_def
    by (auto simp: word_less_nat_alt word_le_nat_alt n sub)
qed

lemma space_start_roundtrip:
  assumes "0 < n" "n < 2 ^ 63"
  shows "locate n (space_start n sp) = (sp, 0)"
proof -
  have n: "unat (of_nat n :: u64) = n" using assms by (simp add: unat_of_nat)
  have "unat (DEVICES_ADDRESS_SPACE_LENGTH + of_nat n) = DEV + n"
    using assms n by (subst unat_add_lem[THEN iffD1]) (simp_all add: DEVICES_ADDRESS_SPACE_LENGTH_def)
  then show ?thesis using assms by (cases sp) (simp_all add: locate_eq)
qed

lemma elem_size_pos: "8 dvd LENGTH('a::len) \<Longrightarrow> 0 < elem_size TYPE('a word)"
  by (metis div_greater_zero_iff dvd_imp_le elem_size_def len_gt_0 zero_less_numeral)

lemma mem_local_addr: "DEV \<le> unat addr \<Longrightarrow> unat (addr - DEVICES_ADDRESS_SPACE_LENGTH) = unat addr - DEV"
  by (simp add: unat_sub_if_size DEVICES_ADDRESS_SPACE_LENGTH_def)

definition in_memory :: "Bus \<Rightarrow> Address \<Rightarrow> nat \<Rightarrow> bool" where
  "in_memory b addr n \<longleftrightarrow> DEV \<le> unat addr \<and> unat addr + n \<le> DEV + bus_BYTES b"

lemma bus_read_eq:
  assumes "bus_wf b" "0 < elem_size TYPE('a::len word)"
  shows "(bus_read b addr :: (OutOfBounds, 'a word) result) =
    (if in_memory b addr (elem_size TYPE('a word))
     then Inr (dyn_region_read (mm_data (bus_memory b)) (unat addr - DEV)) else Inl OutOfBounds)"
  using assms
  by (auto simp: bus_read_def bus_wf_def in_memory_def locate_eq mm_read_def devices_read_def mem_local_addr)

lemma bus_write_eq:
  fixes v :: "'a::len word"
  assumes "bus_wf b" "0 < elem_size TYPE('a word)"
  shows "bus_write b addr v =
    (if in_memory b addr (elem_size TYPE('a word))
     then Inr (b\<lparr>bus_memory := (bus_memory b)\<lparr>mm_data :=
       dyn_region_write (mm_data (bus_memory b)) (unat addr - DEV) v\<rparr>\<rparr>) else Inl OutOfBounds)"
  using assms
  by (auto simp: bus_write_def bus_wf_def in_memory_def locate_eq mm_write_def devices_write_def mem_local_addr)

lemma bus_write_layout:
  assumes "bus_write b addr v = Inr b'"
  shows "bus_BYTES b' = bus_BYTES b" "bus_devices b' = bus_devices b" "bus_wf b' \<longleftrightarrow> bus_wf b"
proof -
  have "bus_BYTES b' = bus_BYTES b \<and> bus_devices b' = bus_devices b"
    using assms
    by (auto simp: bus_write_def mm_write_def devices_write_def Let_def
        split: prod.splits AddressSpace.splits if_splits)
  then show "bus_BYTES b' = bus_BYTES b" "bus_devices b' = bus_devices b" "bus_wf b' \<longleftrightarrow> bus_wf b"
    by (simp_all add: bus_wf_def)
qed

section \<open>Addressable spaces\<close>

locale addressable =
  fixes rd :: "'s \<Rightarrow> Address \<Rightarrow> (OutOfBounds, 'a::len word) result"
    and wr :: "'s \<Rightarrow> Address \<Rightarrow> 'a word \<Rightarrow> (OutOfBounds, 's) result"
    and wf :: "'s \<Rightarrow> bool"
  assumes write_ok_iff: "wf s \<Longrightarrow> is_ok (wr s a v) \<longleftrightarrow> is_ok (rd s a)"
    and wf_write: "wf s \<Longrightarrow> wr s a v = Inr s' \<Longrightarrow> wf s'"
    and read_write_same: "wf s \<Longrightarrow> wr s a v = Inr s' \<Longrightarrow> rd s' a = Inr v"
    and read_write_disjoint:
      "wf s \<Longrightarrow> wr s a v = Inr s' \<Longrightarrow>
       unat a + elem_size TYPE('a word) \<le> unat b \<or> unat b + elem_size TYPE('a word) \<le> unat a \<Longrightarrow>
       rd s' b = rd s b"
begin

fun write_list :: "'s \<Rightarrow> (Address \<times> 'a word) list \<Rightarrow> (OutOfBounds, 's) result" where
  "write_list s [] = Inr s"
| "write_list s ((a, v) # ws) = (case wr s a v of Inl e \<Rightarrow> Inl e | Inr s' \<Rightarrow> write_list s' ws)"

definition apart :: "Address \<Rightarrow> Address \<Rightarrow> bool" where
  "apart a b \<longleftrightarrow> unat a + elem_size TYPE('a word) \<le> unat b \<or> unat b + elem_size TYPE('a word) \<le> unat a"

lemma write_list_keeps:
  assumes "wf s" "write_list s ws = Inr s'" "\<forall>a \<in> fst ` set ws. apart a b"
  shows "rd s' b = rd s b \<and> wf s'"
  using assms
proof (induction s ws rule: write_list.induct)
  case (2 s a v ws)
  then obtain s1 where s1: "wr s a v = Inr s1" "write_list s1 ws = Inr s'"
    by (auto split: sum.splits)
  have "rd s1 b = rd s b"
    using 2(2,4) s1(1) read_write_disjoint by (auto simp: apart_def)
  moreover have "rd s' b = rd s1 b \<and> wf s'"
    using 2 s1 wf_write by auto
  ultimately show ?case by simp
qed simp

lemma read_write_list:
  assumes "wf s" "write_list s ws = Inr s'" "(a, v) \<in> set ws"
    and "sorted_wrt (\<lambda>x y. apart (fst x) (fst y)) ws"
  shows "rd s' a = Inr v"
  using assms
proof (induction s ws rule: write_list.induct)
  case (2 s b w ws)
  then obtain s1 where s1: "wr s b w = Inr s1" "write_list s1 ws = Inr s'"
    by (auto split: sum.splits)
  have "wf s1" using 2(2) s1(1) wf_write by blast
  show ?case
  proof (cases "(a, v) \<in> set ws")
    case True
    then show ?thesis using 2 s1 \<open>wf s1\<close> by auto
  next
    case False
    then have "(a, v) = (b, w)" using 2(4) by auto
    moreover have "\<forall>x \<in> fst ` set ws. apart x b"
      using 2(5) by (auto simp: apart_def)
    ultimately show ?thesis
      using write_list_keeps[OF \<open>wf s1\<close> s1(2)] read_write_same[OF 2(2) s1(1)] by auto
  qed
qed simp

end

lemma bus_addressable:
  assumes "8 dvd LENGTH('a::len)"
  shows "addressable (bus_read :: Bus \<Rightarrow> Address \<Rightarrow> (OutOfBounds, 'a word) result) bus_write bus_wf"
proof -
  have pos: "0 < elem_size TYPE('a word)"
    using assms by (rule elem_size_pos)
  show ?thesis
  proof
    fix s s' :: Bus and a b :: Address and v :: "'a word"
    assume wf: "bus_wf s"
    show "is_ok (bus_write s a v) = is_ok (bus_read s a :: (OutOfBounds, 'a word) result)"
      by (simp add: bus_read_eq[OF wf pos] bus_write_eq[OF wf pos])
    assume w: "bus_write s a v = Inr s'"
    then show wf': "bus_wf s'" using wf bus_write_layout(3) by blast
    from w have in_mem: "in_memory s a (elem_size TYPE('a word))"
      and s': "s' = s\<lparr>bus_memory := (bus_memory s)\<lparr>mm_data :=
        dyn_region_write (mm_data (bus_memory s)) (unat a - DEV) v\<rparr>\<rparr>"
      by (simp_all add: bus_write_eq[OF wf pos] split: if_splits)
    then have same: "in_memory s' c n = in_memory s c n" for c n by (simp add: in_memory_def)
    show "bus_read s' a = Inr v"
      by (simp add: bus_read_eq[OF wf' pos] same in_mem) (simp add: s' dyn_region_read_write_same[OF assms])
    assume "unat a + elem_size TYPE('a word) \<le> unat b \<or> unat b + elem_size TYPE('a word) \<le> unat a"
    with in_mem show "bus_read s' b = (bus_read s b :: (OutOfBounds, 'a word) result)"
      unfolding bus_read_eq[OF wf' pos] bus_read_eq[OF wf pos] same
      by (auto simp: s' in_memory_def intro!: dyn_region_read_write_disjoint)
  qed
qed

interpretation bus8: addressable "bus_read :: Bus \<Rightarrow> Address \<Rightarrow> (OutOfBounds, u8) result" bus_write bus_wf
  by (rule bus_addressable) simp

interpretation bus16: addressable "bus_read :: Bus \<Rightarrow> Address \<Rightarrow> (OutOfBounds, u16) result" bus_write bus_wf
  by (rule bus_addressable) simp

interpretation bus32: addressable "bus_read :: Bus \<Rightarrow> Address \<Rightarrow> (OutOfBounds, u32) result" bus_write bus_wf
  by (rule bus_addressable) simp

interpretation bus64: addressable "bus_read :: Bus \<Rightarrow> Address \<Rightarrow> (OutOfBounds, u64) result" bus_write bus_wf
  by (rule bus_addressable) simp

text \<open>A store of one width leaves the bytes around it as they were.\<close>

lemma bus_read_write_disjoint:
  fixes v :: "'a::len word"
  assumes "bus_wf s" "8 dvd LENGTH('a)" "8 dvd LENGTH('b::len)" "bus_write s a v = Inr s'"
    and "unat a + LENGTH('a) div 8 \<le> unat b \<or> unat b + LENGTH('b) div 8 \<le> unat a"
  shows "bus_read s' b = (bus_read s b :: (OutOfBounds, 'b word) result)"
proof -
  have pos: "0 < elem_size TYPE('a word)" "0 < elem_size TYPE('b word)"
    using assms(2,3) by (simp_all add: elem_size_pos)
  have wf': "bus_wf s'" using assms(1,4) bus_write_layout(3) by blast
  from assms(4) have "in_memory s a (elem_size TYPE('a word))"
    and s': "s' = s\<lparr>bus_memory := (bus_memory s)\<lparr>mm_data :=
      dyn_region_write (mm_data (bus_memory s)) (unat a - DEV) v\<rparr>\<rparr>"
    by (simp_all add: bus_write_eq[OF assms(1) pos(1)] split: if_splits)
  with assms(5) show ?thesis
    unfolding bus_read_eq[OF wf' pos(2)] bus_read_eq[OF assms(1) pos(2)]
    by (auto simp: in_memory_def elem_size_def intro!: dyn_region_read_write_disjoint)
qed

section \<open>Reset and bulk access\<close>

lemma fold_reset_bytes:
  "fold (\<lambda>i d. dyn_region_write d i (0 :: u8)) [0..<n] d k = (if k < n then 0 else d k)"
  by (induction n arbitrary: d) (auto simp: dyn_region_write_def elem_size_def to_stored_def less_Suc_eq)

lemma mm_reset_zero: "i < mm_BYTES m \<Longrightarrow> mm_data (mm_reset m) i = 0"
  by (simp add: mm_reset_def fold_reset_bytes)

lemma mm_BYTES_reset [simp]: "mm_BYTES (mm_reset m) = mm_BYTES m"
  by (simp add: mm_reset_def)

lemma mm_eq_iff: "mm_eq m m' \<longleftrightarrow> (\<forall>i < mm_BYTES m. mm_data m i = mm_data m' i)"
  by (auto simp: mm_eq_def list_all_iff dyn_region_byte)

lemma dyn_region_write_all_outside:
  fixes vs :: "'a::len word list"
  shows "k < a \<or> a + length vs * elem_size TYPE('a word) \<le> k \<Longrightarrow> dyn_region_write_all vs r a k = r k"
  by (induction vs arbitrary: r a) (auto simp: dyn_region_write_def)

lemma dyn_region_write_all_bytes:
  fixes vs :: "u8 list"
  shows "i < length vs \<Longrightarrow> dyn_region_write_all vs r a (a + i) = vs ! i"
proof (induction vs arbitrary: r a i)
  case (Cons v vs)
  show ?case
  proof (cases i)
    case 0
    then show ?thesis
      by (simp add: dyn_region_write_all_outside elem_size_def dyn_region_write_def to_stored_def)
  next
    case (Suc j)
    then show ?thesis using Cons.IH[of j "dyn_region_write r a v" "a + 1"] Cons.prems
      by (simp add: elem_size_def)
  qed
qed simp

lemma mm_write_read_all_bytes:
  fixes vs :: "u8 list"
  assumes "mm_write_all m addr vs = Inr m'"
  shows "mm_read_all m' addr (length vs) = Inr vs"
proof -
  from assms have "unat addr + length vs \<le> mm_BYTES m"
    and m': "m' = m\<lparr>mm_data := dyn_region_write_all vs (mm_data m) (unat addr)\<rparr>"
    by (auto simp: mm_write_all_def elem_size_def split: if_splits)
  moreover have "map (\<lambda>k. dyn_region_write_all vs (mm_data m) (unat addr) (unat addr + k)) [0..<length vs] = vs"
    by (rule nth_equalityI) (simp_all add: dyn_region_write_all_bytes)
  ultimately show ?thesis
    by (simp add: mm_read_all_def dyn_region_read_all_def elem_size_def dyn_region_byte)
qed

lemma mm_write_all_BYTES: "mm_write_all m addr vs = Inr m' \<Longrightarrow> mm_BYTES m' = mm_BYTES m"
  by (auto simp: mm_write_all_def split: if_splits)

lemma bus_write_read_all_bytes:
  fixes vs :: "u8 list"
  assumes "bus_write_all b addr vs = Inr b'"
  shows "bus_read_all b' addr (length vs) = Inr vs"
proof -
  obtain sp la la' where l: "locate (bus_BYTES b) addr = (sp, la)"
    "locate (bus_BYTES b) (addr + of_nat (length vs - 1)) = (sp, la')"
    using assms by (auto simp: bus_write_all_def Let_def elem_size_def split: prod.splits if_splits)
  with assms obtain m' where "sp = SpaceMainMemory" "mm_write_all (bus_memory b) la vs = Inr m'"
    "b' = b\<lparr>bus_memory := m'\<rparr>"
    by (cases sp) (auto simp: bus_write_all_def Let_def elem_size_def devices_write_all_def map_ok_def
        split: sum.splits)
  with l show ?thesis
    by (simp add: bus_read_all_def Let_def elem_size_def mm_write_all_BYTES mm_write_read_all_bytes)
qed

lemma bus_read_write_ok:
  fixes v w :: "'a::len word"
  assumes "bus_read b addr = Inr v"
  shows "\<exists>b'. bus_write b addr w = Inr b'"
  using assms
  by (auto simp: bus_read_def bus_write_def mm_read_def mm_write_def devices_read_def
      split: prod.splits AddressSpace.splits if_splits)

end
