(* ===== verification/Hart.thy ===== *)
theory Hart
  imports Registers CSRegisters
begin

text \<open>
  The hart: \<^verbatim>\<open>machine_state/hart_state.rs\<close> and the reservation set of load-reserved
  and store-conditional, \<^verbatim>\<open>machine_state/reservation_set.rs\<close>.  Taking a trap
  returns the handler's address together with the new hart state.
\<close>

section \<open>Reservation set\<close>

type_synonym ReservationSet = u64

definition RESERVATION_SIZE :: u64 where
  "RESERVATION_SIZE = 8"

definition UNSET_VALUE :: u64 where
  "UNSET_VALUE = - 1"

definition align_address :: "u64 \<Rightarrow> u64 \<Rightarrow> u64" where
  "align_address address align =
     (let offset = address mod align in
      if offset > 0 then address + align - offset else address)"

definition reservation_reset :: "ReservationSet \<Rightarrow> ReservationSet" where
  "reservation_reset r = UNSET_VALUE"

definition reservation_set :: "u64 \<Rightarrow> ReservationSet \<Rightarrow> ReservationSet" where
  "reservation_set addr r = align_address addr RESERVATION_SIZE"

definition test_and_unset :: "u64 \<Rightarrow> ReservationSet \<Rightarrow> bool \<times> ReservationSet" where
  "test_and_unset addr r =
     (let start_addr = r;
          r' = reservation_reset r
      in (start_addr \<noteq> UNSET_VALUE \<and> start_addr = align_address addr RESERVATION_SIZE, r'))"

section \<open>Hart state\<close>

record HartState =
  hart_xregs :: XRegisters
  hart_fregs :: FRegisters
  hart_csrs :: CSRegisters
  hart_mode :: Mode
  hart_pc :: Address
  hart_reservation :: ReservationSet

definition hart_reset :: "Address \<Rightarrow> HartState \<Rightarrow> HartState" where
  "hart_reset new_pc h =
     h\<lparr>hart_xregs := xr_reset (hart_xregs h),
       hart_fregs := fr_reset (hart_fregs h),
       hart_csrs := csr_reset (hart_csrs h),
       hart_mode := Machine,
       hart_pc := new_pc,
       hart_reservation := reservation_reset (hart_reservation h)\<rparr>"

fun trap_csrs :: "TrapMode \<Rightarrow> CSRegister \<times> CSRegister \<times> CSRegister \<times> CSRegister" where
  "trap_csrs TrapSupervisor = (CSR_stvec, CSR_sepc, CSR_scause, CSR_stval)"
| "trap_csrs TrapMachine = (CSR_mtvec, CSR_mepc, CSR_mcause, CSR_mtval)"

text \<open>The \<^verbatim>\<open>unreachable!\<close> branch of the source is the value \<^term>\<open>None\<close>.\<close>

fun spp_of_mode :: "Mode \<Rightarrow> SPPValue option" where
  "spp_of_mode User = Some SPP_User"
| "spp_of_mode Supervisor = Some SPP_Supervisor"
| "spp_of_mode Machine = None"

fun mpp_of_mode :: "Mode \<Rightarrow> MPPValue" where
  "mpp_of_mode User = MPP_User"
| "mpp_of_mode Supervisor = MPP_Supervisor"
| "mpp_of_mode Machine = MPP_Machine"

definition trap_mstatus :: "TrapMode \<Rightarrow> Mode \<Rightarrow> u64 \<Rightarrow> u64" where
  "trap_mstatus trap_mode current_mode mstatus =
     (case trap_mode of
        TrapSupervisor \<Rightarrow>
          let interrupts_enabled = MStatus_sie mstatus;
              mstatus = MStatus_with_spie interrupts_enabled mstatus;
              mstatus = MStatus_with_sie False mstatus
          in MStatus_with_spp (the (spp_of_mode current_mode)) mstatus
      | TrapMachine \<Rightarrow>
          let interrupts_enabled = MStatus_mie mstatus;
              mstatus = MStatus_with_mpie interrupts_enabled mstatus;
              mstatus = MStatus_with_mie False mstatus
          in MStatus_with_mpp (mpp_of_mode current_mode) mstatus)"

definition take_trap_from_mode :: "Trap \<Rightarrow> Mode \<Rightarrow> Address \<Rightarrow> HartState \<Rightarrow> Address \<times> HartState" where
  "take_trap_from_mode trap_source current_mode return_pc h =
     (let csrs = hart_csrs h;
          trap_mode = get_trap_mode csrs trap_source current_mode;
          (xtvec_reg, xepc_reg, xcause_reg, xtval_reg) = trap_csrs trap_mode;
          csrs = csr_write csrs xepc_reg return_pc;
          csrs = csr_write csrs xcause_reg (trap_xcause trap_source);
          csrs = csr_write csrs xtval_reg (trap_xtval trap_source);
          mstatus = MStatus_from_bits (csr_read csrs CSR_mstatus);
          mstatus = trap_mstatus trap_mode current_mode mstatus;
          csrs = csr_write csrs CSR_mstatus mstatus;
          h = h\<lparr>hart_csrs := csrs, hart_mode := as_mode trap_mode\<rparr>
      in (trap_handler_address trap_source (csr_read csrs xtvec_reg), h))"

definition take_trap :: "Trap \<Rightarrow> Address \<Rightarrow> HartState \<Rightarrow> Address \<times> HartState" where
  "take_trap trap_source return_pc h = take_trap_from_mode trap_source (hart_mode h) return_pc h"

definition get_pending_interrupt :: "Mode \<Rightarrow> HartState \<Rightarrow> Interrupt option" where
  "get_pending_interrupt current_mode h = None"

section \<open>Reservations\<close>

lemma test_and_unset_clears: "snd (test_and_unset a r) = UNSET_VALUE"
  by (simp add: test_and_unset_def reservation_reset_def)

lemma test_and_unset_unset [simp]: "\<not> fst (test_and_unset a UNSET_VALUE)"
  by (simp add: test_and_unset_def)

lemma align_address_aligned:
  assumes "unat a mod 8 = 0"
  shows "align_address a 8 = a"
proof -
  have "a mod 8 = 0" using assms by (simp add: word_unat_eq_iff unat_mod)
  then show ?thesis by (simp add: align_address_def)
qed

lemma align_address_up:
  assumes "unat a mod 8 \<noteq> 0" "unat a + 8 < 2 ^ 64"
  shows "unat (align_address a 8) = unat a + 8 - unat a mod 8"
proof -
  have m: "unat (a mod 8) = unat a mod 8" by (simp add: unat_mod)
  have gt: "a mod 8 > 0" using assms(1) m by (metis unat_0 word_gt_0)
  have s: "unat (a + 8) = unat a + 8"
    using assms(2) by (simp add: unat_add_lem[THEN iffD1])
  have "a mod 8 \<le> a + 8"
    using s m by (simp add: word_le_nat_alt)
  then have "unat (a + 8 - a mod 8) = unat a + 8 - unat a mod 8"
    using s m by (simp add: unat_sub)
  then show ?thesis using gt by (simp add: align_address_def Let_def)
qed

lemma lr_sc_aligned_success:
  assumes "unat a mod 8 = 0" "unat b mod 8 = 0" "a \<noteq> UNSET_VALUE"
  shows "fst (test_and_unset b (reservation_set a r)) \<longleftrightarrow> a = b"
  using assms by (auto simp: test_and_unset_def reservation_set_def RESERVATION_SIZE_def align_address_aligned)

section \<open>Taking a trap\<close>

lemma mcause_legal: "is_legal CSR_mcause (trap_xcause t)"
proof (cases t)
  case (TrapExc e)
  then show ?thesis
    by (cases e) (simp_all add: is_legal_def legal_values_def WLRL_MCAUSE_VALUES_def exc_xcause_def)
next
  case (TrapInt i)
  then show ?thesis
    by (cases i) (simp_all add: is_legal_def legal_values_def WLRL_MCAUSE_VALUES_def int_xcause_def
        int_exception_code_def INTERRUPT_BIT_def)
qed

lemma get_trap_mode_supervisor: "get_trap_mode s t m = TrapSupervisor \<Longrightarrow> m \<noteq> Machine"
  by (auto simp: get_trap_mode_def less_eq_Mode_def)

lemma spp_of_mode_reachable: "get_trap_mode s t m = TrapSupervisor \<Longrightarrow> \<exists>v. spp_of_mode m = Some v"
  using get_trap_mode_supervisor by (cases m) auto

lemma trap_csrs_roots:
  assumes "trap_csrs tm = (tvec, epc, cause, tval)"
  shows "root_of tvec = tvec" "root_of epc = epc" "root_of cause = cause" "root_of tval = tval"
    "tvec \<noteq> CSR_mstatus" "epc \<noteq> CSR_mstatus" "cause \<noteq> CSR_mstatus" "tval \<noteq> CSR_mstatus"
    "distinct [tvec, epc, cause, tval]"
  using assms by (cases tm; auto simp: root_of_def)+

lemma bits_subset_and:
  fixes v m :: "'a::len word"
  assumes "stop \<le> start" "\<forall>i. stop \<le> i \<and> i \<le> start \<and> i < LENGTH('a) \<longrightarrow> bit m i"
  shows "bits_subset (v AND m) start stop = bits_subset v start stop"
  using assms by (intro word_bits_eqI) (auto simp: bit_bits_subset bit_and_iff dest: bit_word_lt)

lemma csr_get_and:
  assumes "\<forall>i. accum \<le> i \<and> i \<le> accum + (width - 1) \<longrightarrow> bit m i"
  shows "csr_get f width accum (v AND m) = csr_get f width accum v"
  using assms by (simp add: csr_get_def Let_def bits_subset_and)

lemma bit_WPRI_MASK_MSTATUS:
  "i < 64 \<Longrightarrow> i \<notin> {0, 2, 4} \<Longrightarrow> \<not> (23 \<le> i \<and> i < 32) \<Longrightarrow> \<not> (38 \<le> i \<and> i < 63) \<Longrightarrow> bit WPRI_MASK_MSTATUS i"
  by (auto simp: WPRI_MASK_MSTATUS_def bit_not_iff bit_and_iff bit_push_bit_iff bit_ones)

lemma MStatus_get_wpri:
  "MStatus_sie (v AND WPRI_MASK_MSTATUS) = MStatus_sie v" "MStatus_mie (v AND WPRI_MASK_MSTATUS) = MStatus_mie v"
  "MStatus_spie (v AND WPRI_MASK_MSTATUS) = MStatus_spie v" "MStatus_ube (v AND WPRI_MASK_MSTATUS) = MStatus_ube v"
  "MStatus_mpie (v AND WPRI_MASK_MSTATUS) = MStatus_mpie v" "MStatus_spp (v AND WPRI_MASK_MSTATUS) = MStatus_spp v"
  "MStatus_mpp (v AND WPRI_MASK_MSTATUS) = MStatus_mpp v" "MStatus_fs (v AND WPRI_MASK_MSTATUS) = MStatus_fs v"
  "MStatus_xs (v AND WPRI_MASK_MSTATUS) = MStatus_xs v" "MStatus_mprv (v AND WPRI_MASK_MSTATUS) = MStatus_mprv v"
  "MStatus_sum (v AND WPRI_MASK_MSTATUS) = MStatus_sum v" "MStatus_mxr (v AND WPRI_MASK_MSTATUS) = MStatus_mxr v"
  "MStatus_tvm (v AND WPRI_MASK_MSTATUS) = MStatus_tvm v" "MStatus_tw (v AND WPRI_MASK_MSTATUS) = MStatus_tw v"
  "MStatus_tsr (v AND WPRI_MASK_MSTATUS) = MStatus_tsr v" "MStatus_uxl (v AND WPRI_MASK_MSTATUS) = MStatus_uxl v"
  "MStatus_sxl (v AND WPRI_MASK_MSTATUS) = MStatus_sxl v" "MStatus_sbe (v AND WPRI_MASK_MSTATUS) = MStatus_sbe v"
  "MStatus_mbe (v AND WPRI_MASK_MSTATUS) = MStatus_mbe v" "MStatus_sd (v AND WPRI_MASK_MSTATUS) = MStatus_sd v"
  by (intro csr_get_and allI impI bit_WPRI_MASK_MSTATUS; force)+

lemma mstatus_write_cong:
  assumes "MStatus_from_bits v = MStatus_from_bits w"
  shows "mstatus_write v s = mstatus_write w s"
  using assms by (simp only: mstatus_write_def)

lemma mstatus_write_normalised:
  "mstatus_write (MStatus_normalise (MStatus_from_bits (v AND WPRI_MASK_MSTATUS))) s = mstatus_write v s"
proof -
  have "mstatus_write (MStatus_normalise (MStatus_from_bits (v AND WPRI_MASK_MSTATUS))) s =
    mstatus_write (mstatus_read (mstatus_write (v AND WPRI_MASK_MSTATUS) s)) s"
    by (simp only: mstatus_read_write)
  also have "\<dots> = mstatus_write (v AND WPRI_MASK_MSTATUS) s" by simp
  also have "\<dots> = mstatus_write v s"
    by (rule mstatus_write_cong) (simp only: MStatus_from_bits_new MStatus_get_wpri)
  finally show ?thesis .
qed

lemma csr_write_mstatus_eq:
  "csr_write s CSR_mstatus v = s\<lparr>csr_mstatus := mstatus_write v (csr_mstatus s)\<rparr>"
  by (simp add: csr_write_def make_value_writable_def transform_warl_fields_def is_legal_def legal_values_def
      transform_write_def root_of_def general_raw_write_def clear_wpri_fields_def wpri_mask_def
      mstatus_write_normalised)

lemma csr_read_mstatus_eq: "csr_read s CSR_mstatus = mstatus_read (csr_mstatus s)"
  by (simp add: csr_read_def transform_read_def root_of_def general_raw_read_def)

definition trap_status :: "TrapMode \<Rightarrow> Mode \<Rightarrow> MStatusValue \<Rightarrow> MStatusValue" where
  "trap_status tm mode m =
     (case tm of
        TrapSupervisor \<Rightarrow> m\<lparr>ms_spie := ms_sie m, ms_sie := False, ms_spp := the (spp_of_mode mode)\<rparr>
      | TrapMachine \<Rightarrow> m\<lparr>ms_mpie := ms_mie m, ms_mie := False, ms_mpp := mpp_of_mode mode\<rparr>)"

lemma trap_mstatus_write:
  "mstatus_write (trap_mstatus tm mode (mstatus_read m)) m' = trap_status tm mode m"
  for m m' :: MStatusValue
  by (cases tm) (simp_all add: trap_mstatus_def trap_status_def Let_def mstatus_write_def csr_simps)

lemma csr_write_epc:
  "make_value_writable CSR_mepc v = Some (v AND NOT 1)" "make_value_writable CSR_sepc v = Some (v AND NOT 1)"
  by (simp_all add: make_value_writable_def transform_warl_fields_def is_legal_def legal_values_def
      clear_wpri_fields_def wpri_mask_def WPRI_MASK_EMPTY_def WARL_MASK_XEPC_def)

lemma csr_write_tval:
  "make_value_writable CSR_mtval v = Some v" "make_value_writable CSR_stval v = Some v"
  by (simp_all add: make_value_writable_def transform_warl_fields_def is_legal_def legal_values_def
      clear_wpri_fields_def wpri_mask_def WPRI_MASK_EMPTY_def)

lemma csr_write_cause:
  "make_value_writable CSR_mcause v = (if is_legal CSR_mcause v then Some v else None)"
  "make_value_writable CSR_scause v = (if is_legal CSR_scause v then Some v else None)"
  by (simp_all add: make_value_writable_def transform_warl_fields_def
      clear_wpri_fields_def wpri_mask_def WPRI_MASK_EMPTY_def)

lemma take_trap_from_mode_eq:
  assumes "trap_csrs (get_trap_mode (hart_csrs h) t mode) = (tvec, epc, cause, tval)"
  shows "take_trap_from_mode t mode ret h =
    (let tm = get_trap_mode (hart_csrs h) t mode;
         c = csr_write (csr_write (csr_write (hart_csrs h) epc ret) cause (trap_xcause t)) tval (trap_xtval t)
     in (trap_handler_address t (csr_read (hart_csrs h) tvec),
         h\<lparr>hart_csrs := c\<lparr>csr_mstatus := trap_status tm mode (csr_mstatus (hart_csrs h))\<rparr>,
           hart_mode := as_mode tm\<rparr>))"
proof -
  note r = trap_csrs_roots[OF assms]
  define c where "c = csr_write (csr_write (csr_write (hart_csrs h) epc ret) cause (trap_xcause t)) tval (trap_xtval t)"
  have m: "csr_mstatus c = csr_mstatus (hart_csrs h)"
    using r by (simp add: c_def csr_write_mstatus_other)
  have w: "csr_write c CSR_mstatus (trap_mstatus (get_trap_mode (hart_csrs h) t mode) mode
      (MStatus_from_bits (csr_read c CSR_mstatus))) =
    c\<lparr>csr_mstatus := trap_status (get_trap_mode (hart_csrs h) t mode) mode (csr_mstatus (hart_csrs h))\<rparr>"
    by (simp add: csr_write_mstatus_eq csr_read_mstatus_eq trap_mstatus_write m)
  have "csr_read (csr_write c CSR_mstatus v) tvec = csr_read (hart_csrs h) tvec" for v
    using r by (simp add: c_def csr_read_write_other_root root_of_def[of CSR_mstatus])
  from this[of "trap_mstatus (get_trap_mode (hart_csrs h) t mode) mode (MStatus_from_bits (csr_read c CSR_mstatus))"]
  show ?thesis
    unfolding take_trap_from_mode_def Let_def assms prod.case c_def[symmetric] w by simp
qed

lemma csr_raw_mstatus_update [simp]:
  "root_of q \<noteq> CSR_mstatus \<Longrightarrow> csr_read (s\<lparr>csr_mstatus := m\<rparr>) q = csr_read s q"
  by (rule csr_read_cong) (simp add: general_raw_read_def)

lemma take_trap_saved_registers:
  assumes "take_trap_from_mode t mode ret h = (addr, h')"
    and "trap_csrs (get_trap_mode (hart_csrs h) t mode) = (tvec, epc, cause, tval)"
  shows "csr_read (hart_csrs h') epc = ret AND NOT 1"
    and "csr_read (hart_csrs h') tval = trap_xtval t"
    and "csr_read (hart_csrs h') tvec = csr_read (hart_csrs h) tvec"
    and "is_legal cause (trap_xcause t) \<Longrightarrow> csr_read (hart_csrs h') cause = trap_xcause t"
proof -
  note r = trap_csrs_roots[OF assms(2)]
  note eq = take_trap_from_mode_eq[OF assms(2), of ret, unfolded assms(1) Let_def]
  have l: "legalised epc w = w" "legalised cause w = w" "legalised tval w = w" for w
    using assms(2) by (cases "get_trap_mode (hart_csrs h) t mode"; auto simp: legalised_def)+
  have mk: "make_value_writable epc ret = Some (ret AND NOT 1)" "make_value_writable tval v = Some v"
    "make_value_writable cause v = (if is_legal cause v then Some v else None)" for v
    using assms(2) by (cases "get_trap_mode (hart_csrs h) t mode";
        auto simp: csr_write_epc[simplified] csr_write_tval csr_write_cause)+
  show "csr_read (hart_csrs h') epc = ret AND NOT 1"
    using eq r by (simp add: csr_read_write_other_root csr_read_write_same mk(1)[simplified] l)
  show "csr_read (hart_csrs h') tval = trap_xtval t"
    using eq r by (simp add: csr_read_write_other_root csr_read_write_same mk(2) l)
  show "csr_read (hart_csrs h') tvec = csr_read (hart_csrs h) tvec"
    using eq r by (simp add: csr_read_write_other_root)
  show "csr_read (hart_csrs h') cause = trap_xcause t" if "is_legal cause (trap_xcause t)"
    using eq r that by (simp add: csr_read_write_other_root csr_read_write_same mk(3) l)
qed

lemma take_trap_frame:
  assumes "take_trap_from_mode t mode ret h = (addr, h')"
  shows "hart_xregs h' = hart_xregs h" "hart_fregs h' = hart_fregs h" "hart_pc h' = hart_pc h"
    "hart_reservation h' = hart_reservation h"
    "hart_mode h' = as_mode (get_trap_mode (hart_csrs h) t mode)"
    "csr_mstatus (hart_csrs h') = trap_status (get_trap_mode (hart_csrs h) t mode) mode (csr_mstatus (hart_csrs h))"
    "addr = get_trap_handler (hart_csrs h) t (get_trap_mode (hart_csrs h) t mode)"
proof -
  obtain tvec epc cause tval where *: "trap_csrs (get_trap_mode (hart_csrs h) t mode) = (tvec, epc, cause, tval)"
    by (metis prod_cases4)
  have "tvec = (case get_trap_mode (hart_csrs h) t mode of TrapSupervisor \<Rightarrow> CSR_stvec | TrapMachine \<Rightarrow> CSR_mtvec)"
    using * by (cases "get_trap_mode (hart_csrs h) t mode") auto
  then show "hart_xregs h' = hart_xregs h" "hart_fregs h' = hart_fregs h" "hart_pc h' = hart_pc h"
    "hart_reservation h' = hart_reservation h"
    "hart_mode h' = as_mode (get_trap_mode (hart_csrs h) t mode)"
    "csr_mstatus (hart_csrs h') = trap_status (get_trap_mode (hart_csrs h) t mode) mode (csr_mstatus (hart_csrs h))"
    "addr = get_trap_handler (hart_csrs h) t (get_trap_mode (hart_csrs h) t mode)"
    using take_trap_from_mode_eq[OF *, of ret, unfolded assms Let_def]
    by (simp_all add: get_trap_handler_def)
qed

lemma take_trap_privilege:
  "take_trap_from_mode t (hart_mode h) ret h = (addr, h') \<Longrightarrow> hart_mode h \<le> hart_mode h'"
  using take_trap_frame(5) get_trap_mode_not_lower by metis

section \<open>Trap entry as the privileged specification states it\<close>

text \<open>A trap goes to supervisor mode when it comes from a lower mode than machine mode and its bit in the
  delegation register is set.\<close>

definition delegated :: "HartState \<Rightarrow> Trap \<Rightarrow> bool" where
  "delegated h t \<longleftrightarrow> hart_mode h \<noteq> Machine
     \<and> bit (csr_read (hart_csrs h) (case t of TrapExc _ \<Rightarrow> CSR_medeleg | TrapInt _ \<Rightarrow> CSR_mideleg))
         (unat (trap_exception_code t))"

text \<open>The cause: the code, with the top bit set for interrupts.  The handler: the base of the trap vector,
  and in its vectored mode the entry of an interrupt.\<close>

definition spec_cause :: "Trap \<Rightarrow> u64" where
  "spec_cause t = (case t of TrapExc _ \<Rightarrow> 0 | TrapInt _ \<Rightarrow> 2 ^ 63) + trap_exception_code t"

definition spec_handler :: "Trap \<Rightarrow> u64 \<Rightarrow> Address" where
  "spec_handler t tvec = (tvec AND NOT 3)
     + (case t of TrapExc _ \<Rightarrow> 0 | TrapInt _ \<Rightarrow> if tvec AND 3 = 1 then 4 * trap_exception_code t else 0)"

text \<open>The causes that \<^verbatim>\<open>scause\<close> does not take: they belong to machine mode.\<close>

definition machine_only :: "Trap \<Rightarrow> bool" where
  "machine_only t \<longleftrightarrow>
     t \<in> {TrapExc EnvCallFromMMode, TrapInt MachineSoftware, TrapInt MachineTimer, TrapInt MachineExternal}"

lemma get_trap_mode_delegated:
  "get_trap_mode (hart_csrs h) t (hart_mode h) = (if delegated h t then TrapSupervisor else TrapMachine)"
  by (cases "hart_mode h"; cases t)
    (simp_all add: get_trap_mode_def delegated_def less_eq_Mode_def exc_kind_def int_kind_def bit_at_iff Let_def)

lemma trap_cause_spec: "trap_xcause t = spec_cause t"
proof (cases t)
  case (TrapExc e)
  then show ?thesis by (simp add: spec_cause_def exc_xcause_def)
next
  case (TrapInt i)
  then show ?thesis
    by (cases i) (simp_all add: spec_cause_def int_xcause_def int_exception_code_def)
qed

lemma trap_handler_spec: "trap_handler_address t tvec = spec_handler t tvec"
  by (cases t) (simp_all add: spec_handler_def exc_trap_handler_address_def int_trap_handler_address_def Let_def)

lemma scause_legal: "is_legal CSR_scause (trap_xcause t) \<longleftrightarrow> \<not> machine_only t"
proof (cases t)
  case (TrapExc e)
  then show ?thesis
    by (cases e) (simp_all add: is_legal_def legal_values_def WLRL_SCAUSE_VALUES_def machine_only_def exc_xcause_def
        INTERRUPT_BIT_def)
next
  case (TrapInt i)
  then show ?thesis
    by (cases i) (simp_all add: is_legal_def legal_values_def WLRL_SCAUSE_VALUES_def machine_only_def int_xcause_def
        int_exception_code_def INTERRUPT_BIT_def)
qed

lemma take_trap_cause_kept:
  assumes "take_trap_from_mode t mode ret h = (addr, h')"
    and "trap_csrs (get_trap_mode (hart_csrs h) t mode) = (tvec, epc, cause, tval)"
    and "\<not> is_legal cause (trap_xcause t)"
  shows "csr_read (hart_csrs h') cause = csr_read (hart_csrs h) cause"
proof -
  note r = trap_csrs_roots [OF assms(2)]
  note eq = take_trap_from_mode_eq [OF assms(2), of ret, unfolded assms(1) Let_def]
  have "make_value_writable cause (trap_xcause t) = None"
    using assms(2,3) by (cases "get_trap_mode (hart_csrs h) t mode") (auto simp: csr_write_cause)
  moreover have "cause \<noteq> epc" using r(9) by auto
  ultimately show ?thesis using eq r by (simp add: csr_read_write_other_root csr_read_write_same)
qed

lemma take_trap_machine:
  assumes "take_trap t ret h = (addr, h')" "\<not> delegated h t"
  shows "hart_mode h' = Machine" "addr = spec_handler t (csr_read (hart_csrs h) CSR_mtvec)"
    "csr_read (hart_csrs h') CSR_mepc = ret AND NOT 1" "csr_read (hart_csrs h') CSR_mcause = spec_cause t"
    "csr_read (hart_csrs h') CSR_mtval = trap_xtval t"
    "csr_mstatus (hart_csrs h') = (csr_mstatus (hart_csrs h))\<lparr>ms_mpie := ms_mie (csr_mstatus (hart_csrs h)),
       ms_mie := False, ms_mpp := mpp_of_mode (hart_mode h)\<rparr>"
proof -
  have tt: "take_trap_from_mode t (hart_mode h) ret h = (addr, h')" using assms(1) by (simp add: take_trap_def)
  have m: "get_trap_mode (hart_csrs h) t (hart_mode h) = TrapMachine"
    using assms(2) by (simp add: get_trap_mode_delegated)
  note f = take_trap_frame [OF tt, unfolded m]
  have c: "trap_csrs (get_trap_mode (hart_csrs h) t (hart_mode h)) = (CSR_mtvec, CSR_mepc, CSR_mcause, CSR_mtval)"
    by (simp add: m)
  note s = take_trap_saved_registers [OF tt c]
  show "hart_mode h' = Machine" using f(5) by simp
  show "addr = spec_handler t (csr_read (hart_csrs h) CSR_mtvec)"
    using f(7) by (simp add: get_trap_handler_def trap_handler_spec)
  show "csr_read (hart_csrs h') CSR_mepc = ret AND NOT 1" "csr_read (hart_csrs h') CSR_mtval = trap_xtval t"
    by (rule s)+
  show "csr_read (hart_csrs h') CSR_mcause = spec_cause t" using s(4) [OF mcause_legal] by (simp add: trap_cause_spec)
  show "csr_mstatus (hart_csrs h') = (csr_mstatus (hart_csrs h))\<lparr>ms_mpie := ms_mie (csr_mstatus (hart_csrs h)),
       ms_mie := False, ms_mpp := mpp_of_mode (hart_mode h)\<rparr>"
    using f(6) by (simp add: trap_status_def)
qed

lemma take_trap_supervisor:
  assumes "take_trap t ret h = (addr, h')" "delegated h t"
  shows "hart_mode h' = Supervisor" "addr = spec_handler t (csr_read (hart_csrs h) CSR_stvec)"
    "csr_read (hart_csrs h') CSR_sepc = ret AND NOT 1"
    "csr_read (hart_csrs h') CSR_scause = (if machine_only t then csr_read (hart_csrs h) CSR_scause else spec_cause t)"
    "csr_read (hart_csrs h') CSR_stval = trap_xtval t"
    "csr_mstatus (hart_csrs h') = (csr_mstatus (hart_csrs h))\<lparr>ms_spie := ms_sie (csr_mstatus (hart_csrs h)),
       ms_sie := False, ms_spp := (if hart_mode h = User then SPP_User else SPP_Supervisor)\<rparr>"
proof -
  have tt: "take_trap_from_mode t (hart_mode h) ret h = (addr, h')" using assms(1) by (simp add: take_trap_def)
  have m: "get_trap_mode (hart_csrs h) t (hart_mode h) = TrapSupervisor"
    using assms(2) by (simp add: get_trap_mode_delegated)
  note f = take_trap_frame [OF tt, unfolded m]
  have c: "trap_csrs (get_trap_mode (hart_csrs h) t (hart_mode h)) = (CSR_stvec, CSR_sepc, CSR_scause, CSR_stval)"
    by (simp add: m)
  note s = take_trap_saved_registers [OF tt c]
  show "hart_mode h' = Supervisor" using f(5) by simp
  show "addr = spec_handler t (csr_read (hart_csrs h) CSR_stvec)"
    using f(7) by (simp add: get_trap_handler_def trap_handler_spec)
  show "csr_read (hart_csrs h') CSR_sepc = ret AND NOT 1" "csr_read (hart_csrs h') CSR_stval = trap_xtval t"
    by (rule s)+
  show "csr_read (hart_csrs h') CSR_scause
      = (if machine_only t then csr_read (hart_csrs h) CSR_scause else spec_cause t)"
    using s(4) take_trap_cause_kept [OF tt c] unfolding scause_legal unfolding trap_cause_spec by simp
  have "spp_of_mode (hart_mode h) = Some (if hart_mode h = User then SPP_User else SPP_Supervisor)"
    using assms(2) by (cases "hart_mode h") (simp_all add: delegated_def)
  then show "csr_mstatus (hart_csrs h') = (csr_mstatus (hart_csrs h))\<lparr>ms_spie := ms_sie (csr_mstatus (hart_csrs h)),
       ms_sie := False, ms_spp := (if hart_mode h = User then SPP_User else SPP_Supervisor)\<rparr>"
    using f(6) by (simp add: trap_status_def)
qed

end
