(* ===== verification/Instruction.thy ===== *)
theory Instruction
  imports CSRegisters Registers
begin

text \<open>
  The instruction type of the interpreter (parser/instruction.rs): the argument structs, the two
  enumerations of cacheable and uncacheable instructions, and the width of an instruction.  The
  170 constructors of \<^verbatim>\<open>InstrCacheable\<close> are grouped by the comments of the
  source into one datatype per group; every constructor keeps its name and its arguments.  The
  rounding modes of float.rs are here too, because the arguments carry them.
\<close>

section \<open>Rounding modes\<close>

datatype RoundingMode = RNE | RTZ | RDN | RUP | RMM

definition rounding_from_csrrepr :: "u64 \<Rightarrow> (Exception, RoundingMode) result" where
  "rounding_from_csrrepr value =
     (if value = 0b000 then Inr RNE
      else if value = 0b001 then Inr RTZ
      else if value = 0b010 then Inr RDN
      else if value = 0b011 then Inr RUP
      else if value = 0b100 then Inr RMM
      else Inl IllegalInstruction)"

datatype InstrRoundingMode = Dynamic | Static RoundingMode

definition from_rm :: "u32 \<Rightarrow> InstrRoundingMode option" where
  "from_rm rm =
     (if rm = 0b111 then Some Dynamic
      else case rounding_from_csrrepr (ucast rm) of Inr m \<Rightarrow> Some (Static m) | Inl _ \<Rightarrow> None)"

section \<open>Instruction arguments\<close>

datatype RTypeArgs = RTypeArgs (r_rd: XRegister) (r_rs1: XRegister) (r_rs2: XRegister)

datatype ITypeArgs = ITypeArgs (it_rd: XRegister) (it_rs1: XRegister) (it_imm: i64)

datatype SBTypeArgs = SBTypeArgs (sb_rs1: XRegister) (sb_rs2: XRegister) (sb_imm: i64)

datatype UJTypeArgs = UJTypeArgs (uj_rd: XRegister) (uj_imm: i64)

datatype CsrArgs = CsrArgs (ca_rd: XRegister) (ca_rs1: XRegister) (ca_csr: CSRegister)

datatype CsriArgs = CsriArgs (ci_rd: XRegister) (ci_imm: i64) (ci_csr: CSRegister)

datatype FenceSet = FenceSet (fence_i: bool) (fence_o: bool) (fence_r: bool) (fence_w: bool)

datatype FenceArgs = FenceArgs (fence_pred: FenceSet) (fence_succ: FenceSet)

datatype FRegToXRegArgs = FRegToXRegArgs (fx_rd: XRegister) (fx_rs1: FRegister)

datatype XRegToFRegArgs = XRegToFRegArgs (xf_rd: FRegister) (xf_rs1: XRegister)

datatype XRegToFRegArgsWithRounding =
  XRegToFRegArgsWithRounding (xfr_rd: FRegister) (xfr_rs1: XRegister) (xfr_rm: InstrRoundingMode)

datatype FRegToXRegArgsWithRounding =
  FRegToXRegArgsWithRounding (fxr_rd: XRegister) (fxr_rs1: FRegister) (fxr_rm: InstrRoundingMode)

datatype FCmpArgs = FCmpArgs (fc_rs1: FRegister) (fc_rs2: FRegister) (fc_rd: XRegister)

datatype FRArgs = FRArgs (fra_rs1: FRegister) (fra_rs2: FRegister) (fra_rd: FRegister)

datatype FR1ArgWithRounding =
  FR1ArgWithRounding (fr1_rs1: FRegister) (fr1_rm: InstrRoundingMode) (fr1_rd: FRegister)

datatype FR2ArgsWithRounding =
  FR2ArgsWithRounding (fr2_rs1: FRegister) (fr2_rs2: FRegister) (fr2_rm: InstrRoundingMode)
    (fr2_rd: FRegister)

datatype FR3ArgsWithRounding =
  FR3ArgsWithRounding (fr3_rs1: FRegister) (fr3_rs2: FRegister) (fr3_rs3: FRegister)
    (fr3_rm: InstrRoundingMode) (fr3_rd: FRegister)

datatype FStoreArgs = FStoreArgs (fs_rs1: XRegister) (fs_rs2: FRegister) (fs_imm: i64)

datatype FLoadArgs = FLoadArgs (fl_rs1: XRegister) (fl_rd: FRegister) (fl_imm: i64)

datatype AmoArgs =
  AmoArgs (am_rd: XRegister) (am_rs1: XRegister) (am_rs2: XRegister) (am_aq: bool) (am_rl: bool)

datatype CRTypeArgs = CRTypeArgs (cr_rd_rs1: XRegister) (cr_rs2: XRegister)

datatype CRJTypeArgs = CRJTypeArgs (crj_rs1: XRegister)

datatype CJTypeArgs = CJTypeArgs (cj_imm: i64)

datatype CIBTypeArgs = CIBTypeArgs (cib_rd_rs1: XRegister) (cib_imm: i64)

datatype CIBDTypeArgs = CIBDTypeArgs (cibd_rd_rs1: FRegister) (cibd_imm: i64)

datatype CSSTypeArgs = CSSTypeArgs (css_rs2: XRegister) (css_imm: i64)

datatype CSSDTypeArgs = CSSDTypeArgs (cssd_rs2: FRegister) (cssd_imm: i64)

section \<open>Instructions\<close>

datatype InstrR =
    Add RTypeArgs | Sub RTypeArgs | Xor RTypeArgs
  | Or RTypeArgs | And RTypeArgs | Sll RTypeArgs
  | Srl RTypeArgs | Sra RTypeArgs | Slt RTypeArgs
  | Sltu RTypeArgs | Addw RTypeArgs | Subw RTypeArgs
  | Sllw RTypeArgs | Srlw RTypeArgs | Sraw RTypeArgs

datatype InstrI =
    Addi ITypeArgs | Addiw ITypeArgs | Xori ITypeArgs
  | Ori ITypeArgs | Andi ITypeArgs | Slli ITypeArgs
  | Srli ITypeArgs | Srai ITypeArgs | Slliw ITypeArgs
  | Srliw ITypeArgs | Sraiw ITypeArgs | Slti ITypeArgs
  | Sltiu ITypeArgs | Lb ITypeArgs | Lh ITypeArgs
  | Lw ITypeArgs | Lbu ITypeArgs | Lhu ITypeArgs
  | Lwu ITypeArgs | Ld ITypeArgs

datatype InstrS =
    Sb SBTypeArgs | Sh SBTypeArgs | Sw SBTypeArgs
  | Sd SBTypeArgs

datatype InstrB =
    Beq SBTypeArgs | Bne SBTypeArgs | Blt SBTypeArgs
  | Bge SBTypeArgs | Bltu SBTypeArgs | Bgeu SBTypeArgs

datatype InstrU =
    Lui UJTypeArgs | Auipc UJTypeArgs

datatype InstrJ =
    Jal UJTypeArgs | Jalr ITypeArgs

datatype InstrA =
    Lrw AmoArgs | Scw AmoArgs | Amoswapw AmoArgs
  | Amoaddw AmoArgs | Amoxorw AmoArgs | Amoandw AmoArgs
  | Amoorw AmoArgs | Amominw AmoArgs | Amomaxw AmoArgs
  | Amominuw AmoArgs | Amomaxuw AmoArgs | Lrd AmoArgs
  | Scd AmoArgs | Amoswapd AmoArgs | Amoaddd AmoArgs
  | Amoxord AmoArgs | Amoandd AmoArgs | Amoord AmoArgs
  | Amomind AmoArgs | Amomaxd AmoArgs | Amominud AmoArgs
  | Amomaxud AmoArgs

datatype InstrM =
    Rem RTypeArgs | Remu RTypeArgs | Remw RTypeArgs
  | Remuw RTypeArgs | Div RTypeArgs | Divu RTypeArgs
  | Divw RTypeArgs | Divuw RTypeArgs | Mul RTypeArgs
  | Mulh RTypeArgs | Mulhsu RTypeArgs | Mulhu RTypeArgs
  | Mulw RTypeArgs

datatype InstrF =
    FclassS FRegToXRegArgs | Feqs FCmpArgs | Fles FCmpArgs
  | Flts FCmpArgs | Fadds FR2ArgsWithRounding | Fsubs FR2ArgsWithRounding
  | Fmuls FR2ArgsWithRounding | Fdivs FR2ArgsWithRounding | Fsqrts FR1ArgWithRounding
  | Fmins FRArgs | Fmaxs FRArgs | Fmadds FR3ArgsWithRounding
  | Fmsubs FR3ArgsWithRounding | Fnmsubs FR3ArgsWithRounding | Fnmadds FR3ArgsWithRounding
  | Flw FLoadArgs | Fsw FStoreArgs | Fcvtsw XRegToFRegArgsWithRounding
  | Fcvtswu XRegToFRegArgsWithRounding | Fcvtsl XRegToFRegArgsWithRounding | Fcvtslu XRegToFRegArgsWithRounding
  | Fcvtws FRegToXRegArgsWithRounding | Fcvtwus FRegToXRegArgsWithRounding | Fcvtls FRegToXRegArgsWithRounding
  | Fcvtlus FRegToXRegArgsWithRounding | Fsgnjs FRArgs | Fsgnjns FRArgs
  | Fsgnjxs FRArgs | FmvXW FRegToXRegArgs | FmvWX XRegToFRegArgs

datatype InstrD =
    FclassD FRegToXRegArgs | Feqd FCmpArgs | Fled FCmpArgs
  | Fltd FCmpArgs | Faddd FR2ArgsWithRounding | Fsubd FR2ArgsWithRounding
  | Fmuld FR2ArgsWithRounding | Fdivd FR2ArgsWithRounding | Fsqrtd FR1ArgWithRounding
  | Fmind FRArgs | Fmaxd FRArgs | Fmaddd FR3ArgsWithRounding
  | Fmsubd FR3ArgsWithRounding | Fnmsubd FR3ArgsWithRounding | Fnmaddd FR3ArgsWithRounding
  | Fld FLoadArgs | Fsd FStoreArgs | Fcvtdw XRegToFRegArgsWithRounding
  | Fcvtdwu XRegToFRegArgsWithRounding | Fcvtdl XRegToFRegArgsWithRounding | Fcvtdlu XRegToFRegArgsWithRounding
  | Fcvtds FR1ArgWithRounding | Fcvtsd FR1ArgWithRounding | Fcvtwd FRegToXRegArgsWithRounding
  | Fcvtwud FRegToXRegArgsWithRounding | Fcvtld FRegToXRegArgsWithRounding | Fcvtlud FRegToXRegArgsWithRounding
  | Fsgnjd FRArgs | Fsgnjnd FRArgs | Fsgnjxd FRArgs
  | FmvXD FRegToXRegArgs | FmvDX XRegToFRegArgs

datatype InstrCsr =
    Csrrw CsrArgs | Csrrs CsrArgs | Csrrc CsrArgs
  | Csrrwi CsriArgs | Csrrsi CsriArgs | Csrrci CsriArgs

datatype InstrC32 =
    CLw ITypeArgs | CLwsp CIBTypeArgs | CSw SBTypeArgs
  | CSwsp CSSTypeArgs | CJ CJTypeArgs | CJr CRJTypeArgs
  | CJalr CRJTypeArgs | CBeqz CIBTypeArgs | CBnez CIBTypeArgs
  | CLi CIBTypeArgs | CLui CIBTypeArgs | CAddi CIBTypeArgs
  | CAddi16sp CJTypeArgs | CAddi4spn CIBTypeArgs | CSlli CIBTypeArgs
  | CSrli CIBTypeArgs | CSrai CIBTypeArgs | CAndi CIBTypeArgs
  | CMv CRTypeArgs | CAdd CRTypeArgs | CAnd CRTypeArgs
  | COr CRTypeArgs | CXor CRTypeArgs | CSub CRTypeArgs
  | CAddw CRTypeArgs | CSubw CRTypeArgs | CNop

datatype InstrC64 =
    CLd ITypeArgs | CLdsp CIBTypeArgs | CSd SBTypeArgs
  | CSdsp CSSTypeArgs | CAddiw CIBTypeArgs

datatype InstrDC =
    CFld FLoadArgs | CFldsp CIBDTypeArgs | CFsd FStoreArgs
  | CFsdsp CSSDTypeArgs

datatype InstrCacheable =
    RV64I_R InstrR | RV64I_I InstrI | RV64I_S InstrS | RV64I_B InstrB | RV64I_U InstrU
  | RV64I_J InstrJ | RV64A InstrA | RV64M InstrM | RV64F InstrF | RV64D InstrD
  | Zicsr InstrCsr | RV32C InstrC32 | RV64C InstrC64 | RV64DC InstrDC
  | Unknown u32 | UnknownCompressed u16

definition InstrCacheable_DEFAULT :: InstrCacheable where
  "InstrCacheable_DEFAULT = Unknown 0"

datatype InstrUncacheable =
    Fence FenceArgs | FenceTso FenceArgs | Ecall | Ebreak
  | CEbreak
  | FenceI
  | Mret | Sret | Mnret
  | Wfi
  | SFenceVma (sfence_asid: XRegister) (sfence_vaddr: XRegister)

datatype Instr = Cacheable InstrCacheable | Uncacheable InstrUncacheable

section \<open>Instruction width\<close>

datatype InstrWidth = Compressed | Uncompressed

definition width_u64 :: "InstrWidth \<Rightarrow> u64" where
  "width_u64 w = (case w of Compressed \<Rightarrow> 2 | Uncompressed \<Rightarrow> 4)"

fun cacheable_width :: "InstrCacheable \<Rightarrow> InstrWidth" where
  "cacheable_width (RV64I_R i) = Uncompressed"
| "cacheable_width (RV64I_I i) = Uncompressed"
| "cacheable_width (RV64I_S i) = Uncompressed"
| "cacheable_width (RV64I_B i) = Uncompressed"
| "cacheable_width (RV64I_U i) = Uncompressed"
| "cacheable_width (RV64I_J i) = Uncompressed"
| "cacheable_width (RV64A i) = Uncompressed"
| "cacheable_width (RV64M i) = Uncompressed"
| "cacheable_width (RV64F i) = Uncompressed"
| "cacheable_width (RV64D i) = Uncompressed"
| "cacheable_width (Zicsr i) = Uncompressed"
| "cacheable_width (Unknown instr) = Uncompressed"
| "cacheable_width (RV32C i) = Compressed"
| "cacheable_width (RV64C i) = Compressed"
| "cacheable_width (RV64DC i) = Compressed"
| "cacheable_width (UnknownCompressed instr) = Compressed"

fun uncacheable_width :: "InstrUncacheable \<Rightarrow> InstrWidth" where
  "uncacheable_width (Fence a) = Uncompressed"
| "uncacheable_width (FenceTso a) = Uncompressed"
| "uncacheable_width Ecall = Uncompressed"
| "uncacheable_width Ebreak = Uncompressed"
| "uncacheable_width FenceI = Uncompressed"
| "uncacheable_width Mret = Uncompressed"
| "uncacheable_width Sret = Uncompressed"
| "uncacheable_width Mnret = Uncompressed"
| "uncacheable_width Wfi = Uncompressed"
| "uncacheable_width (SFenceVma asid vaddr) = Uncompressed"
| "uncacheable_width CEbreak = Compressed"

fun instr_width :: "Instr \<Rightarrow> InstrWidth" where
  "instr_width (Cacheable i) = cacheable_width i"
| "instr_width (Uncacheable i) = uncacheable_width i"

lemma width_u64_cases: "width_u64 w = 2 \<or> width_u64 w = 4"
  by (cases w) (simp_all add: width_u64_def)

lemma from_rm_total_iff: "from_rm rm \<noteq> None \<longleftrightarrow> rm \<in> {0, 1, 2, 3, 4, 7}"
proof -
  have c: "(ucast rm :: u64) = ucast c \<longleftrightarrow> rm = c" for c :: u32
    by (rule ucast_up_eq_iff) simp
  from c [of 0] c [of 1] c [of 2] c [of 3] c [of 4] show ?thesis
    by (auto simp: from_rm_def rounding_from_csrrepr_def)
qed

end
