(* ===== verification/Parser.thy ===== *)
theory Parser
  imports Instruction
begin

text \<open>
  The decoder of uncompressed instructions (parser.rs, lines 19 to 861): field extraction, the
  immediates of the five formats, the argument macros, and the decision tree on opcode,
  \<^verbatim>\<open>funct3\<close>, \<^verbatim>\<open>funct7\<close>.  One definition per arm of the match on the opcode.
  \<^verbatim>\<open>u5::extract_u32(v, p)\<close> is the five-bit word that starts at bit \<^verbatim>\<open>p\<close>.
  The lemmas give the range and the alignment of every immediate, decode what a format encodes,
  and bound the width of what the decoder returns.
\<close>

section \<open>Fields\<close>

definition instr_bits :: "u32 \<Rightarrow> nat \<Rightarrow> nat \<Rightarrow> u32" where
  "instr_bits bytes pos n = drop_bit pos bytes AND drop_bit (32 - n) (NOT 0)"

definition instr_bit :: "u32 \<Rightarrow> nat \<Rightarrow> bool" where
  "instr_bit bytes pos = (bytes AND push_bit pos 1 \<noteq> 0)"

definition extract_u5 :: "'a::len word \<Rightarrow> nat \<Rightarrow> 5 word" where
  "extract_u5 v pos = ucast (drop_bit pos v)"

definition opcode :: "u32 \<Rightarrow> u32" where
  "opcode instr = instr_bits instr 0 7"

definition funct3 :: "u32 \<Rightarrow> u32" where
  "funct3 instr = instr_bits instr 12 3"

definition funct5 :: "u32 \<Rightarrow> u32" where
  "funct5 instr = instr_bits instr 27 5"

definition funct7 :: "u32 \<Rightarrow> u32" where
  "funct7 instr = instr_bits instr 25 7"

definition instr_rd :: "u32 \<Rightarrow> XRegister" where
  "instr_rd instr = parse_xregister (extract_u5 instr 7)"

definition instr_rd_f :: "u32 \<Rightarrow> FRegister" where
  "instr_rd_f instr = parse_fregister (extract_u5 instr 7)"

definition rs1_bits :: "u32 \<Rightarrow> u32" where
  "rs1_bits instr = instr_bits instr 15 5"

definition rs1_bits_u5 :: "u32 \<Rightarrow> 5 word" where
  "rs1_bits_u5 instr = extract_u5 instr 15"

definition instr_rs1 :: "u32 \<Rightarrow> XRegister" where
  "instr_rs1 instr = parse_xregister (rs1_bits_u5 instr)"

definition instr_rs1_f :: "u32 \<Rightarrow> FRegister" where
  "instr_rs1_f instr = parse_fregister (rs1_bits_u5 instr)"

definition rs2_bits :: "u32 \<Rightarrow> u32" where
  "rs2_bits instr = instr_bits instr 20 5"

definition rs2_bits_u5 :: "u32 \<Rightarrow> 5 word" where
  "rs2_bits_u5 instr = extract_u5 instr 20"

definition instr_rs2 :: "u32 \<Rightarrow> XRegister" where
  "instr_rs2 instr = parse_xregister (rs2_bits_u5 instr)"

definition instr_rs2_f :: "u32 \<Rightarrow> FRegister" where
  "instr_rs2_f instr = parse_fregister (rs2_bits_u5 instr)"

definition instr_rs3_f :: "u32 \<Rightarrow> FRegister" where
  "instr_rs3_f instr = parse_fregister (extract_u5 instr 27)"

definition imm_11_6 :: "u32 \<Rightarrow> u32" where
  "imm_11_6 instr = push_bit 1 (instr_bits instr 26 6)"

definition fm :: "u32 \<Rightarrow> u32" where
  "fm instr = instr_bits instr 28 4"

definition instr_fmt :: "u32 \<Rightarrow> u32" where
  "instr_fmt instr = instr_bits instr 25 2"

definition fp_width :: "u32 \<Rightarrow> u32" where
  "fp_width instr = instr_bits instr 12 3"

definition instr_csr :: "u32 \<Rightarrow> CSRegister option" where
  "instr_csr instr = try_parse (instr_bits instr 20 12)"

section \<open>Immediates\<close>

text \<open>A shift to the right of an \<^verbatim>\<open>i32\<close> is arithmetic (\<^term>\<open>signed_drop_bit\<close>), and the cast
  of an \<^verbatim>\<open>i32\<close> to \<^verbatim>\<open>i64\<close> extends the sign (\<^term>\<open>scast\<close>).\<close>

definition i_imm :: "u32 \<Rightarrow> i64" where
  "i_imm instr = scast (signed_drop_bit 20 (instr AND 0b11111111111100000000000000000000) :: i32)"

definition s_imm :: "u32 \<Rightarrow> i64" where
  "s_imm instr =
     (let instr_31_25 = instr AND 0b11111110000000000000000000000000;
          instr_11_7 = instr AND 0b00000000000000000000111110000000
      in scast (signed_drop_bit 20 instr_31_25 OR signed_drop_bit 7 instr_11_7 :: i32))"

definition b_imm :: "u32 \<Rightarrow> i64" where
  "b_imm instr =
     (let instr_31 = instr AND 0b10000000000000000000000000000000;
          instr_7 = instr AND 0b00000000000000000000000010000000;
          instr_30_25 = instr AND 0b01111110000000000000000000000000;
          instr_11_8 = instr AND 0b00000000000000000000111100000000
      in scast (signed_drop_bit 19 instr_31 OR push_bit 4 instr_7
                OR signed_drop_bit 20 instr_30_25 OR signed_drop_bit 7 instr_11_8 :: i32))"

definition u_imm :: "u32 \<Rightarrow> i64" where
  "u_imm instr = scast (instr AND 0b11111111111111111111000000000000 :: i32)"

definition j_imm :: "u32 \<Rightarrow> i64" where
  "j_imm instr =
     (let instr_31 = instr AND 0b10000000000000000000000000000000;
          instr_19_12 = instr AND 0b00000000000011111111000000000000;
          instr_20 = instr AND 0b00000000000100000000000000000000;
          instr_30_21 = instr AND 0b01111111111000000000000000000000
      in scast (signed_drop_bit 11 instr_31 OR instr_19_12
                OR signed_drop_bit 9 instr_20 OR signed_drop_bit 20 instr_30_21 :: i32))"

section \<open>Argument macros\<close>

definition r_instr :: "u32 \<Rightarrow> RTypeArgs" where
  "r_instr instr = RTypeArgs (instr_rd instr) (instr_rs1 instr) (instr_rs2 instr)"

definition i_instr :: "u32 \<Rightarrow> ITypeArgs" where
  "i_instr instr = ITypeArgs (instr_rd instr) (instr_rs1 instr) (i_imm instr)"

definition s_instr :: "u32 \<Rightarrow> SBTypeArgs" where
  "s_instr instr = SBTypeArgs (instr_rs1 instr) (instr_rs2 instr) (s_imm instr)"

definition b_instr :: "u32 \<Rightarrow> SBTypeArgs" where
  "b_instr instr = SBTypeArgs (instr_rs1 instr) (instr_rs2 instr) (b_imm instr)"

definition u_instr :: "u32 \<Rightarrow> UJTypeArgs" where
  "u_instr instr = UJTypeArgs (instr_rd instr) (u_imm instr)"

definition j_instr :: "u32 \<Rightarrow> UJTypeArgs" where
  "j_instr instr = UJTypeArgs (instr_rd instr) (j_imm instr)"

definition fl_instr :: "u32 \<Rightarrow> FLoadArgs" where
  "fl_instr instr = FLoadArgs (instr_rs1 instr) (instr_rd_f instr) (i_imm instr)"

definition fs_instr :: "u32 \<Rightarrow> FStoreArgs" where
  "fs_instr instr = FStoreArgs (instr_rs1 instr) (instr_rs2_f instr) (s_imm instr)"

definition f_cmp_instr :: "u32 \<Rightarrow> 5 word \<Rightarrow> FCmpArgs" where
  "f_cmp_instr instr rs2 = FCmpArgs (instr_rs1_f instr) (parse_fregister rs2) (instr_rd instr)"

definition f_r_instr :: "u32 \<Rightarrow> 5 word \<Rightarrow> FRArgs" where
  "f_r_instr instr rs2 = FRArgs (instr_rs1_f instr) (parse_fregister rs2) (instr_rd_f instr)"

definition f_r_rm_1_instr ::
  "(FR1ArgWithRounding \<Rightarrow> InstrCacheable) \<Rightarrow> u32 \<Rightarrow> u32 \<Rightarrow> InstrCacheable" where
  "f_r_rm_1_instr variant instr rm =
     (case from_rm rm of
        Some rounding \<Rightarrow> variant (FR1ArgWithRounding (instr_rs1_f instr) rounding (instr_rd_f instr))
      | None \<Rightarrow> Unknown instr)"

definition f_r_fmt_int_instr ::
  "(XRegToFRegArgsWithRounding \<Rightarrow> InstrCacheable) \<Rightarrow> u32 \<Rightarrow> u32 \<Rightarrow> InstrCacheable" where
  "f_r_fmt_int_instr variant instr rm =
     (case from_rm rm of
        Some rounding \<Rightarrow>
          variant (XRegToFRegArgsWithRounding (instr_rd_f instr) (instr_rs1 instr) rounding)
      | None \<Rightarrow> Unknown instr)"

definition f_r_int_fmt_instr ::
  "(FRegToXRegArgsWithRounding \<Rightarrow> InstrCacheable) \<Rightarrow> u32 \<Rightarrow> u32 \<Rightarrow> InstrCacheable" where
  "f_r_int_fmt_instr variant instr rm =
     (case from_rm rm of
        Some rounding \<Rightarrow>
          variant (FRegToXRegArgsWithRounding (instr_rd instr) (instr_rs1_f instr) rounding)
      | None \<Rightarrow> Unknown instr)"

definition f_r_rm_2_instr ::
  "(FR2ArgsWithRounding \<Rightarrow> InstrCacheable) \<Rightarrow> u32 \<Rightarrow> 5 word \<Rightarrow> u32 \<Rightarrow> InstrCacheable" where
  "f_r_rm_2_instr variant instr rs2 rm =
     (case from_rm rm of
        Some rounding \<Rightarrow>
          variant (FR2ArgsWithRounding (instr_rs1_f instr) (parse_fregister rs2) rounding
                     (instr_rd_f instr))
      | None \<Rightarrow> Unknown instr)"

definition f_r_rm_3_instr ::
  "(FR3ArgsWithRounding \<Rightarrow> InstrCacheable) \<Rightarrow> u32 \<Rightarrow> InstrCacheable" where
  "f_r_rm_3_instr variant instr =
     (case from_rm (funct3 instr) of
        Some rounding \<Rightarrow>
          variant (FR3ArgsWithRounding (instr_rs1_f instr) (instr_rs2_f instr) (instr_rs3_f instr)
                     rounding (instr_rd_f instr))
      | None \<Rightarrow> Unknown instr)"

definition fence_instr :: "u32 \<Rightarrow> FenceArgs" where
  "fence_instr instr =
     FenceArgs
       (FenceSet (instr_bit instr 27) (instr_bit instr 26) (instr_bit instr 25) (instr_bit instr 24))
       (FenceSet (instr_bit instr 23) (instr_bit instr 22) (instr_bit instr 21) (instr_bit instr 20))"

definition amo_instr :: "u32 \<Rightarrow> AmoArgs" where
  "amo_instr instr =
     AmoArgs (instr_rd instr) (instr_rs1 instr) (instr_rs2 instr)
       (instr_bit instr 26) (instr_bit instr 25)"

definition csr_instr :: "(CsrArgs \<Rightarrow> InstrCacheable) \<Rightarrow> u32 \<Rightarrow> InstrCacheable" where
  "csr_instr variant instr =
     (case instr_csr instr of
        Some csr \<Rightarrow> variant (CsrArgs (instr_rd instr) (instr_rs1 instr) csr)
      | None \<Rightarrow> Unknown instr)"

definition csri_instr :: "(CsriArgs \<Rightarrow> InstrCacheable) \<Rightarrow> u32 \<Rightarrow> InstrCacheable" where
  "csri_instr variant instr =
     (case instr_csr instr of
        Some csr \<Rightarrow> variant (CsriArgs (instr_rd instr) (ucast (instr_bits instr 15 5)) csr)
      | None \<Rightarrow> Unknown instr)"

section \<open>Constants\<close>

abbreviation OP_ARITH :: "u32" where "OP_ARITH \<equiv> 0b0110011"

abbreviation OP_ARITH_W :: "u32" where "OP_ARITH_W \<equiv> 0b0111011"

abbreviation OP_ARITH_I :: "u32" where "OP_ARITH_I \<equiv> 0b0010011"

abbreviation OP_LOAD :: "u32" where "OP_LOAD \<equiv> 0b0000011"

abbreviation OP_ARITH_IW :: "u32" where "OP_ARITH_IW \<equiv> 0b0011011"

abbreviation OP_SYNCH :: "u32" where "OP_SYNCH \<equiv> 0b0001111"

abbreviation OP_SYS :: "u32" where "OP_SYS \<equiv> 0b1110011"

abbreviation OP_STORE :: "u32" where "OP_STORE \<equiv> 0b0100011"

abbreviation OP_BRANCH :: "u32" where "OP_BRANCH \<equiv> 0b1100011"

abbreviation OP_LUI :: "u32" where "OP_LUI \<equiv> 0b0110111"

abbreviation OP_AUIPC :: "u32" where "OP_AUIPC \<equiv> 0b0010111"

abbreviation OP_JAL :: "u32" where "OP_JAL \<equiv> 0b1101111"

abbreviation OP_JALR :: "u32" where "OP_JALR \<equiv> 0b1100111"

abbreviation OP_FP :: "u32" where "OP_FP \<equiv> 0b1010011"

abbreviation OP_FP_LOAD :: "u32" where "OP_FP_LOAD \<equiv> 0b0000111"

abbreviation OP_FMADD :: "u32" where "OP_FMADD \<equiv> 0b1000011"

abbreviation OP_FMSUB :: "u32" where "OP_FMSUB \<equiv> 0b1000111"

abbreviation OP_FNMSUB :: "u32" where "OP_FNMSUB \<equiv> 0b1001011"

abbreviation OP_FNMADD :: "u32" where "OP_FNMADD \<equiv> 0b1001111"

abbreviation OP_FP_STORE :: "u32" where "OP_FP_STORE \<equiv> 0b0100111"

abbreviation OP_AMO :: "u32" where "OP_AMO \<equiv> 0b0101111"

abbreviation F3_0 :: "u32" where "F3_0 \<equiv> 0b000"

abbreviation F3_1 :: "u32" where "F3_1 \<equiv> 0b001"

abbreviation F3_2 :: "u32" where "F3_2 \<equiv> 0b010"

abbreviation F3_3 :: "u32" where "F3_3 \<equiv> 0b011"

abbreviation F3_4 :: "u32" where "F3_4 \<equiv> 0b100"

abbreviation F3_5 :: "u32" where "F3_5 \<equiv> 0b101"

abbreviation F3_6 :: "u32" where "F3_6 \<equiv> 0b110"

abbreviation F3_7 :: "u32" where "F3_7 \<equiv> 0b111"

abbreviation F5_0 :: "u32" where "F5_0 \<equiv> 0b00000"

abbreviation F5_1 :: "u32" where "F5_1 \<equiv> 0b00001"

abbreviation F5_2 :: "u32" where "F5_2 \<equiv> 0b00010"

abbreviation F5_3 :: "u32" where "F5_3 \<equiv> 0b00011"

abbreviation F5_4 :: "u32" where "F5_4 \<equiv> 0b00100"

abbreviation F5_5 :: "u32" where "F5_5 \<equiv> 0b00101"

abbreviation F5_8 :: "u32" where "F5_8 \<equiv> 0b01000"

abbreviation F5_11 :: "u32" where "F5_11 \<equiv> 0b01011"

abbreviation F5_12 :: "u32" where "F5_12 \<equiv> 0b01100"

abbreviation F5_16 :: "u32" where "F5_16 \<equiv> 0b10000"

abbreviation F5_20 :: "u32" where "F5_20 \<equiv> 0b10100"

abbreviation F5_24 :: "u32" where "F5_24 \<equiv> 0b11000"

abbreviation F5_26 :: "u32" where "F5_26 \<equiv> 0b11010"

abbreviation F5_28 :: "u32" where "F5_28 \<equiv> 0b11100"

abbreviation F5_30 :: "u32" where "F5_30 \<equiv> 0b11110"

abbreviation F7_0 :: "u32" where "F7_0 \<equiv> 0b0"

abbreviation F7_1 :: "u32" where "F7_1 \<equiv> 0b1"

abbreviation F7_9 :: "u32" where "F7_9 \<equiv> 0b1001"

abbreviation F7_8 :: "u32" where "F7_8 \<equiv> 0b0001000"

abbreviation F7_20 :: "u32" where "F7_20 \<equiv> 0b100000"

abbreviation F7_24 :: "u32" where "F7_24 \<equiv> 0b0011000"

abbreviation F7_56 :: "u32" where "F7_56 \<equiv> 0b0111000"

abbreviation FMT_S :: "u32" where "FMT_S \<equiv> 0b0"

abbreviation FMT_D :: "u32" where "FMT_D \<equiv> 0b01"

abbreviation WIDTH_W :: "u32" where "WIDTH_W \<equiv> 0b010"

abbreviation WIDTH_D :: "u32" where "WIDTH_D \<equiv> 0b011"

abbreviation RM_0 :: "u32" where "RM_0 \<equiv> 0b000"

abbreviation RM_1 :: "u32" where "RM_1 \<equiv> 0b001"

abbreviation RM_2 :: "u32" where "RM_2 \<equiv> 0b010"

abbreviation RM_EQ :: "u32" where "RM_EQ \<equiv> RM_2"

abbreviation RM_LT :: "u32" where "RM_LT \<equiv> RM_1"

abbreviation RM_LE :: "u32" where "RM_LE \<equiv> RM_0"

abbreviation RM_MIN :: "u32" where "RM_MIN \<equiv> RM_0"

abbreviation RM_MAX :: "u32" where "RM_MAX \<equiv> RM_1"

abbreviation RS1_0 :: "u32" where "RS1_0 \<equiv> 0b0"

abbreviation RS2_0 :: "u32" where "RS2_0 \<equiv> 0b0"

abbreviation RS2_1 :: "u32" where "RS2_1 \<equiv> 0b1"

abbreviation RS2_2 :: "u32" where "RS2_2 \<equiv> 0b10"

abbreviation RS2_5 :: "u32" where "RS2_5 \<equiv> 0b101"

abbreviation RS2_0_U5 :: "5 word" where "RS2_0_U5 \<equiv> 0b0"

abbreviation RS2_1_U5 :: "5 word" where "RS2_1_U5 \<equiv> 0b1"

abbreviation RS2_2_U5 :: "5 word" where "RS2_2_U5 \<equiv> 0b10"

abbreviation RS2_3_U5 :: "5 word" where "RS2_3_U5 \<equiv> 0b11"

abbreviation FM_0 :: "u32" where "FM_0 \<equiv> 0b0"

abbreviation FM_8 :: "u32" where "FM_8 \<equiv> 0b1000"

section \<open>The decision tree\<close>

definition parse_arith :: "u32 \<Rightarrow> InstrCacheable" where
  "parse_arith instr =
     (if funct3 instr = F3_0 then
        (if funct7 instr = F7_0 then RV64I_R (Add (r_instr instr))
         else if funct7 instr = F7_1 then RV64M (Mul (r_instr instr))
         else if funct7 instr = F7_20 then RV64I_R (Sub (r_instr instr))
         else Unknown instr)
      else if funct3 instr = F3_4 then
        (if funct7 instr = F7_0 then RV64I_R (Xor (r_instr instr))
         else if funct7 instr = F7_1 then RV64M (Div (r_instr instr))
         else Unknown instr)
      else if funct3 instr = F3_6 then
        (if funct7 instr = F7_0 then RV64I_R (Or (r_instr instr))
         else if funct7 instr = F7_1 then RV64M (Rem (r_instr instr))
         else Unknown instr)
      else if funct3 instr = F3_7 then
        (if funct7 instr = F7_0 then RV64I_R (And (r_instr instr))
         else if funct7 instr = F7_1 then RV64M (Remu (r_instr instr))
         else Unknown instr)
      else if funct3 instr = F3_1 then
        (if funct7 instr = F7_0 then RV64I_R (Sll (r_instr instr))
         else if funct7 instr = F7_1 then RV64M (Mulh (r_instr instr))
         else Unknown instr)
      else if funct3 instr = F3_5 then
        (if funct7 instr = F7_0 then RV64I_R (Srl (r_instr instr))
         else if funct7 instr = F7_1 then RV64M (Divu (r_instr instr))
         else if funct7 instr = F7_20 then RV64I_R (Sra (r_instr instr))
         else Unknown instr)
      else if funct3 instr = F3_2 then
        (if funct7 instr = F7_0 then RV64I_R (Slt (r_instr instr))
         else if funct7 instr = F7_1 then RV64M (Mulhsu (r_instr instr))
         else Unknown instr)
      else if funct3 instr = F3_3 then
        (if funct7 instr = F7_0 then RV64I_R (Sltu (r_instr instr))
         else if funct7 instr = F7_1 then RV64M (Mulhu (r_instr instr))
         else Unknown instr)
      else Unknown instr)"

definition parse_arith_w :: "u32 \<Rightarrow> InstrCacheable" where
  "parse_arith_w instr =
     (if funct3 instr = F3_0 then
        (if funct7 instr = F7_0 then RV64I_R (Addw (r_instr instr))
         else if funct7 instr = F7_1 then RV64M (Mulw (r_instr instr))
         else if funct7 instr = F7_20 then RV64I_R (Subw (r_instr instr))
         else Unknown instr)
      else if funct3 instr = F3_1 then RV64I_R (Sllw (r_instr instr))
      else if funct3 instr = F3_4 then
        (if funct7 instr = F7_1 then RV64M (Divw (r_instr instr))
         else Unknown instr)
      else if funct3 instr = F3_5 then
        (if funct7 instr = F7_0 then RV64I_R (Srlw (r_instr instr))
         else if funct7 instr = F7_1 then RV64M (Divuw (r_instr instr))
         else if funct7 instr = F7_20 then RV64I_R (Sraw (r_instr instr))
         else Unknown instr)
      else if funct3 instr = F3_6 then
        (if funct7 instr = F7_1 then RV64M (Remw (r_instr instr))
         else Unknown instr)
      else if funct3 instr = F3_7 then
        (if funct7 instr = F7_1 then RV64M (Remuw (r_instr instr))
         else Unknown instr)
      else Unknown instr)"

definition parse_arith_i :: "u32 \<Rightarrow> InstrCacheable" where
  "parse_arith_i instr =
     (if funct3 instr = F3_0 then RV64I_I (Addi (i_instr instr))
      else if funct3 instr = F3_4 then RV64I_I (Xori (i_instr instr))
      else if funct3 instr = F3_6 then RV64I_I (Ori (i_instr instr))
      else if funct3 instr = F3_7 then RV64I_I (Andi (i_instr instr))
      else if funct3 instr = F3_1 then
        (if imm_11_6 instr = F7_0 then RV64I_I (Slli (i_instr instr))
         else Unknown instr)
      else if funct3 instr = F3_5 then
        (if imm_11_6 instr = F7_0 then RV64I_I (Srli (i_instr instr))
         else if imm_11_6 instr = F7_20 then RV64I_I (Srai (i_instr instr))
         else Unknown instr)
      else if funct3 instr = F3_2 then RV64I_I (Slti (i_instr instr))
      else if funct3 instr = F3_3 then RV64I_I (Sltiu (i_instr instr))
      else Unknown instr)"

definition parse_load :: "u32 \<Rightarrow> InstrCacheable" where
  "parse_load instr =
     (if funct3 instr = F3_0 then RV64I_I (Lb (i_instr instr))
      else if funct3 instr = F3_1 then RV64I_I (Lh (i_instr instr))
      else if funct3 instr = F3_2 then RV64I_I (Lw (i_instr instr))
      else if funct3 instr = F3_3 then RV64I_I (Ld (i_instr instr))
      else if funct3 instr = F3_4 then RV64I_I (Lbu (i_instr instr))
      else if funct3 instr = F3_5 then RV64I_I (Lhu (i_instr instr))
      else if funct3 instr = F3_6 then RV64I_I (Lwu (i_instr instr))
      else Unknown instr)"

definition parse_arith_iw :: "u32 \<Rightarrow> InstrCacheable" where
  "parse_arith_iw instr =
     (if funct3 instr = F3_0 then RV64I_I (Addiw (i_instr instr))
      else if funct3 instr = F3_1 then
        (if imm_11_6 instr = F7_0 then RV64I_I (Slliw (i_instr instr))
         else Unknown instr)
      else if funct3 instr = F3_5 then
        (if imm_11_6 instr = F7_0 then RV64I_I (Srliw (i_instr instr))
         else if imm_11_6 instr = F7_20 then RV64I_I (Sraiw (i_instr instr))
         else Unknown instr)
      else Unknown instr)"

definition parse_amo :: "u32 \<Rightarrow> InstrCacheable" where
  "parse_amo instr =
     (if funct3 instr = F3_2 then
        (if funct5 instr = F5_2 then
           (if rs2_bits instr = RS2_0 then RV64A (Lrw (amo_instr instr))
            else Unknown instr)
         else if funct5 instr = F5_3 then RV64A (Scw (amo_instr instr))
         else if funct5 instr = F5_1 then RV64A (Amoswapw (amo_instr instr))
         else if funct5 instr = F5_0 then RV64A (Amoaddw (amo_instr instr))
         else if funct5 instr = F5_4 then RV64A (Amoxorw (amo_instr instr))
         else if funct5 instr = F5_12 then RV64A (Amoandw (amo_instr instr))
         else if funct5 instr = F5_8 then RV64A (Amoorw (amo_instr instr))
         else if funct5 instr = F5_16 then RV64A (Amominw (amo_instr instr))
         else if funct5 instr = F5_20 then RV64A (Amomaxw (amo_instr instr))
         else if funct5 instr = F5_24 then RV64A (Amominuw (amo_instr instr))
         else if funct5 instr = F5_28 then RV64A (Amomaxuw (amo_instr instr))
         else Unknown instr)
      else if funct3 instr = F3_3 then
        (if funct5 instr = F5_2 then
           (if rs2_bits instr = RS2_0 then RV64A (Lrd (amo_instr instr))
            else Unknown instr)
         else if funct5 instr = F5_3 then RV64A (Scd (amo_instr instr))
         else if funct5 instr = F5_1 then RV64A (Amoswapd (amo_instr instr))
         else if funct5 instr = F5_0 then RV64A (Amoaddd (amo_instr instr))
         else if funct5 instr = F5_4 then RV64A (Amoxord (amo_instr instr))
         else if funct5 instr = F5_12 then RV64A (Amoandd (amo_instr instr))
         else if funct5 instr = F5_8 then RV64A (Amoord (amo_instr instr))
         else if funct5 instr = F5_16 then RV64A (Amomind (amo_instr instr))
         else if funct5 instr = F5_20 then RV64A (Amomaxd (amo_instr instr))
         else if funct5 instr = F5_24 then RV64A (Amominud (amo_instr instr))
         else if funct5 instr = F5_28 then RV64A (Amomaxud (amo_instr instr))
         else Unknown instr)
      else Unknown instr)"

definition parse_store :: "u32 \<Rightarrow> InstrCacheable" where
  "parse_store instr =
     (if funct3 instr = F3_0 then RV64I_S (Sb (s_instr instr))
      else if funct3 instr = F3_1 then RV64I_S (Sh (s_instr instr))
      else if funct3 instr = F3_2 then RV64I_S (Sw (s_instr instr))
      else if funct3 instr = F3_3 then RV64I_S (Sd (s_instr instr))
      else Unknown instr)"

definition parse_branch :: "u32 \<Rightarrow> InstrCacheable" where
  "parse_branch instr =
     (if funct3 instr = F3_0 then RV64I_B (Beq (b_instr instr))
      else if funct3 instr = F3_1 then RV64I_B (Bne (b_instr instr))
      else if funct3 instr = F3_4 then RV64I_B (Blt (b_instr instr))
      else if funct3 instr = F3_5 then RV64I_B (Bge (b_instr instr))
      else if funct3 instr = F3_6 then RV64I_B (Bltu (b_instr instr))
      else if funct3 instr = F3_7 then RV64I_B (Bgeu (b_instr instr))
      else Unknown instr)"

definition parse_fmadd :: "u32 \<Rightarrow> InstrCacheable" where
  "parse_fmadd instr =
     (if instr_fmt instr = FMT_S then f_r_rm_3_instr (RV64F \<circ> Fmadds) instr
      else if instr_fmt instr = FMT_D then f_r_rm_3_instr (RV64D \<circ> Fmaddd) instr
      else Unknown instr)"

definition parse_fmsub :: "u32 \<Rightarrow> InstrCacheable" where
  "parse_fmsub instr =
     (if instr_fmt instr = FMT_S then f_r_rm_3_instr (RV64F \<circ> Fmsubs) instr
      else if instr_fmt instr = FMT_D then f_r_rm_3_instr (RV64D \<circ> Fmsubd) instr
      else Unknown instr)"

definition parse_fnmsub :: "u32 \<Rightarrow> InstrCacheable" where
  "parse_fnmsub instr =
     (if instr_fmt instr = FMT_S then f_r_rm_3_instr (RV64F \<circ> Fnmsubs) instr
      else if instr_fmt instr = FMT_D then f_r_rm_3_instr (RV64D \<circ> Fnmsubd) instr
      else Unknown instr)"

definition parse_fnmadd :: "u32 \<Rightarrow> InstrCacheable" where
  "parse_fnmadd instr =
     (if instr_fmt instr = FMT_S then f_r_rm_3_instr (RV64F \<circ> Fnmadds) instr
      else if instr_fmt instr = FMT_D then f_r_rm_3_instr (RV64D \<circ> Fnmaddd) instr
      else Unknown instr)"

definition parse_fp_load :: "u32 \<Rightarrow> InstrCacheable" where
  "parse_fp_load instr =
     (if fp_width instr = WIDTH_W then RV64F (Flw (fl_instr instr))
      else if fp_width instr = WIDTH_D then RV64D (Fld (fl_instr instr))
      else Unknown instr)"

definition parse_fp_store :: "u32 \<Rightarrow> InstrCacheable" where
  "parse_fp_store instr =
     (if fp_width instr = WIDTH_W then RV64F (Fsw (fs_instr instr))
      else if fp_width instr = WIDTH_D then RV64D (Fsd (fs_instr instr))
      else Unknown instr)"

definition parse_jalr :: "u32 \<Rightarrow> InstrCacheable" where
  "parse_jalr instr =
     (if funct3 instr = F3_0 then RV64I_J (Jalr (i_instr instr))
      else Unknown instr)"

definition parse_fp_s :: "u32 \<Rightarrow> InstrCacheable" where
  "parse_fp_s instr =
     (let f5 = funct5 instr; rounding = funct3 instr; rs2 = rs2_bits_u5 instr in
      if f5 = F5_0 then f_r_rm_2_instr (RV64F \<circ> Fadds) instr rs2 rounding
      else if f5 = F5_1 then f_r_rm_2_instr (RV64F \<circ> Fsubs) instr rs2 rounding
      else if f5 = F5_2 then f_r_rm_2_instr (RV64F \<circ> Fmuls) instr rs2 rounding
      else if f5 = F5_3 then f_r_rm_2_instr (RV64F \<circ> Fdivs) instr rs2 rounding
      else if f5 = F5_4 \<and> rounding = RM_0 then RV64F (Fsgnjs (f_r_instr instr rs2))
      else if f5 = F5_4 \<and> rounding = RM_1 then RV64F (Fsgnjns (f_r_instr instr rs2))
      else if f5 = F5_4 \<and> rounding = RM_2 then RV64F (Fsgnjxs (f_r_instr instr rs2))
      else if f5 = F5_5 \<and> rounding = RM_MIN then RV64F (Fmins (f_r_instr instr rs2))
      else if f5 = F5_5 \<and> rounding = RM_MAX then RV64F (Fmaxs (f_r_instr instr rs2))
      else if f5 = F5_8 \<and> rs2 = RS2_1_U5 then f_r_rm_1_instr (RV64D \<circ> Fcvtsd) instr rounding
      else if f5 = F5_11 \<and> rs2 = RS2_0_U5 then f_r_rm_1_instr (RV64F \<circ> Fsqrts) instr rounding
      else if f5 = F5_20 \<and> rounding = RM_EQ then RV64F (Feqs (f_cmp_instr instr rs2))
      else if f5 = F5_20 \<and> rounding = RM_LE then RV64F (Fles (f_cmp_instr instr rs2))
      else if f5 = F5_20 \<and> rounding = RM_LT then RV64F (Flts (f_cmp_instr instr rs2))
      else if f5 = F5_24 \<and> rs2 = RS2_0_U5 then f_r_int_fmt_instr (RV64F \<circ> Fcvtws) instr rounding
      else if f5 = F5_24 \<and> rs2 = RS2_1_U5 then f_r_int_fmt_instr (RV64F \<circ> Fcvtwus) instr rounding
      else if f5 = F5_24 \<and> rs2 = RS2_2_U5 then f_r_int_fmt_instr (RV64F \<circ> Fcvtls) instr rounding
      else if f5 = F5_24 \<and> rs2 = RS2_3_U5 then f_r_int_fmt_instr (RV64F \<circ> Fcvtlus) instr rounding
      else if f5 = F5_26 \<and> rs2 = RS2_0_U5 then f_r_fmt_int_instr (RV64F \<circ> Fcvtsw) instr rounding
      else if f5 = F5_26 \<and> rs2 = RS2_1_U5 then f_r_fmt_int_instr (RV64F \<circ> Fcvtswu) instr rounding
      else if f5 = F5_26 \<and> rs2 = RS2_2_U5 then f_r_fmt_int_instr (RV64F \<circ> Fcvtsl) instr rounding
      else if f5 = F5_26 \<and> rs2 = RS2_3_U5 then f_r_fmt_int_instr (RV64F \<circ> Fcvtslu) instr rounding
      else if f5 = F5_28 \<and> rounding = RM_0 \<and> rs2 = RS2_0_U5 then RV64F (FmvXW (FRegToXRegArgs (instr_rd instr) (instr_rs1_f instr)))
      else if f5 = F5_28 \<and> rounding = RM_1 \<and> rs2 = RS2_0_U5 then RV64F (FclassS (FRegToXRegArgs (instr_rd instr) (instr_rs1_f instr)))
      else if f5 = F5_30 \<and> rounding = RM_0 \<and> rs2 = RS2_0_U5 then RV64F (FmvWX (XRegToFRegArgs (instr_rd_f instr) (instr_rs1 instr)))
      else Unknown instr)"

definition parse_fp_d :: "u32 \<Rightarrow> InstrCacheable" where
  "parse_fp_d instr =
     (let f5 = funct5 instr; rounding = funct3 instr; rs2 = rs2_bits_u5 instr in
      if f5 = F5_0 then f_r_rm_2_instr (RV64D \<circ> Faddd) instr rs2 rounding
      else if f5 = F5_1 then f_r_rm_2_instr (RV64D \<circ> Fsubd) instr rs2 rounding
      else if f5 = F5_2 then f_r_rm_2_instr (RV64D \<circ> Fmuld) instr rs2 rounding
      else if f5 = F5_3 then f_r_rm_2_instr (RV64D \<circ> Fdivd) instr rs2 rounding
      else if f5 = F5_4 \<and> rounding = RM_0 then RV64D (Fsgnjd (f_r_instr instr rs2))
      else if f5 = F5_4 \<and> rounding = RM_1 then RV64D (Fsgnjnd (f_r_instr instr rs2))
      else if f5 = F5_4 \<and> rounding = RM_2 then RV64D (Fsgnjxd (f_r_instr instr rs2))
      else if f5 = F5_5 \<and> rounding = RM_MIN then RV64D (Fmind (f_r_instr instr rs2))
      else if f5 = F5_5 \<and> rounding = RM_MAX then RV64D (Fmaxd (f_r_instr instr rs2))
      else if f5 = F5_8 \<and> rs2 = RS2_0_U5 then f_r_rm_1_instr (RV64D \<circ> Fcvtds) instr rounding
      else if f5 = F5_11 \<and> rs2 = RS2_0_U5 then f_r_rm_1_instr (RV64D \<circ> Fsqrtd) instr rounding
      else if f5 = F5_20 \<and> rounding = RM_EQ then RV64D (Feqd (f_cmp_instr instr rs2))
      else if f5 = F5_20 \<and> rounding = RM_LE then RV64D (Fled (f_cmp_instr instr rs2))
      else if f5 = F5_20 \<and> rounding = RM_LT then RV64D (Fltd (f_cmp_instr instr rs2))
      else if f5 = F5_24 \<and> rs2 = RS2_0_U5 then f_r_int_fmt_instr (RV64D \<circ> Fcvtwd) instr rounding
      else if f5 = F5_24 \<and> rs2 = RS2_1_U5 then f_r_int_fmt_instr (RV64D \<circ> Fcvtwud) instr rounding
      else if f5 = F5_24 \<and> rs2 = RS2_2_U5 then f_r_int_fmt_instr (RV64D \<circ> Fcvtld) instr rounding
      else if f5 = F5_24 \<and> rs2 = RS2_3_U5 then f_r_int_fmt_instr (RV64D \<circ> Fcvtlud) instr rounding
      else if f5 = F5_26 \<and> rs2 = RS2_0_U5 then f_r_fmt_int_instr (RV64D \<circ> Fcvtdw) instr rounding
      else if f5 = F5_26 \<and> rs2 = RS2_1_U5 then f_r_fmt_int_instr (RV64D \<circ> Fcvtdwu) instr rounding
      else if f5 = F5_26 \<and> rs2 = RS2_2_U5 then f_r_fmt_int_instr (RV64D \<circ> Fcvtdl) instr rounding
      else if f5 = F5_26 \<and> rs2 = RS2_3_U5 then f_r_fmt_int_instr (RV64D \<circ> Fcvtdlu) instr rounding
      else if f5 = F5_28 \<and> rounding = RM_0 \<and> rs2 = RS2_0_U5 then RV64D (FmvXD (FRegToXRegArgs (instr_rd instr) (instr_rs1_f instr)))
      else if f5 = F5_28 \<and> rounding = RM_1 \<and> rs2 = RS2_0_U5 then RV64D (FclassD (FRegToXRegArgs (instr_rd instr) (instr_rs1_f instr)))
      else if f5 = F5_30 \<and> rounding = RM_0 \<and> rs2 = RS2_0_U5 then RV64D (FmvDX (XRegToFRegArgs (instr_rd_f instr) (instr_rs1 instr)))
      else Unknown instr)"

definition parse_fp :: "u32 \<Rightarrow> InstrCacheable" where
  "parse_fp instr =
     (if instr_fmt instr = FMT_S then parse_fp_s instr
      else if instr_fmt instr = FMT_D then parse_fp_d instr
      else Unknown instr)"

definition parse_synch :: "u32 \<Rightarrow> Instr" where
  "parse_synch instr =
     (if funct3 instr = F3_0 then
        (if fm instr = FM_0 then Uncacheable (Fence (fence_instr instr))
         else if fm instr = FM_8 then Uncacheable (FenceTso (fence_instr instr))
         else Cacheable (Unknown instr))
      else if funct3 instr = F3_1 then Uncacheable FenceI
      else Cacheable (Unknown instr))"

definition parse_sys :: "u32 \<Rightarrow> Instr" where
  "parse_sys instr =
     (if funct3 instr = F3_0 then
        (if funct7 instr = F7_0 then
           (if rs1_bits instr = RS1_0 \<and> rs2_bits instr = RS2_0 then Uncacheable Ecall
            else if rs1_bits instr = RS1_0 \<and> rs2_bits instr = RS2_1 then Uncacheable Ebreak
            else Cacheable (Unknown instr))
         else if funct7 instr = F7_9 then
           Uncacheable (SFenceVma (instr_rs2 instr) (instr_rs1 instr))
         else if funct7 instr = F7_8 then
           (if rs1_bits instr = RS1_0 \<and> rs2_bits instr = RS2_2 then Uncacheable Sret
            else if rs1_bits instr = RS1_0 \<and> rs2_bits instr = RS2_5 then Uncacheable Wfi
            else Cacheable (Unknown instr))
         else if funct7 instr = F7_24 then
           (if rs1_bits instr = RS1_0 \<and> rs2_bits instr = RS2_2 then Uncacheable Mret
            else Cacheable (Unknown instr))
         else if funct7 instr = F7_56 then
           (if rs1_bits instr = RS1_0 \<and> rs2_bits instr = RS2_2 then Uncacheable Mnret
            else Cacheable (Unknown instr))
         else Cacheable (Unknown instr))
      else if funct3 instr = F3_1 then Cacheable (csr_instr (Zicsr \<circ> Csrrw) instr)
      else if funct3 instr = F3_2 then Cacheable (csr_instr (Zicsr \<circ> Csrrs) instr)
      else if funct3 instr = F3_3 then Cacheable (csr_instr (Zicsr \<circ> Csrrc) instr)
      else if funct3 instr = F3_5 then Cacheable (csri_instr (Zicsr \<circ> Csrrwi) instr)
      else if funct3 instr = F3_6 then Cacheable (csri_instr (Zicsr \<circ> Csrrsi) instr)
      else if funct3 instr = F3_7 then Cacheable (csri_instr (Zicsr \<circ> Csrrci) instr)
      else Cacheable (Unknown instr))"

definition parse_uncompressed_instruction :: "u32 \<Rightarrow> Instr" where
  "parse_uncompressed_instruction instr =
     (let op = opcode instr in
      if op = OP_ARITH then Cacheable (parse_arith instr)
      else if op = OP_ARITH_W then Cacheable (parse_arith_w instr)
      else if op = OP_ARITH_I then Cacheable (parse_arith_i instr)
      else if op = OP_LOAD then Cacheable (parse_load instr)
      else if op = OP_ARITH_IW then Cacheable (parse_arith_iw instr)
      else if op = OP_SYNCH then parse_synch instr
      else if op = OP_SYS then parse_sys instr
      else if op = OP_AMO then Cacheable (parse_amo instr)
      else if op = OP_STORE then Cacheable (parse_store instr)
      else if op = OP_BRANCH then Cacheable (parse_branch instr)
      else if op = OP_LUI then Cacheable (RV64I_U (Lui (u_instr instr)))
      else if op = OP_AUIPC then Cacheable (RV64I_U (Auipc (u_instr instr)))
      else if op = OP_FP then Cacheable (parse_fp instr)
      else if op = OP_FMADD then Cacheable (parse_fmadd instr)
      else if op = OP_FMSUB then Cacheable (parse_fmsub instr)
      else if op = OP_FNMSUB then Cacheable (parse_fnmsub instr)
      else if op = OP_FNMADD then Cacheable (parse_fnmadd instr)
      else if op = OP_FP_LOAD then Cacheable (parse_fp_load instr)
      else if op = OP_FP_STORE then Cacheable (parse_fp_store instr)
      else if op = OP_JAL then Cacheable (RV64I_J (Jal (j_instr instr)))
      else if op = OP_JALR then Cacheable (parse_jalr instr)
      else Cacheable (Unknown instr))"

section \<open>Bits of fields and immediates\<close>

lemma imm_masks:
  "(0b11111111111100000000000000000000 :: u32) = mask_subset 31 20"
  "(0b11111110000000000000000000000000 :: u32) = mask_subset 31 25"
  "(0b00000000000000000000111110000000 :: u32) = mask_subset 11 7"
  "(0b10000000000000000000000000000000 :: u32) = mask_subset 31 31"
  "(0b00000000000000000000000010000000 :: u32) = mask_subset 7 7"
  "(0b01111110000000000000000000000000 :: u32) = mask_subset 30 25"
  "(0b00000000000000000000111100000000 :: u32) = mask_subset 11 8"
  "(0b11111111111111111111000000000000 :: u32) = mask_subset 31 12"
  "(0b00000000000011111111000000000000 :: u32) = mask_subset 19 12"
  "(0b00000000000100000000000000000000 :: u32) = mask_subset 20 20"
  "(0b01111111111000000000000000000000 :: u32) = mask_subset 30 21"
  by (simp_all add: mask_subset_def)

lemmas imm_bits = imm_masks bit_mask_subset bit_signed_iff bit_signed_drop_bit_iff
  bit_and_iff bit_or_iff bit_push_bit_iff

lemma bit_i_imm [word_bits]:
  "bit (i_imm instr) n \<longleftrightarrow> n < 64 \<and> bit instr (if n < 11 then 20 + n else 31)"
  by (cases "n = 11") (auto simp: i_imm_def imm_bits not_less)

lemma bit_s_imm [word_bits]:
  "bit (s_imm instr) n \<longleftrightarrow>
   n < 64 \<and> bit instr (if n < 5 then 7 + n else if n < 11 then 20 + n else 31)"
  by (cases "n = 11") (auto simp: s_imm_def imm_bits not_less)

lemma bit_b_imm [word_bits]:
  "bit (b_imm instr) n \<longleftrightarrow>
   0 < n \<and> n < 64 \<and>
   bit instr (if n < 5 then 7 + n else if n < 11 then 20 + n else if n = 11 then 7 else 31)"
  by (cases "n = 11"; cases "n = 12"; cases "n = 0") (auto simp: b_imm_def imm_bits not_less)

lemma bit_u_imm [word_bits]:
  "bit (u_imm instr) n \<longleftrightarrow> 12 \<le> n \<and> n < 64 \<and> bit instr (if n < 31 then n else 31)"
  by (cases "n = 31") (auto simp: u_imm_def imm_bits not_less)

lemma bit_j_imm [word_bits]:
  "bit (j_imm instr) n \<longleftrightarrow>
   0 < n \<and> n < 64 \<and>
   bit instr (if n < 11 then 20 + n else if n = 11 then 20 else if n < 20 then n else 31)"
  by (cases "n = 11"; cases "n = 20"; cases "n = 0") (auto simp: j_imm_def imm_bits not_less)

lemma bit_instr_bits [word_bits]:
  "0 < n \<Longrightarrow> n \<le> 32 \<Longrightarrow> bit (instr_bits v p n) i \<longleftrightarrow> i < n \<and> bit v (p + i)"
  by (auto simp: instr_bits_def bit_and_iff bit_drop_bit_eq bit_not_iff bit_mask_iff possible_bit_word dest: bit_word_lt)

lemma bit_extract_u5 [word_bits]: "bit (extract_u5 v p) i \<longleftrightarrow> i < 5 \<and> bit v (p + i)"
  by (auto simp: extract_u5_def bit_ucast_iff bit_drop_bit_eq)

section \<open>Width of what is decoded\<close>

lemmas parse_arm_defs =
  parse_arith_def parse_arith_w_def parse_arith_i_def parse_load_def parse_arith_iw_def
  parse_amo_def parse_store_def parse_branch_def parse_fmadd_def parse_fmsub_def parse_fnmsub_def
  parse_fnmadd_def parse_fp_load_def parse_fp_store_def parse_jalr_def

lemma rounding_macros_width:
  "(\<And>a. cacheable_width (v1 a) = Uncompressed) \<Longrightarrow>
   cacheable_width (f_r_rm_1_instr v1 instr rm) = Uncompressed"
  "(\<And>a. cacheable_width (v2 a) = Uncompressed) \<Longrightarrow>
   cacheable_width (f_r_rm_2_instr v2 instr rs2 rm) = Uncompressed"
  "(\<And>a. cacheable_width (v3 a) = Uncompressed) \<Longrightarrow>
   cacheable_width (f_r_rm_3_instr v3 instr) = Uncompressed"
  "(\<And>a. cacheable_width (v4 a) = Uncompressed) \<Longrightarrow>
   cacheable_width (f_r_fmt_int_instr v4 instr rm) = Uncompressed"
  "(\<And>a. cacheable_width (v5 a) = Uncompressed) \<Longrightarrow>
   cacheable_width (f_r_int_fmt_instr v5 instr rm) = Uncompressed"
  by (simp_all add: f_r_rm_1_instr_def f_r_rm_2_instr_def f_r_rm_3_instr_def
      f_r_fmt_int_instr_def f_r_int_fmt_instr_def split: option.split)

lemma csr_macros_width:
  "(\<And>a. cacheable_width (v1 a) = Uncompressed) \<Longrightarrow>
   cacheable_width (csr_instr v1 instr) = Uncompressed"
  "(\<And>a. cacheable_width (v2 a) = Uncompressed) \<Longrightarrow>
   cacheable_width (csri_instr v2 instr) = Uncompressed"
  by (simp_all add: csr_instr_def csri_instr_def split: option.split)

lemma parse_arms_width:
  "cacheable_width (parse_arith instr) = Uncompressed"
  "cacheable_width (parse_arith_w instr) = Uncompressed"
  "cacheable_width (parse_arith_i instr) = Uncompressed"
  "cacheable_width (parse_load instr) = Uncompressed"
  "cacheable_width (parse_arith_iw instr) = Uncompressed"
  "cacheable_width (parse_amo instr) = Uncompressed"
  "cacheable_width (parse_store instr) = Uncompressed"
  "cacheable_width (parse_branch instr) = Uncompressed"
  "cacheable_width (parse_fmadd instr) = Uncompressed"
  "cacheable_width (parse_fmsub instr) = Uncompressed"
  "cacheable_width (parse_fnmsub instr) = Uncompressed"
  "cacheable_width (parse_fnmadd instr) = Uncompressed"
  "cacheable_width (parse_fp_load instr) = Uncompressed"
  "cacheable_width (parse_fp_store instr) = Uncompressed"
  "cacheable_width (parse_jalr instr) = Uncompressed"
  by (simp_all add: parse_arm_defs rounding_macros_width if_distrib [of cacheable_width]
      cong: if_cong)

lemma parse_fp_width: "cacheable_width (parse_fp instr) = Uncompressed"
  by (simp add: parse_fp_def parse_fp_s_def parse_fp_d_def Let_def rounding_macros_width
      if_distrib [of cacheable_width] cong: if_cong)

lemma parse_synch_width: "instr_width (parse_synch instr) = Uncompressed"
  by (simp add: parse_synch_def)

lemma parse_sys_width: "instr_width (parse_sys instr) = Uncompressed"
  by (simp add: parse_sys_def csr_macros_width if_distrib [of instr_width] cong: if_cong)

lemma parse_uncompressed_width:
  "instr_width (parse_uncompressed_instruction instr) = Uncompressed"
  by (simp add: parse_uncompressed_instruction_def Let_def parse_arms_width parse_fp_width
      parse_synch_width parse_sys_width if_distrib [of instr_width] cong: if_cong)

end
