(* ===== verification/Parser_C.thy ===== *)
theory Parser_C
  imports Parser
begin

text \<open>
  The decoder of compressed instructions (parser.rs, lines 863 to 1295): the compressed fields and
  immediates, the decision tree, the jump table that caches its value for every 16-bit word, and
  the entry points that decode one instruction, a block and a segment of bytes.
\<close>

section \<open>Fields and immediates\<close>

definition c_bits :: "u16 \<Rightarrow> nat \<Rightarrow> nat \<Rightarrow> u16" where
  "c_bits bytes pos n = drop_bit pos bytes AND drop_bit (16 - n) (NOT 0)"

definition c_rd_rs1 :: "u16 \<Rightarrow> XRegister" where
  "c_rd_rs1 instr = parse_xregister (extract_u5 instr 7)"

definition c_f_rd_rs1 :: "u16 \<Rightarrow> FRegister" where
  "c_f_rd_rs1 instr = parse_fregister (extract_u5 instr 7)"

definition c_rs2 :: "u16 \<Rightarrow> XRegister" where
  "c_rs2 instr = parse_xregister (extract_u5 instr 2)"

definition c_f_rs2 :: "u16 \<Rightarrow> FRegister" where
  "c_f_rs2 instr = parse_fregister (extract_u5 instr 2)"

definition c_reg_prime :: "u16 \<Rightarrow> nat \<Rightarrow> 5 word" where
  "c_reg_prime instr pos = ucast (ucast (drop_bit pos instr) :: 3 word) + 8"

definition c_rs1p :: "u16 \<Rightarrow> XRegister" where
  "c_rs1p instr = parse_xregister (c_reg_prime instr 7)"

definition c_rdp_rs2p :: "u16 \<Rightarrow> XRegister" where
  "c_rdp_rs2p instr = parse_xregister (c_reg_prime instr 2)"

definition c_f_rdp_rs2p :: "u16 \<Rightarrow> FRegister" where
  "c_f_rdp_rs2p instr = parse_fregister (c_reg_prime instr 2)"

definition c_opcode :: "u16 \<Rightarrow> u16" where
  "c_opcode instr = c_bits instr 0 2"

definition c_funct3 :: "u16 \<Rightarrow> u16" where
  "c_funct3 instr = c_bits instr 13 3"

definition c_q1_10 :: "u16 \<Rightarrow> u16" where
  "c_q1_10 instr = c_bits instr 10 2"

definition c_q1_5 :: "u16 \<Rightarrow> u16" where
  "c_q1_5 instr = c_bits instr 5 2"

definition sign_extend_u16 :: "u16 \<Rightarrow> nat \<Rightarrow> i64" where
  "sign_extend_u16 value sz =
     (let shift = 16 - sz in scast (signed_drop_bit shift (push_bit shift value)))"

definition clw_imm :: "u16 \<Rightarrow> i64" where
  "clw_imm instr =
     ucast (push_bit 6 (bits_subset instr 5 5) OR push_bit 3 (bits_subset instr 12 10)
            OR push_bit 2 (bits_subset instr 6 6))"

definition cld_imm :: "u16 \<Rightarrow> i64" where
  "cld_imm instr =
     ucast (push_bit 6 (bits_subset instr 6 5) OR push_bit 3 (bits_subset instr 12 10))"

definition ci_imm :: "u16 \<Rightarrow> i64" where
  "ci_imm instr =
     sign_extend_u16 (push_bit 5 (bits_subset instr 12 12) OR bits_subset instr 6 2) 6"

definition cslli_imm :: "u16 \<Rightarrow> i64" where
  "cslli_imm instr = ucast (push_bit 5 (bits_subset instr 12 12) OR bits_subset instr 6 2)"

definition ci_addi16sp_imm :: "u16 \<Rightarrow> i64" where
  "ci_addi16sp_imm instr =
     sign_extend_u16
       (push_bit 9 (bits_subset instr 12 12) OR push_bit 7 (bits_subset instr 4 3)
        OR push_bit 6 (bits_subset instr 5 5) OR push_bit 5 (bits_subset instr 2 2)
        OR push_bit 4 (bits_subset instr 6 6)) 10"

definition ci_lwsp_imm :: "u16 \<Rightarrow> i64" where
  "ci_lwsp_imm instr =
     ucast (push_bit 6 (bits_subset instr 3 2) OR push_bit 5 (bits_subset instr 12 12)
            OR push_bit 2 (bits_subset instr 6 4))"

definition ci_ldsp_imm :: "u16 \<Rightarrow> i64" where
  "ci_ldsp_imm instr =
     ucast (push_bit 6 (bits_subset instr 4 2) OR push_bit 5 (bits_subset instr 12 12)
            OR push_bit 3 (bits_subset instr 6 5))"

definition css_swsp_imm :: "u16 \<Rightarrow> i64" where
  "css_swsp_imm instr =
     ucast (push_bit 6 (bits_subset instr 8 7) OR push_bit 2 (bits_subset instr 12 9))"

definition css_sdsp_imm :: "u16 \<Rightarrow> i64" where
  "css_sdsp_imm instr =
     ucast (push_bit 6 (bits_subset instr 9 7) OR push_bit 3 (bits_subset instr 12 10))"

definition ciw_imm :: "u16 \<Rightarrow> i64" where
  "ciw_imm instr =
     ucast (push_bit 6 (bits_subset instr 10 7) OR push_bit 4 (bits_subset instr 12 11)
            OR push_bit 3 (bits_subset instr 5 5) OR push_bit 2 (bits_subset instr 6 6))"

definition cb_imm :: "u16 \<Rightarrow> i64" where
  "cb_imm instr =
     sign_extend_u16
       (push_bit 8 (bits_subset instr 12 12) OR push_bit 6 (bits_subset instr 6 5)
        OR push_bit 5 (bits_subset instr 2 2) OR push_bit 3 (bits_subset instr 11 10)
        OR push_bit 1 (bits_subset instr 4 3)) 9"

definition cb_shamt_imm :: "u16 \<Rightarrow> i64" where
  "cb_shamt_imm instr = ucast (push_bit 5 (bits_subset instr 12 12) OR bits_subset instr 6 2)"

definition cb_andi_imm :: "u16 \<Rightarrow> i64" where
  "cb_andi_imm instr =
     sign_extend_u16 (push_bit 5 (bits_subset instr 12 12) OR bits_subset instr 6 2) 6"

definition c_j_imm :: "u16 \<Rightarrow> i64" where
  "c_j_imm instr =
     sign_extend_u16
       (push_bit 11 (bits_subset instr 12 12) OR push_bit 10 (bits_subset instr 8 8)
        OR push_bit 8 (bits_subset instr 10 9) OR push_bit 7 (bits_subset instr 6 6)
        OR push_bit 6 (bits_subset instr 7 7) OR push_bit 5 (bits_subset instr 2 2)
        OR push_bit 4 (bits_subset instr 11 11) OR push_bit 1 (bits_subset instr 5 3)) 12"

section \<open>Argument macros and constants\<close>

definition cr_instr :: "u16 \<Rightarrow> CRTypeArgs" where
  "cr_instr instr = CRTypeArgs (c_rs1p instr) (c_rdp_rs2p instr)"

definition cc_instr :: "(u16 \<Rightarrow> i64) \<Rightarrow> u16 \<Rightarrow> CIBTypeArgs" where
  "cc_instr imm_f instr = CIBTypeArgs (c_rs1p instr) (imm_f instr)"

abbreviation OP_C0 :: "u16" where "OP_C0 \<equiv> 0b00"

abbreviation OP_C1 :: "u16" where "OP_C1 \<equiv> 0b01"

abbreviation OP_C2 :: "u16" where "OP_C2 \<equiv> 0b10"

abbreviation C_F3_0 :: "u16" where "C_F3_0 \<equiv> 0b000"

abbreviation C_F3_1 :: "u16" where "C_F3_1 \<equiv> 0b001"

abbreviation C_F3_2 :: "u16" where "C_F3_2 \<equiv> 0b010"

abbreviation C_F3_3 :: "u16" where "C_F3_3 \<equiv> 0b011"

abbreviation C_F3_4 :: "u16" where "C_F3_4 \<equiv> 0b100"

abbreviation C_F3_5 :: "u16" where "C_F3_5 \<equiv> 0b101"

abbreviation C_F3_6 :: "u16" where "C_F3_6 \<equiv> 0b110"

abbreviation C_F3_7 :: "u16" where "C_F3_7 \<equiv> 0b111"

abbreviation C_Q1_0 :: "u16" where "C_Q1_0 \<equiv> 0b00"

abbreviation C_Q1_1 :: "u16" where "C_Q1_1 \<equiv> 0b01"

abbreviation C_Q1_2 :: "u16" where "C_Q1_2 \<equiv> 0b10"

abbreviation C_Q1_3 :: "u16" where "C_Q1_3 \<equiv> 0b11"

section \<open>The decision tree\<close>

definition parse_c0 :: "u16 \<Rightarrow> InstrCacheable" where
  "parse_c0 instr =
     (let f3 = c_funct3 instr in
      if f3 = C_F3_1 then
        RV64DC (CFld (FLoadArgs (c_rs1p instr) (c_f_rdp_rs2p instr) (cld_imm instr)))
      else if f3 = C_F3_0 then
        (if ciw_imm instr = 0 then UnknownCompressed instr
         else RV32C (CAddi4spn (CIBTypeArgs (c_rdp_rs2p instr) (ciw_imm instr))))
      else if f3 = C_F3_2 then
        RV32C (CLw (ITypeArgs (c_rdp_rs2p instr) (c_rs1p instr) (clw_imm instr)))
      else if f3 = C_F3_3 then
        RV64C (CLd (ITypeArgs (c_rdp_rs2p instr) (c_rs1p instr) (cld_imm instr)))
      else if f3 = C_F3_5 then
        RV64DC (CFsd (FStoreArgs (c_rs1p instr) (c_f_rdp_rs2p instr) (cld_imm instr)))
      else if f3 = C_F3_6 then
        RV32C (CSw (SBTypeArgs (c_rs1p instr) (c_rdp_rs2p instr) (clw_imm instr)))
      else if f3 = C_F3_7 then
        RV64C (CSd (SBTypeArgs (c_rs1p instr) (c_rdp_rs2p instr) (cld_imm instr)))
      else UnknownCompressed instr)"

definition parse_c1_arith :: "u16 \<Rightarrow> InstrCacheable" where
  "parse_c1_arith instr =
     (if c_q1_10 instr = C_Q1_0 then RV32C (CSrli (cc_instr cb_shamt_imm instr))
      else if c_q1_10 instr = C_Q1_1 then RV32C (CSrai (cc_instr cb_shamt_imm instr))
      else if c_q1_10 instr = C_Q1_2 then RV32C (CAndi (cc_instr cb_andi_imm instr))
      else if c_q1_10 instr = C_Q1_3 then
        (let b12 = bit_at instr 12; q = c_q1_5 instr in
         if \<not> b12 \<and> q = C_Q1_0 then RV32C (CSub (cr_instr instr))
         else if \<not> b12 \<and> q = C_Q1_1 then RV32C (CXor (cr_instr instr))
         else if \<not> b12 \<and> q = C_Q1_2 then RV32C (COr (cr_instr instr))
         else if \<not> b12 \<and> q = C_Q1_3 then RV32C (CAnd (cr_instr instr))
         else if b12 \<and> q = C_Q1_0 then RV32C (CSubw (cr_instr instr))
         else if b12 \<and> q = C_Q1_1 then RV32C (CAddw (cr_instr instr))
         else UnknownCompressed instr)
      else UnknownCompressed instr)"

definition parse_c1 :: "u16 \<Rightarrow> InstrCacheable" where
  "parse_c1 instr =
     (let f3 = c_funct3 instr; rd_rs1 = c_rd_rs1 instr; imm = ci_imm instr in
      if f3 = C_F3_0 then
        (if imm = 0 \<and> rd_rs1 = X0 then RV32C CNop
         else if imm = 0 \<or> rd_rs1 = X0 then UnknownCompressed instr
         else RV32C (CAddi (CIBTypeArgs rd_rs1 imm)))
      else if f3 = C_F3_1 then
        (if rd_rs1 = X0 then UnknownCompressed instr
         else RV64C (CAddiw (CIBTypeArgs rd_rs1 imm)))
      else if f3 = C_F3_2 then
        (if rd_rs1 = X0 then UnknownCompressed instr
         else RV32C (CLi (CIBTypeArgs rd_rs1 imm)))
      else if f3 = C_F3_3 then
        (if bits_subset instr 6 2 = 0 \<and> \<not> bit_at instr 12 then UnknownCompressed instr
         else if rd_rs1 = X2 then RV32C (CAddi16sp (CJTypeArgs (ci_addi16sp_imm instr)))
         else if rd_rs1 = X0 then UnknownCompressed instr
         else RV32C (CLui (CIBTypeArgs rd_rs1 (push_bit 12 imm))))
      else if f3 = C_F3_4 then parse_c1_arith instr
      else if f3 = C_F3_5 then RV32C (CJ (CJTypeArgs (c_j_imm instr)))
      else if f3 = C_F3_6 then RV32C (CBeqz (cc_instr cb_imm instr))
      else if f3 = C_F3_7 then RV32C (CBnez (cc_instr cb_imm instr))
      else UnknownCompressed instr)"

definition parse_c2 :: "u16 \<Rightarrow> Instr" where
  "parse_c2 instr =
     (let f3 = c_funct3 instr; rd_rs1 = c_rd_rs1 instr; rs2 = c_rs2 instr in
      if f3 = C_F3_0 then
        (if rd_rs1 = X0 \<or> cslli_imm instr = 0 then Cacheable (UnknownCompressed instr)
         else Cacheable (RV32C (CSlli (CIBTypeArgs rd_rs1 (cslli_imm instr)))))
      else if f3 = C_F3_1 then
        Cacheable (RV64DC (CFldsp (CIBDTypeArgs (c_f_rd_rs1 instr) (ci_ldsp_imm instr))))
      else if f3 = C_F3_2 then
        (if rd_rs1 = X0 then Cacheable (UnknownCompressed instr)
         else Cacheable (RV32C (CLwsp (CIBTypeArgs rd_rs1 (ci_lwsp_imm instr)))))
      else if f3 = C_F3_3 then
        (if rd_rs1 = X0 then Cacheable (UnknownCompressed instr)
         else Cacheable (RV64C (CLdsp (CIBTypeArgs rd_rs1 (ci_ldsp_imm instr)))))
      else if f3 = C_F3_4 then
        (let b12 = bit_at instr 12 in
         if b12 \<and> rd_rs1 = X0 \<and> rs2 = X0 then Uncacheable CEbreak
         else if rd_rs1 = X0 then Cacheable (UnknownCompressed instr)
         else if b12 \<and> rs2 = X0 then Cacheable (RV32C (CJalr (CRJTypeArgs rd_rs1)))
         else if b12 then Cacheable (RV32C (CAdd (CRTypeArgs rd_rs1 rs2)))
         else if rs2 = X0 then Cacheable (RV32C (CJr (CRJTypeArgs rd_rs1)))
         else Cacheable (RV32C (CMv (CRTypeArgs rd_rs1 rs2))))
      else if f3 = C_F3_5 then
        Cacheable (RV64DC (CFsdsp (CSSDTypeArgs (c_f_rs2 instr) (css_sdsp_imm instr))))
      else if f3 = C_F3_6 then
        Cacheable (RV32C (CSwsp (CSSTypeArgs rs2 (css_swsp_imm instr))))
      else if f3 = C_F3_7 then
        Cacheable (RV64C (CSdsp (CSSTypeArgs rs2 (css_sdsp_imm instr))))
      else Cacheable (UnknownCompressed instr))"

definition parse_compressed_instruction_inner :: "u16 \<Rightarrow> Instr" where
  "parse_compressed_instruction_inner instr =
     (let op = c_opcode instr in
      if op = OP_C0 then Cacheable (parse_c0 instr)
      else if op = OP_C1 then Cacheable (parse_c1 instr)
      else if op = OP_C2 then parse_c2 instr
      else Cacheable (UnknownCompressed instr))"

section \<open>The jump table\<close>

definition NUM_COMPRESSED_INSTRUCTIONS :: nat where
  "NUM_COMPRESSED_INSTRUCTIONS = unat (- 1 :: u16) + 1"

function fill_jump_table :: "u16 \<Rightarrow> Instr list \<Rightarrow> Instr list" where
  "fill_jump_table i table =
     (if i < - 1
      then fill_jump_table (i + 1) (table[unat i := parse_compressed_instruction_inner i])
      else table[unat i := parse_compressed_instruction_inner i])"
  by pat_completeness auto
termination
proof (relation "measure (\<lambda>(i, table). 65535 - unat i)")
  fix i :: u16 and table :: "Instr list"
  assume "i < - 1"
  then have "unat i < 65535"
    by (simp add: word_less_nat_alt unsigned_minus_1_eq_mask mask_eq_exp_minus_1)
  then have "unat (i + 1) = unat i + 1" by (simp add: unat_word_ariths)
  with \<open>unat i < 65535\<close>
  show "((i + 1, table[unat i := parse_compressed_instruction_inner i]), (i, table))
      \<in> measure (\<lambda>(i, table). 65535 - unat i)"
    by simp
qed simp

declare fill_jump_table.simps [simp del]

definition COMPRESSED_JUMP_TABLE :: "Instr list" where
  "COMPRESSED_JUMP_TABLE =
     fill_jump_table 0 (replicate NUM_COMPRESSED_INSTRUCTIONS (Cacheable (Unknown 0)))"

definition parse_compressed_instruction :: "u16 \<Rightarrow> Instr" where
  "parse_compressed_instruction bytes = COMPRESSED_JUMP_TABLE ! unat bytes"

section \<open>Entry points\<close>

definition is_compressed :: "u16 \<Rightarrow> bool" where
  "is_compressed bytes = (bytes AND 0b11 \<noteq> 0b11)"

text \<open>\<^verbatim>\<open>next_half\<close> is the value the closure \<^verbatim>\<open>more\<close> of the source returns; it is looked at only when
  the first halfword is the lower half of an uncompressed instruction.\<close>

definition parse :: "u16 \<Rightarrow> ('e, u16) result \<Rightarrow> ('e, Instr) result" where
  "parse bytes next_half =
     (if bytes AND 0b11 \<noteq> 0b11 then Inr (parse_compressed_instruction bytes)
      else case next_half of
             Inl e \<Rightarrow> Inl e
           | Inr upper \<Rightarrow>
               Inr (parse_uncompressed_instruction (push_bit 16 (ucast upper) OR ucast bytes)))"

fun u16_iter_from_u8_iter :: "u8 list \<Rightarrow> u16 list" where
  "u16_iter_from_u8_iter (lower # upper # bytes) =
     (push_bit 8 (ucast upper) OR ucast lower) # u16_iter_from_u8_iter bytes"
| "u16_iter_from_u8_iter [lower] = []"
| "u16_iter_from_u8_iter [] = []"

text \<open>The iterator ends at the first halfword that has no second half.\<close>

fun instr_iter_from_u16_iter :: "u16 list \<Rightarrow> Instr list" where
  "instr_iter_from_u16_iter [] = []"
| "instr_iter_from_u16_iter [h] =
     (case parse h (Inl ()) of Inl _ \<Rightarrow> [] | Inr i \<Rightarrow> [i])"
| "instr_iter_from_u16_iter (h # u # hs) =
     (case parse h (Inr u :: (unit, u16) result) of
        Inl _ \<Rightarrow> []
      | Inr i \<Rightarrow> i # instr_iter_from_u16_iter (if is_compressed h then u # hs else hs))"

definition parse_block :: "u8 list \<Rightarrow> Instr list" where
  "parse_block bytes = instr_iter_from_u16_iter (u16_iter_from_u8_iter bytes)"

text \<open>A range outside the slice is a panic, \<^term>\<open>None\<close>.\<close>

definition parse_segment :: "u8 list \<Rightarrow> nat \<Rightarrow> nat \<Rightarrow> Instr list option" where
  "parse_segment contents start stop =
     (if start \<le> stop \<and> stop \<le> length contents
      then Some (parse_block (take (stop - start) (drop start contents)))
      else None)"

section \<open>Width and the jump table\<close>

lemma parse_compressed_inner_width:
  "instr_width (parse_compressed_instruction_inner instr) = Compressed"
  by (simp add: parse_compressed_instruction_inner_def parse_c0_def parse_c1_def
      parse_c1_arith_def parse_c2_def Let_def if_distrib [of instr_width]
      if_distrib [of cacheable_width] cong: if_cong)

lemma length_fill_jump_table [simp]: "length (fill_jump_table i table) = length table"
  by (induction i table rule: fill_jump_table.induct) (subst fill_jump_table.simps, simp)

lemma fill_jump_table_nth:
  assumes "length table = 65536"
    and "\<And>j. j < i \<Longrightarrow> table ! unat j = parse_compressed_instruction_inner j"
  shows "fill_jump_table i table ! unat k = parse_compressed_instruction_inner k"
  using assms
proof (induction i table rule: fill_jump_table.induct)
  case (1 i table)
  let ?t = "table[unat i := parse_compressed_instruction_inner i]"
  have len: "unat j < length table" for j :: u16
    using unsigned_less [of j, where ?'a = nat] 1(2) by simp
  have upd: "?t ! unat j = parse_compressed_instruction_inner j" if "j \<le> i" for j
  proof (cases "j = i")
    case False
    with that have "j < i" "unat i \<noteq> unat j" by (simp_all add: word_unat_eq_iff [symmetric])
    then show ?thesis using 1(3) by simp
  qed (simp add: len)
  show ?case
  proof (cases "i < - 1")
    case True
    have "fill_jump_table (i + 1) ?t ! unat k = parse_compressed_instruction_inner k"
    proof (rule 1(1) [OF True])
      show "length ?t = 65536" using 1(2) by simp
      fix j assume "j < i + 1"
      with True have "j \<le> i"
        by (metis inc_le linorder_not_less word_order.extremum_strict)
      then show "?t ! unat j = parse_compressed_instruction_inner j" by (rule upd)
    qed
    with True show ?thesis by (subst fill_jump_table.simps) simp
  next
    case False
    then have "i = - 1" using word_order.not_eq_extremum [of i] by blast
    then have "k \<le> i" by simp
    with False upd show ?thesis by (subst fill_jump_table.simps) simp
  qed
qed

lemma parse_compressed_instruction_eq:
  "parse_compressed_instruction instr = parse_compressed_instruction_inner instr"
  unfolding parse_compressed_instruction_def COMPRESSED_JUMP_TABLE_def
  by (rule fill_jump_table_nth)
    (simp_all add: NUM_COMPRESSED_INSTRUCTIONS_def unsigned_minus_1_eq_mask mask_eq_exp_minus_1)

lemma parse_compressed_width: "instr_width (parse_compressed_instruction instr) = Compressed"
  by (simp add: parse_compressed_instruction_eq parse_compressed_inner_width)

lemma parse_width:
  "parse bytes m = Inr i \<Longrightarrow> instr_width i = (if is_compressed bytes then Compressed else Uncompressed)"
  by (auto simp: parse_def is_compressed_def parse_compressed_width parse_uncompressed_width
      split: if_splits sum.splits)

section \<open>Blocks of instructions\<close>

definition block_width :: "Instr list \<Rightarrow> nat" where
  "block_width is = (\<Sum>i\<leftarrow>is. unat (width_u64 (instr_width i)))"

lemma block_width_simps [simp]:
  "block_width [] = 0"
  "block_width (i # is) = unat (width_u64 (instr_width i)) + block_width is"
  by (simp_all add: block_width_def)

lemma parse_compressed_simps [simp]:
  "is_compressed h \<Longrightarrow> parse h m = Inr (parse_compressed_instruction h)"
  "\<not> is_compressed h \<Longrightarrow> parse h (Inl e) = Inl e"
  "\<not> is_compressed h \<Longrightarrow>
   parse h (Inr u) = Inr (parse_uncompressed_instruction (push_bit 16 (ucast u) OR ucast h))"
  by (simp_all add: parse_def is_compressed_def)

lemma instr_iter_Cons_compressed:
  "is_compressed h \<Longrightarrow>
   instr_iter_from_u16_iter (h # hs) = parse_compressed_instruction h # instr_iter_from_u16_iter hs"
  by (cases hs) simp_all

lemma block_width_instr_iter: "block_width (instr_iter_from_u16_iter hs) \<le> 2 * length hs"
proof (induction hs rule: instr_iter_from_u16_iter.induct)
  case (2 h)
  then show ?case by (cases "is_compressed h") (simp_all add: parse_compressed_width width_u64_def)
next
  case (3 h u hs)
  then show ?case
    by (cases "is_compressed h")
      (simp_all add: parse_compressed_width parse_uncompressed_width width_u64_def)
qed simp

lemma instr_iter_append:
  "block_width (instr_iter_from_u16_iter hs) = 2 * length hs \<Longrightarrow>
   instr_iter_from_u16_iter (hs @ ks) = instr_iter_from_u16_iter hs @ instr_iter_from_u16_iter ks"
proof (induction hs rule: instr_iter_from_u16_iter.induct)
  case (2 h)
  then show ?case
    by (cases "is_compressed h") (simp_all add: instr_iter_Cons_compressed)
next
  case (3 h u hs)
  show ?case
  proof (cases "is_compressed h")
    case True
    with 3 show ?thesis
      by (simp add: instr_iter_Cons_compressed parse_compressed_width width_u64_def)
  next
    case False
    with 3 show ?thesis by (simp add: parse_uncompressed_width width_u64_def)
  qed
qed simp

lemma length_u16_iter: "length (u16_iter_from_u8_iter bs) = length bs div 2"
  by (induction bs rule: u16_iter_from_u8_iter.induct) simp_all

lemma u16_iter_append:
  "even (length bs) \<Longrightarrow>
   u16_iter_from_u8_iter (bs @ cs) = u16_iter_from_u8_iter bs @ u16_iter_from_u8_iter cs"
  by (induction bs rule: u16_iter_from_u8_iter.induct) simp_all

lemma block_width_even: "even (block_width is)"
  by (induction "is") (auto simp: width_u64_def split: InstrWidth.split)

lemma block_width_parse_block: "block_width (parse_block bs) \<le> length bs"
  using block_width_instr_iter [of "u16_iter_from_u8_iter bs"]
  by (simp add: parse_block_def length_u16_iter)

lemma parse_block_append:
  assumes "block_width (parse_block bs) = length bs"
  shows "parse_block (bs @ cs) = parse_block bs @ parse_block cs"
proof -
  have "even (length bs)" using assms block_width_even [of "parse_block bs"] by simp
  then show ?thesis using assms
    by (simp add: parse_block_def u16_iter_append instr_iter_append length_u16_iter)
qed

end
