(* ===== verification/Encoding.thy ===== *)
theory Encoding
  imports Parser_C
begin

text \<open>
  The instruction formats of the unprivileged specification (RV64I, RV64M and RV64A) as an encoder,
  used as the reference the decoder is measured against: decoding an encoded instruction gives the
  instruction back.  The encoder is a specification and models no code.
\<close>

section \<open>Formats\<close>

definition enc ::
  "7 word \<Rightarrow> 5 word \<Rightarrow> 5 word \<Rightarrow> 3 word \<Rightarrow> 5 word \<Rightarrow> 7 word \<Rightarrow> u32" where
  "enc f7 rs2 rs1 f3 rd op =
     push_bit 25 (ucast f7) OR push_bit 20 (ucast rs2) OR push_bit 15 (ucast rs1)
     OR push_bit 12 (ucast f3) OR push_bit 7 (ucast rd) OR ucast op"

fun r_enc :: "7 word \<Rightarrow> 3 word \<Rightarrow> 7 word \<Rightarrow> RTypeArgs \<Rightarrow> u32" where
  "r_enc f7 f3 op (RTypeArgs rd rs1 rs2) =
     enc f7 (xregister_number rs2) (xregister_number rs1) f3 (xregister_number rd) op"

fun i_enc :: "3 word \<Rightarrow> 7 word \<Rightarrow> ITypeArgs \<Rightarrow> u32" where
  "i_enc f3 op (ITypeArgs rd rs1 imm) =
     enc (ucast (drop_bit 5 imm)) (ucast imm) (xregister_number rs1) f3 (xregister_number rd) op"

fun s_enc :: "3 word \<Rightarrow> 7 word \<Rightarrow> SBTypeArgs \<Rightarrow> u32" where
  "s_enc f3 op (SBTypeArgs rs1 rs2 imm) =
     enc (ucast (drop_bit 5 imm)) (xregister_number rs2) (xregister_number rs1) f3 (ucast imm) op"

fun b_enc :: "3 word \<Rightarrow> 7 word \<Rightarrow> SBTypeArgs \<Rightarrow> u32" where
  "b_enc f3 op (SBTypeArgs rs1 rs2 imm) =
     enc (set_bit_to (ucast (drop_bit 5 imm)) 6 (bit imm 12))
       (xregister_number rs2) (xregister_number rs1) f3
       (set_bit_to (ucast imm) 0 (bit imm 11)) op"

fun u_enc :: "7 word \<Rightarrow> UJTypeArgs \<Rightarrow> u32" where
  "u_enc op (UJTypeArgs rd imm) =
     enc (ucast (drop_bit 25 imm)) (ucast (drop_bit 20 imm)) (ucast (drop_bit 15 imm))
       (ucast (drop_bit 12 imm)) (xregister_number rd) op"

fun j_enc :: "7 word \<Rightarrow> UJTypeArgs \<Rightarrow> u32" where
  "j_enc op (UJTypeArgs rd imm) =
     enc (set_bit_to (ucast (drop_bit 5 imm)) 6 (bit imm 20))
       (set_bit_to (ucast imm) 0 (bit imm 11))
       (ucast (drop_bit 15 imm)) (ucast (drop_bit 12 imm)) (xregister_number rd) op"

fun amo_enc :: "5 word \<Rightarrow> 3 word \<Rightarrow> AmoArgs \<Rightarrow> u32" where
  "amo_enc f5 f3 (AmoArgs rd rs1 rs2 aq rl) =
     enc (set_bit_to (set_bit_to (push_bit 2 (ucast f5)) 1 aq) 0 rl)
       (xregister_number rs2) (xregister_number rs1) f3 (xregister_number rd) 0b0101111"

section \<open>Instructions\<close>

fun encode_r :: "InstrR \<Rightarrow> u32" where
  "encode_r (Add a) = r_enc 0b0000000 0b000 0b0110011 a"
| "encode_r (Sub a) = r_enc 0b0100000 0b000 0b0110011 a"
| "encode_r (Xor a) = r_enc 0b0000000 0b100 0b0110011 a"
| "encode_r (Or a) = r_enc 0b0000000 0b110 0b0110011 a"
| "encode_r (And a) = r_enc 0b0000000 0b111 0b0110011 a"
| "encode_r (Sll a) = r_enc 0b0000000 0b001 0b0110011 a"
| "encode_r (Srl a) = r_enc 0b0000000 0b101 0b0110011 a"
| "encode_r (Sra a) = r_enc 0b0100000 0b101 0b0110011 a"
| "encode_r (Slt a) = r_enc 0b0000000 0b010 0b0110011 a"
| "encode_r (Sltu a) = r_enc 0b0000000 0b011 0b0110011 a"
| "encode_r (Addw a) = r_enc 0b0000000 0b000 0b0111011 a"
| "encode_r (Subw a) = r_enc 0b0100000 0b000 0b0111011 a"
| "encode_r (Sllw a) = r_enc 0b0000000 0b001 0b0111011 a"
| "encode_r (Srlw a) = r_enc 0b0000000 0b101 0b0111011 a"
| "encode_r (Sraw a) = r_enc 0b0100000 0b101 0b0111011 a"

fun encode_m :: "InstrM \<Rightarrow> u32" where
  "encode_m (Mul a) = r_enc 0b0000001 0b000 0b0110011 a"
| "encode_m (Mulh a) = r_enc 0b0000001 0b001 0b0110011 a"
| "encode_m (Mulhsu a) = r_enc 0b0000001 0b010 0b0110011 a"
| "encode_m (Mulhu a) = r_enc 0b0000001 0b011 0b0110011 a"
| "encode_m (Div a) = r_enc 0b0000001 0b100 0b0110011 a"
| "encode_m (Divu a) = r_enc 0b0000001 0b101 0b0110011 a"
| "encode_m (Rem a) = r_enc 0b0000001 0b110 0b0110011 a"
| "encode_m (Remu a) = r_enc 0b0000001 0b111 0b0110011 a"
| "encode_m (Mulw a) = r_enc 0b0000001 0b000 0b0111011 a"
| "encode_m (Divw a) = r_enc 0b0000001 0b100 0b0111011 a"
| "encode_m (Divuw a) = r_enc 0b0000001 0b101 0b0111011 a"
| "encode_m (Remw a) = r_enc 0b0000001 0b110 0b0111011 a"
| "encode_m (Remuw a) = r_enc 0b0000001 0b111 0b0111011 a"

text \<open>The immediate of a shift holds the shift amount in its lower six bits and the upper six bits
  of the format above them, as the decoder leaves it.\<close>

fun encode_i :: "InstrI \<Rightarrow> u32" where
  "encode_i (Addi a) = i_enc 0b000 0b0010011 a"
| "encode_i (Slti a) = i_enc 0b010 0b0010011 a"
| "encode_i (Sltiu a) = i_enc 0b011 0b0010011 a"
| "encode_i (Xori a) = i_enc 0b100 0b0010011 a"
| "encode_i (Ori a) = i_enc 0b110 0b0010011 a"
| "encode_i (Andi a) = i_enc 0b111 0b0010011 a"
| "encode_i (Slli a) = i_enc 0b001 0b0010011 a"
| "encode_i (Srli a) = i_enc 0b101 0b0010011 a"
| "encode_i (Srai a) = i_enc 0b101 0b0010011 a"
| "encode_i (Addiw a) = i_enc 0b000 0b0011011 a"
| "encode_i (Slliw a) = i_enc 0b001 0b0011011 a"
| "encode_i (Srliw a) = i_enc 0b101 0b0011011 a"
| "encode_i (Sraiw a) = i_enc 0b101 0b0011011 a"
| "encode_i (Lb a) = i_enc 0b000 0b0000011 a"
| "encode_i (Lh a) = i_enc 0b001 0b0000011 a"
| "encode_i (Lw a) = i_enc 0b010 0b0000011 a"
| "encode_i (Ld a) = i_enc 0b011 0b0000011 a"
| "encode_i (Lbu a) = i_enc 0b100 0b0000011 a"
| "encode_i (Lhu a) = i_enc 0b101 0b0000011 a"
| "encode_i (Lwu a) = i_enc 0b110 0b0000011 a"

fun encode_s :: "InstrS \<Rightarrow> u32" where
  "encode_s (Sb a) = s_enc 0b000 0b0100011 a"
| "encode_s (Sh a) = s_enc 0b001 0b0100011 a"
| "encode_s (Sw a) = s_enc 0b010 0b0100011 a"
| "encode_s (Sd a) = s_enc 0b011 0b0100011 a"

fun encode_b :: "InstrB \<Rightarrow> u32" where
  "encode_b (Beq a) = b_enc 0b000 0b1100011 a"
| "encode_b (Bne a) = b_enc 0b001 0b1100011 a"
| "encode_b (Blt a) = b_enc 0b100 0b1100011 a"
| "encode_b (Bge a) = b_enc 0b101 0b1100011 a"
| "encode_b (Bltu a) = b_enc 0b110 0b1100011 a"
| "encode_b (Bgeu a) = b_enc 0b111 0b1100011 a"

fun encode_u :: "InstrU \<Rightarrow> u32" where
  "encode_u (Lui a) = u_enc 0b0110111 a"
| "encode_u (Auipc a) = u_enc 0b0010111 a"

fun encode_j :: "InstrJ \<Rightarrow> u32" where
  "encode_j (Jal a) = j_enc 0b1101111 a"
| "encode_j (Jalr a) = i_enc 0b000 0b1100111 a"

fun encode_a :: "InstrA \<Rightarrow> u32" where
  "encode_a (Lrw a) = amo_enc 0b00010 0b010 a"
| "encode_a (Scw a) = amo_enc 0b00011 0b010 a"
| "encode_a (Amoswapw a) = amo_enc 0b00001 0b010 a"
| "encode_a (Amoaddw a) = amo_enc 0b00000 0b010 a"
| "encode_a (Amoxorw a) = amo_enc 0b00100 0b010 a"
| "encode_a (Amoandw a) = amo_enc 0b01100 0b010 a"
| "encode_a (Amoorw a) = amo_enc 0b01000 0b010 a"
| "encode_a (Amominw a) = amo_enc 0b10000 0b010 a"
| "encode_a (Amomaxw a) = amo_enc 0b10100 0b010 a"
| "encode_a (Amominuw a) = amo_enc 0b11000 0b010 a"
| "encode_a (Amomaxuw a) = amo_enc 0b11100 0b010 a"
| "encode_a (Lrd a) = amo_enc 0b00010 0b011 a"
| "encode_a (Scd a) = amo_enc 0b00011 0b011 a"
| "encode_a (Amoswapd a) = amo_enc 0b00001 0b011 a"
| "encode_a (Amoaddd a) = amo_enc 0b00000 0b011 a"
| "encode_a (Amoxord a) = amo_enc 0b00100 0b011 a"
| "encode_a (Amoandd a) = amo_enc 0b01100 0b011 a"
| "encode_a (Amoord a) = amo_enc 0b01000 0b011 a"
| "encode_a (Amomind a) = amo_enc 0b10000 0b011 a"
| "encode_a (Amomaxd a) = amo_enc 0b10100 0b011 a"
| "encode_a (Amominud a) = amo_enc 0b11000 0b011 a"
| "encode_a (Amomaxud a) = amo_enc 0b11100 0b011 a"

fun encode :: "InstrCacheable \<Rightarrow> u32 option" where
  "encode (RV64I_R i) = Some (encode_r i)"
| "encode (RV64M i) = Some (encode_m i)"
| "encode (RV64I_I i) = Some (encode_i i)"
| "encode (RV64I_S i) = Some (encode_s i)"
| "encode (RV64I_B i) = Some (encode_b i)"
| "encode (RV64I_U i) = Some (encode_u i)"
| "encode (RV64I_J i) = Some (encode_j i)"
| "encode (RV64A i) = Some (encode_a i)"
| "encode _ = None"

section \<open>Immediates that fit\<close>

definition fits :: "nat \<Rightarrow> i64 \<Rightarrow> bool" where
  "fits n imm \<longleftrightarrow> - (2 ^ n) \<le> sint imm \<and> sint imm < 2 ^ n"

fun imm_ok_i :: "InstrI \<Rightarrow> bool" where
  "imm_ok_i (Slli a) = (drop_bit 6 (it_imm a) = 0)"
| "imm_ok_i (Srli a) = (drop_bit 6 (it_imm a) = 0)"
| "imm_ok_i (Srai a) = (drop_bit 6 (it_imm a) = 16)"
| "imm_ok_i (Slliw a) = (drop_bit 6 (it_imm a) = 0)"
| "imm_ok_i (Srliw a) = (drop_bit 6 (it_imm a) = 0)"
| "imm_ok_i (Sraiw a) = (drop_bit 6 (it_imm a) = 16)"
| "imm_ok_i (Addi a) = fits 11 (it_imm a)"
| "imm_ok_i (Slti a) = fits 11 (it_imm a)"
| "imm_ok_i (Sltiu a) = fits 11 (it_imm a)"
| "imm_ok_i (Xori a) = fits 11 (it_imm a)"
| "imm_ok_i (Ori a) = fits 11 (it_imm a)"
| "imm_ok_i (Andi a) = fits 11 (it_imm a)"
| "imm_ok_i (Addiw a) = fits 11 (it_imm a)"
| "imm_ok_i (Lb a) = fits 11 (it_imm a)"
| "imm_ok_i (Lh a) = fits 11 (it_imm a)"
| "imm_ok_i (Lw a) = fits 11 (it_imm a)"
| "imm_ok_i (Ld a) = fits 11 (it_imm a)"
| "imm_ok_i (Lbu a) = fits 11 (it_imm a)"
| "imm_ok_i (Lhu a) = fits 11 (it_imm a)"
| "imm_ok_i (Lwu a) = fits 11 (it_imm a)"

fun imm_ok_s :: "InstrS \<Rightarrow> bool" where
  "imm_ok_s (Sb a) = fits 11 (sb_imm a)"
| "imm_ok_s (Sh a) = fits 11 (sb_imm a)"
| "imm_ok_s (Sw a) = fits 11 (sb_imm a)"
| "imm_ok_s (Sd a) = fits 11 (sb_imm a)"

definition branch_imm_ok :: "SBTypeArgs \<Rightarrow> bool" where
  "branch_imm_ok a \<longleftrightarrow> fits 12 (sb_imm a) \<and> \<not> bit (sb_imm a) 0"

fun imm_ok_b :: "InstrB \<Rightarrow> bool" where
  "imm_ok_b (Beq a) = branch_imm_ok a"
| "imm_ok_b (Bne a) = branch_imm_ok a"
| "imm_ok_b (Blt a) = branch_imm_ok a"
| "imm_ok_b (Bge a) = branch_imm_ok a"
| "imm_ok_b (Bltu a) = branch_imm_ok a"
| "imm_ok_b (Bgeu a) = branch_imm_ok a"

fun imm_ok_u :: "InstrU \<Rightarrow> bool" where
  "imm_ok_u (Lui a) = (fits 31 (uj_imm a) \<and> take_bit 12 (uj_imm a) = 0)"
| "imm_ok_u (Auipc a) = (fits 31 (uj_imm a) \<and> take_bit 12 (uj_imm a) = 0)"

fun imm_ok_j :: "InstrJ \<Rightarrow> bool" where
  "imm_ok_j (Jal a) = (fits 20 (uj_imm a) \<and> \<not> bit (uj_imm a) 0)"
| "imm_ok_j (Jalr a) = fits 11 (it_imm a)"

text \<open>LR has no second source register.\<close>

fun args_ok_a :: "InstrA \<Rightarrow> bool" where
  "args_ok_a (Lrw a) = (am_rs2 a = X0)"
| "args_ok_a (Lrd a) = (am_rs2 a = X0)"
| "args_ok_a _ = True"

fun encodable :: "InstrCacheable \<Rightarrow> bool" where
  "encodable (RV64I_R i) = True"
| "encodable (RV64M i) = True"
| "encodable (RV64I_I i) = imm_ok_i i"
| "encodable (RV64I_S i) = imm_ok_s i"
| "encodable (RV64I_B i) = imm_ok_b i"
| "encodable (RV64I_U i) = imm_ok_u i"
| "encodable (RV64I_J i) = imm_ok_j i"
| "encodable (RV64A i) = args_ok_a i"
| "encodable _ = False"

section \<open>Fields of an encoded instruction\<close>

lemma bit_enc:
  "bit (enc f7 rs2 rs1 f3 rd op) n \<longleftrightarrow>
   (if n < 7 then bit op n else if n < 12 then bit rd (n - 7) else if n < 15 then bit f3 (n - 12)
    else if n < 20 then bit rs1 (n - 15) else if n < 25 then bit rs2 (n - 20) else bit f7 (n - 25))"
  by (auto simp: enc_def bit_or_iff bit_push_bit_iff bit_ucast_iff possible_bit_word
      dest: bit_word_lt)

lemma enc_fields [simp]:
  "opcode (enc f7 rs2 rs1 f3 rd op) = ucast op"
  "funct3 (enc f7 rs2 rs1 f3 rd op) = ucast f3"
  "funct7 (enc f7 rs2 rs1 f3 rd op) = ucast f7"
  "funct5 (enc f7 rs2 rs1 f3 rd op) = ucast (drop_bit 2 f7)"
  "rs1_bits (enc f7 rs2 rs1 f3 rd op) = ucast rs1"
  "rs2_bits (enc f7 rs2 rs1 f3 rd op) = ucast rs2"
  "extract_u5 (enc f7 rs2 rs1 f3 rd op) 7 = rd"
  "extract_u5 (enc f7 rs2 rs1 f3 rd op) 15 = rs1"
  "extract_u5 (enc f7 rs2 rs1 f3 rd op) 20 = rs2"
  "instr_bits (enc f7 rs2 rs1 f3 rd op) 26 6 = ucast (drop_bit 1 f7)"
  by (rule bit_eqI, auto simp: opcode_def funct3_def funct7_def funct5_def rs1_bits_def
      rs2_bits_def bit_instr_bits bit_extract_u5 bit_enc bit_ucast_iff bit_drop_bit_eq
      bit_push_bit_iff possible_bit_word dest: bit_word_lt)+

lemma enc_imm_11_6 [simp]:
  "imm_11_6 (enc f7 rs2 rs1 f3 rd op) = push_bit 1 (ucast (drop_bit 1 f7))"
  by (simp only: imm_11_6_def enc_fields)

lemma enc_regs [simp]:
  "instr_rd (enc f7 rs2 rs1 f3 rd op) = parse_xregister rd"
  "instr_rs1 (enc f7 rs2 rs1 f3 rd op) = parse_xregister rs1"
  "instr_rs2 (enc f7 rs2 rs1 f3 rd op) = parse_xregister rs2"
  by (simp_all add: instr_rd_def instr_rs1_def instr_rs2_def rs1_bits_u5_def rs2_bits_u5_def)

lemma enc_amo_bits [simp]:
  "instr_bit (enc f7 rs2 rs1 f3 rd op) 26 = bit f7 1"
  "instr_bit (enc f7 rs2 rs1 f3 rd op) 25 = bit f7 0"
  unfolding instr_bit_def bit_iff_and_push_bit_not_eq_0 [symmetric] by (simp_all add: bit_enc)

lemma fits_bit:
  assumes "fits n imm" "n \<le> k" "k < 64"
  shows "bit imm k \<longleftrightarrow> bit imm n"
proof -
  have "signed_take_bit n (sint imm) = sint imm"
    using assms(1) by (simp add: fits_def signed_take_bit_int_eq_self_iff)
  then have "bit (sint imm) k = bit (signed_take_bit n (sint imm)) k" by simp
  also have "\<dots> = bit (sint imm) n" using assms by (simp add: bit_signed_take_bit_iff)
  finally show ?thesis using assms by (simp add: bit_sint_iff)
qed

lemma i_imm_enc:
  assumes "fits 11 imm"
  shows "i_imm (enc (ucast (drop_bit 5 imm)) (ucast imm) rs1 f3 rd op) = imm"
proof (rule bit_eqI)
  fix n :: nat
  assume "possible_bit TYPE(i64) n"
  then show "bit (i_imm (enc (ucast (drop_bit 5 imm)) (ucast imm) rs1 f3 rd op)) n \<longleftrightarrow> bit imm n"
    using fits_bit [OF assms, of n]
    by (auto simp: bit_i_imm bit_enc bit_ucast_iff bit_drop_bit_eq possible_bit_word not_less)
qed

lemma s_imm_enc:
  assumes "fits 11 imm"
  shows "s_imm (enc (ucast (drop_bit 5 imm)) rs2 rs1 f3 (ucast imm) op) = imm"
proof (rule bit_eqI)
  fix n :: nat
  assume "possible_bit TYPE(i64) n"
  then show "bit (s_imm (enc (ucast (drop_bit 5 imm)) rs2 rs1 f3 (ucast imm) op)) n \<longleftrightarrow> bit imm n"
    using fits_bit [OF assms, of n]
    by (auto simp: bit_s_imm bit_enc bit_ucast_iff bit_drop_bit_eq possible_bit_word not_less)
qed

lemma b_imm_enc:
  assumes "fits 12 imm" "\<not> bit imm 0"
  shows "b_imm (enc (set_bit_to (ucast (drop_bit 5 imm)) 6 (bit imm 12)) rs2 rs1 f3
     (set_bit_to (ucast imm) 0 (bit imm 11)) op) = imm"
proof (rule bit_eqI)
  fix n :: nat
  assume "possible_bit TYPE(i64) n"
  then have n: "n < 64" by (simp add: possible_bit_word)
  consider "n = 0" | "0 < n" "n < 5" | "5 \<le> n" "n < 11" | "n = 11" | "12 \<le> n" by linarith
  then show "bit (b_imm (enc (set_bit_to (ucast (drop_bit 5 imm)) 6 (bit imm 12))
      rs2 rs1 f3 (set_bit_to (ucast imm) 0 (bit imm 11)) op))
      n \<longleftrightarrow> bit imm n"
    by cases (use n assms fits_bit [OF assms(1), of n] in
      \<open>auto simp: bit_b_imm bit_enc bit_ucast_iff bit_drop_bit_eq bit_set_bit_to\<close>)
qed

lemma u_imm_enc:
  assumes "fits 31 imm" "take_bit 12 imm = 0"
  shows "u_imm (enc (ucast (drop_bit 25 imm)) (ucast (drop_bit 20 imm)) (ucast (drop_bit 15 imm))
     (ucast (drop_bit 12 imm)) rd op) = imm"
proof (rule bit_eqI)
  fix n :: nat
  have low: "\<not> bit imm n" if "n < 12"
    using that arg_cong [OF assms(2), of "\<lambda>w. bit w n"] by (simp add: bit_take_bit_iff)
  assume "possible_bit TYPE(i64) n"
  then show "bit (u_imm (enc (ucast (drop_bit 25 imm)) (ucast (drop_bit 20 imm))
      (ucast (drop_bit 15 imm)) (ucast (drop_bit 12 imm)) rd op)) n \<longleftrightarrow> bit imm n"
    using low fits_bit [OF assms(1), of n]
    by (auto simp: bit_u_imm bit_enc bit_ucast_iff bit_drop_bit_eq possible_bit_word)
qed

lemma j_imm_enc:
  assumes "fits 20 imm" "\<not> bit imm 0"
  shows "j_imm (enc (set_bit_to (ucast (drop_bit 5 imm)) 6 (bit imm 20))
       (set_bit_to (ucast imm) 0 (bit imm 11))
       (ucast (drop_bit 15 imm)) (ucast (drop_bit 12 imm)) rd op) = imm"
proof (rule bit_eqI)
  fix n :: nat
  assume "possible_bit TYPE(i64) n"
  then have n: "n < 64" by (simp add: possible_bit_word)
  consider "n = 0" | "0 < n" "n < 5" | "5 \<le> n" "n < 11" | "n = 11" | "12 \<le> n" "n < 15"
    | "15 \<le> n" "n < 20" | "20 \<le> n" by linarith
  then show "bit (j_imm (enc (set_bit_to (ucast (drop_bit 5 imm)) 6 (bit imm 20))
       (set_bit_to (ucast imm) 0 (bit imm 11))
       (ucast (drop_bit 15 imm)) (ucast (drop_bit 12 imm)) rd op)) n \<longleftrightarrow> bit imm n"
    by cases (use n assms fits_bit [OF assms(1), of n] in
      \<open>auto simp: bit_j_imm bit_enc bit_ucast_iff bit_drop_bit_eq bit_set_bit_to\<close>)
qed

section \<open>Decoding what was encoded\<close>

text \<open>One lemma per instruction group; the fields of each format are read back first.\<close>

lemma r_enc_fields:
  "opcode (r_enc f7 f3 op a) = ucast op"
  "funct3 (r_enc f7 f3 op a) = ucast f3"
  "funct7 (r_enc f7 f3 op a) = ucast f7"
  "r_instr (r_enc f7 f3 op a) = a"
  by (cases a, simp add: r_instr_def)+

lemma decode_encode_r: "parse_uncompressed_instruction (encode_r i) = Cacheable (RV64I_R i)"
  by (cases i) (simp_all add: parse_uncompressed_instruction_def Let_def parse_arith_def
      parse_arith_w_def r_enc_fields)

lemma decode_encode_m: "parse_uncompressed_instruction (encode_m i) = Cacheable (RV64M i)"
  by (cases i) (simp_all add: parse_uncompressed_instruction_def Let_def parse_arith_def
      parse_arith_w_def r_enc_fields)

lemma i_enc_fields:
  "opcode (i_enc f3 op a) = ucast op"
  "funct3 (i_enc f3 op a) = ucast f3"
  "fits 11 (it_imm a) \<Longrightarrow> i_instr (i_enc f3 op a) = a"
  by (cases a, simp add: i_instr_def i_imm_enc)+

lemma shift_fields:
  assumes "drop_bit 6 (it_imm a) = c" "c = 0 \<or> c = 16"
  shows "imm_11_6 (i_enc f3 op a) = ucast (push_bit 1 c)" "fits 11 (it_imm a)"
proof -
  obtain rd rs1 imm where a: "a = ITypeArgs rd rs1 imm" by (cases a)
  have "drop_bit 1 (ucast (drop_bit 5 imm) :: 7 word) = take_bit 6 (ucast (drop_bit 6 imm))"
    by (rule bit_eqI) (auto simp: bit_drop_bit_eq bit_ucast_iff bit_take_bit_iff possible_bit_word
        simp del: drop_bit_Suc)
  then show "imm_11_6 (i_enc f3 op a) = ucast (push_bit 1 c)"
    using assms by (auto simp: a simp del: drop_bit_Suc)
  have "uint imm div 64 = uint c"
    using arg_cong [OF assms(1), of uint] by (simp add: a drop_bit_eq_div uint_div_distrib)
  with assms(2) have "0 \<le> uint imm" "uint imm < 17 * 64" by auto
  then have "sint imm = uint imm" by (auto simp: sint_uint signed_take_bit_int_eq_self_iff intro: order_trans [of _ 0])
  with \<open>uint imm < 17 * 64\<close> show "fits 11 (it_imm a)"
    by (auto simp: fits_def a intro: order_trans [of _ 0])
qed

lemmas shift_fields0 = shift_fields [where c = 0, simplified]
lemmas shift_fields16 = shift_fields [where c = 16, simplified]

lemma decode_encode_i:
  assumes "imm_ok_i i"
  shows "parse_uncompressed_instruction (encode_i i) = Cacheable (RV64I_I i)"
  using assms
  by (cases i) (simp_all add: parse_uncompressed_instruction_def Let_def parse_arith_i_def
      parse_load_def parse_arith_iw_def i_enc_fields shift_fields0 shift_fields16)

lemma decode_encode_s:
  assumes "imm_ok_s i"
  shows "parse_uncompressed_instruction (encode_s i) = Cacheable (RV64I_S i)"
proof -
  have f: "opcode (s_enc f3 op a) = ucast op" "funct3 (s_enc f3 op a) = ucast f3"
    "fits 11 (sb_imm a) \<Longrightarrow> s_instr (s_enc f3 op a) = a" for f3 op a
    by (cases a, simp add: s_instr_def s_imm_enc)+
  show ?thesis using assms
    by (cases i) (simp_all add: parse_uncompressed_instruction_def Let_def parse_store_def f)
qed

lemma decode_encode_b:
  assumes "imm_ok_b i"
  shows "parse_uncompressed_instruction (encode_b i) = Cacheable (RV64I_B i)"
proof -
  have f: "opcode (b_enc f3 op a) = ucast op" "funct3 (b_enc f3 op a) = ucast f3"
    "branch_imm_ok a \<Longrightarrow> b_instr (b_enc f3 op a) = a" for f3 op a
    by (cases a, simp add: b_instr_def b_imm_enc branch_imm_ok_def)+
  show ?thesis using assms
    by (cases i) (simp_all add: parse_uncompressed_instruction_def Let_def parse_branch_def f)
qed

lemma decode_encode_u:
  assumes "imm_ok_u i"
  shows "parse_uncompressed_instruction (encode_u i) = Cacheable (RV64I_U i)"
proof -
  have f: "opcode (u_enc op a) = ucast op"
    "fits 31 (uj_imm a) \<Longrightarrow> take_bit 12 (uj_imm a) = 0 \<Longrightarrow> u_instr (u_enc op a) = a" for op a
    by (cases a, simp add: u_instr_def u_imm_enc)+
  show ?thesis using assms
    by (cases i) (simp_all add: parse_uncompressed_instruction_def Let_def f)
qed

lemma decode_encode_j:
  assumes "imm_ok_j i"
  shows "parse_uncompressed_instruction (encode_j i) = Cacheable (RV64I_J i)"
proof -
  have f: "opcode (j_enc op a) = ucast op"
    "fits 20 (uj_imm a) \<Longrightarrow> \<not> bit (uj_imm a) 0 \<Longrightarrow> j_instr (j_enc op a) = a" for op a
    by (cases a, simp add: j_instr_def j_imm_enc)+
  show ?thesis using assms
    by (cases i) (simp_all add: parse_uncompressed_instruction_def Let_def parse_jalr_def
        i_enc_fields f)
qed

lemma amo_enc_fields:
  "opcode (amo_enc f5 f3 a) = 0b0101111"
  "funct3 (amo_enc f5 f3 a) = ucast f3"
  "funct5 (amo_enc f5 f3 a) = ucast f5"
  "rs2_bits (amo_enc f5 f3 a) = ucast (xregister_number (am_rs2 a))"
  "amo_instr (amo_enc f5 f3 a) = a"
proof -
  obtain rd rs1 rs2 aq rl where a: "a = AmoArgs rd rs1 rs2 aq rl" by (cases a)
  let ?f7 = "set_bit_to (set_bit_to (push_bit 2 (ucast f5)) 1 aq) 0 rl :: 7 word"
  have "ucast (drop_bit 2 ?f7) = (ucast f5 :: u32)"
    by (rule bit_eqI) (auto simp: bit_ucast_iff bit_drop_bit_eq bit_set_bit_to bit_push_bit_iff
        possible_bit_word dest: bit_word_lt)
  then show "funct5 (amo_enc f5 f3 a) = ucast f5" by (simp add: a)
  have "bit ?f7 1 = aq" "bit ?f7 0 = rl" by (simp_all add: bit_set_bit_to)
  then show "amo_instr (amo_enc f5 f3 a) = a" by (simp add: a amo_instr_def)
qed (cases a, simp)+

lemma decode_encode_a:
  assumes "args_ok_a i"
  shows "parse_uncompressed_instruction (encode_a i) = Cacheable (RV64A i)"
proof -
  have x0: "xregister_number X0 = 0" by code_simp
  show ?thesis using assms
    by (cases i) (simp_all add: parse_uncompressed_instruction_def Let_def parse_amo_def
        amo_enc_fields x0)
qed

lemma decode_encode:
  assumes "encode i = Some w" "encodable i"
  shows "parse_uncompressed_instruction w = Cacheable i"
  using assms
  by (cases i) (auto simp: decode_encode_r decode_encode_m decode_encode_i decode_encode_s
      decode_encode_b decode_encode_u decode_encode_j decode_encode_a)

end
