(* ===== verification/Fence_Cache.thy ===== *)
theory Fence_Cache
  imports Prelude
begin

text \<open>
  Fence counters (cache_utils.rs).  A cache stamps every entry with the value its fence counter had
  when the entry was written, and flushes by incrementing the counter, which wraps at 32 bits.  To
  keep an old stamp from becoming current again, each flush also kills the one entry whose index is
  the counter modulo the cache size.  The locale \<^verbatim>\<open>fence_cache\<close> states what such a
  cache provides and proves once that no flush ever leaves an entry alive, however often the counter
  wraps; the translation cache, the instruction cache and the block cache interpret it.
\<close>

section \<open>Fence counters\<close>

type_synonym FenceCounter = u32

definition FenceCounter_INITIAL :: FenceCounter where
  "FenceCounter_INITIAL = 0"

definition fence_next :: "FenceCounter \<Rightarrow> FenceCounter" where
  "fence_next c = c + 1"

text \<open>The cache size is \<^verbatim>\<open>2 ^ BITS\<close>; the source rejects any other size at compile time.\<close>

definition cache_index :: "nat \<Rightarrow> Address \<Rightarrow> nat" where
  "cache_index BITS phys_addr = unat (drop_bit 1 phys_addr) mod 2 ^ BITS"

section \<open>Caches with a fence counter\<close>

locale fence_cache =
  fixes live :: "'e \<Rightarrow> bool"
    and stamp :: "'e \<Rightarrow> FenceCounter"
    and kill :: "'e \<Rightarrow> 'e"
    and BITS :: nat
    and SHIFT :: nat
  assumes kill_dead: "\<not> live (kill e)"
    and bits_bound: "SHIFT + BITS < 32"
begin

text \<open>The entry that the invalidation with counter \<^verbatim>\<open>c\<close> clears.\<close>

definition due :: "FenceCounter \<Rightarrow> nat" where
  "due c = unat c div 2 ^ SHIFT mod 2 ^ BITS"

text \<open>No counter value since an entry was stamped has its index, so the entry has not been due.\<close>

definition fresh :: "FenceCounter \<Rightarrow> (nat \<Rightarrow> 'e) \<Rightarrow> bool" where
  "fresh c es \<longleftrightarrow>
     (\<forall>i < 2 ^ BITS. live (es i) \<longrightarrow>
        (\<forall>d < unat (c - stamp (es i)). due (stamp (es i) + of_nat d) \<noteq> i))"

abbreviation N :: nat where
  "N \<equiv> 2 ^ (SHIFT + BITS)"

lemma due_eq: "due c = unat c mod N div 2 ^ SHIFT"
  by (simp add: due_def div_exp_mod_exp_eq)

lemma due_bound: "due c < 2 ^ BITS"
  by (simp add: due_def)

lemma unat_add_mod: "unat (s + of_nat d :: FenceCounter) mod N = (unat s + d) mod N"
proof -
  have "N dvd 2 ^ 32" using bits_bound by (intro le_imp_power_dvd) simp
  then have "(unat s + d) mod 2 ^ 32 mod N = (unat s + d) mod N"
    by (rule mod_mod_cancel)
  then show ?thesis by (simp add: unat_word_ariths unat_of_nat mod_add_right_eq)
qed

lemma due_within:
  assumes "i < 2 ^ BITS"
  shows "\<exists>d < N. due (s + of_nat d) = i"
proof -
  let ?s = "unat s mod N" and ?t = "i * 2 ^ SHIFT"
  have t: "?t < N"
    using assms by (simp add: power_add mult.commute)
  have "?s \<le> ?t + N" by (simp add: less_imp_le trans_le_add2)
  then have "(?s + (?t + N - ?s)) mod N = ?t" using t by simp
  then have "(unat s + (?t + N - ?s) mod N) mod N = ?t"
    by (simp add: mod_add_left_eq mod_add_right_eq)
  then have "due (s + of_nat ((?t + N - ?s) mod N)) = i"
    by (simp add: due_eq unat_add_mod)
  moreover have "(?t + N - ?s) mod N < N" by simp
  ultimately show ?thesis by blast
qed

lemma fresh_age:
  assumes "fresh c es" "i < 2 ^ BITS" "live (es i)"
  shows "unat (c - stamp (es i)) < N"
proof (rule ccontr)
  assume n: "\<not> ?thesis"
  obtain d where "d < N" "due (stamp (es i) + of_nat d) = i"
    using due_within [OF assms(2)] by blast
  with n assms show False unfolding fresh_def by (meson le_less_trans not_le order.strict_trans)
qed

lemma fresh_reset: "(\<And>i. \<not> live (es i)) \<Longrightarrow> fresh c es"
  by (simp add: fresh_def)

lemma fresh_insert: "fresh c es \<Longrightarrow> stamp e = c \<Longrightarrow> fresh c (es(i := e))"
  by (simp add: fresh_def)

lemma fresh_kill: "fresh c es \<Longrightarrow> fresh c (es(i := kill (es i)))"
  by (simp add: fresh_def kill_dead)

lemma fresh_invalidate:
  assumes "fresh c es"
  shows "fresh (fence_next c) (es(due c := kill (es (due c))))"
proof -
  let ?es = "es(due c := kill (es (due c)))"
  have "due (stamp (?es i) + of_nat d) \<noteq> i"
    if i: "i < 2 ^ BITS" "live (?es i)" and d: "d < unat (fence_next c - stamp (?es i))" for i d
  proof -
    have ne: "i \<noteq> due c" using i(2) by (auto simp: kill_dead split: if_splits)
    then have es: "?es i = es i" by simp
    let ?age = "unat (c - stamp (es i))"
    have "?age < N" using fresh_age [OF assms i(1)] i(2) es by simp
    moreover have "N < 2 ^ 32" using bits_bound by (intro power_strict_increasing) simp_all
    ultimately have "unat (c - stamp (es i) + 1) = ?age + 1"
      by (simp add: unat_word_ariths)
    moreover have "fence_next c - stamp (es i) = c - stamp (es i) + 1"
      by (simp add: fence_next_def)
    ultimately have "d < ?age + 1" using d unfolding es by metis
    then have "d < ?age \<or> d = ?age" by linarith
    then show ?thesis
    proof
      assume "d < ?age"
      with assms i es show ?thesis by (simp add: fresh_def)
    next
      assume "d = ?age"
      then have "stamp (es i) + of_nat d = c" by simp
      with ne es show ?thesis by simp
    qed
  qed
  then show ?thesis by (simp only: fresh_def) blast
qed

lemma invalidate_no_hit:
  assumes "fresh c es" "i < 2 ^ BITS" "live ((es(due c := kill (es (due c)))) i)"
  shows "stamp ((es(due c := kill (es (due c)))) i) \<noteq> fence_next c"
proof
  let ?es = "es(due c := kill (es (due c)))"
  assume *: "stamp (?es i) = fence_next c"
  have "?es i = es i" using assms(3) by (auto simp: kill_dead split: if_splits)
  with * have "c - stamp (es i) = - 1" by (simp add: fence_next_def)
  moreover have "unat (c - stamp (es i)) < N"
    using fresh_age [OF assms(1,2)] assms(3) \<open>?es i = es i\<close> by simp
  moreover have "N \<le> 2 ^ 31" using bits_bound by (intro power_increasing) simp_all
  ultimately show False by (simp add: unsigned_minus_1_eq_mask mask_eq_exp_minus_1)
qed

end

end
