(* ===== verification/Sv_Walk.thy ===== *)
theory Sv_Walk
  imports Satp Memory Traps
begin

text \<open>
  Virtual memory without the cache: fields of virtual and physical addresses
  (virtual_address.rs, physical_address.rs), page table entries (pte.rs) and the page table walk
  \<^verbatim>\<open>sv_translate_impl\<close> (address_translation.rs).  The loop of the walk is a recursion on the
  level, which ends because the level decreases.  The lemmas show that the walk looks at the page of
  an address only and keeps its offset, which is what makes caching per page sound.
\<close>

section \<open>Constants and access types\<close>

definition PAGE_OFFSET_WIDTH :: nat where
  "PAGE_OFFSET_WIDTH = 12"

definition PAGE_SIZE :: u64 where
  "PAGE_SIZE = push_bit PAGE_OFFSET_WIDTH 1"

datatype AccessType = AccInstruction | AccLoad | AccStore

fun access_exception :: "AccessType \<Rightarrow> Address \<Rightarrow> Exception" where
  "access_exception AccInstruction addr = InstructionPageFault addr"
| "access_exception AccLoad addr = LoadPageFault addr"
| "access_exception AccStore addr = StoreAMOPageFault addr"

text \<open>\<^verbatim>\<open>SvConstants\<close>: the number of levels and the size of a page table entry.\<close>

record SvConstants =
  sv_levels :: nat
  sv_pte_size :: u64

fun algorithm_constants :: "SvLength \<Rightarrow> SvConstants" where
  "algorithm_constants SvLen39 = \<lparr>sv_levels = 3, sv_pte_size = 8\<rparr>"
| "algorithm_constants SvLen48 = \<lparr>sv_levels = 4, sv_pte_size = 8\<rparr>"
| "algorithm_constants SvLen57 = \<lparr>sv_levels = 5, sv_pte_size = 8\<rparr>"

section \<open>Virtual addresses\<close>

definition get_raw_vpn_i_range :: "SvLength \<Rightarrow> nat \<Rightarrow> (nat \<times> nat) option" where
  "get_raw_vpn_i_range sv_length index =
     (if index = 0 then Some (8, 0)
      else if index = 1 then Some (17, 9)
      else if index = 2 then Some (26, 18)
      else if index = 3 \<and> (sv_length = SvLen48 \<or> sv_length = SvLen57) then Some (35, 27)
      else if index = 4 \<and> sv_length = SvLen57 then Some (44, 36)
      else None)"

definition va_get_page_offset :: "u64 \<Rightarrow> u64" where
  "va_get_page_offset addr = addr AND ones (of_nat PAGE_OFFSET_WIDTH)"

definition get_vpn_idx :: "Address \<Rightarrow> SvLength \<Rightarrow> nat \<Rightarrow> u64 option" where
  "get_vpn_idx v_addr sv_length index =
     (case get_raw_vpn_i_range sv_length index of
        None \<Rightarrow> None
      | Some (start, stop) \<Rightarrow>
          Some (bits_subset v_addr (start + PAGE_OFFSET_WIDTH) (stop + PAGE_OFFSET_WIDTH)))"

section \<open>Physical addresses\<close>

definition get_raw_ppn_i_range :: "SvLength \<Rightarrow> nat \<Rightarrow> (nat \<times> nat) option" where
  "get_raw_ppn_i_range sv_length index =
     (if 4 < index then None
      else (case sv_length of
              SvLen39 \<Rightarrow> [Some (8, 0), Some (17, 9), Some (43, 18), None, None]
            | SvLen48 \<Rightarrow> [Some (8, 0), Some (17, 9), Some (26, 18), Some (43, 27), None]
            | SvLen57 \<Rightarrow> [Some (8, 0), Some (17, 9), Some (26, 18), Some (35, 27), Some (43, 36)])
           ! index)"

definition pa_get_page_offset :: "u64 \<Rightarrow> u64" where
  "pa_get_page_offset addr = addr AND ones (of_nat PAGE_OFFSET_WIDTH)"

definition set_page_offset :: "u64 \<Rightarrow> u64 \<Rightarrow> u64" where
  "set_page_offset addr page_offset =
     (let m = ones (of_nat PAGE_OFFSET_WIDTH) in (addr AND NOT m) OR (page_offset AND m))"

definition get_ppn_idx :: "Address \<Rightarrow> SvLength \<Rightarrow> nat \<Rightarrow> Address option" where
  "get_ppn_idx p_addr sv_length index =
     (case get_raw_ppn_i_range sv_length index of
        None \<Rightarrow> None
      | Some (start, stop) \<Rightarrow>
          Some (bits_subset p_addr (start + PAGE_OFFSET_WIDTH) (stop + PAGE_OFFSET_WIDTH)))"

definition set_ppn_idx :: "Address \<Rightarrow> SvLength \<Rightarrow> nat \<Rightarrow> Address \<Rightarrow> Address option" where
  "set_ppn_idx p_addr sv_length index ppn_value =
     (case get_raw_ppn_i_range sv_length index of
        None \<Rightarrow> None
      | Some (start, stop) \<Rightarrow>
          Some (replace_subset p_addr (start + PAGE_OFFSET_WIDTH) (stop + PAGE_OFFSET_WIDTH) ppn_value))"

section \<open>Page table entries\<close>

text \<open>A \<^verbatim>\<open>PPNField\<close> holds 44 bits.\<close>

type_synonym PPNField = "44 word"

definition ppn_from_bits :: "u64 \<Rightarrow> PPNField" where
  "ppn_from_bits value = ucast (value AND ones 44)"

definition ppn_to_bits :: "PPNField \<Rightarrow> u64" where
  "ppn_to_bits x = ucast x AND ones 44"

definition ppn_i :: "PPNField \<Rightarrow> SvLength \<Rightarrow> nat \<Rightarrow> u64 option" where
  "ppn_i x sv_length index =
     (case get_raw_ppn_i_range sv_length index of
        None \<Rightarrow> None
      | Some (start, stop) \<Rightarrow> Some (bits_subset (ucast x) start stop))"

interpretation ppn_bits: Bits64 ppn_from_bits ppn_to_bits 44
  by unfold_locales
    (auto intro!: word_bits_eqI simp: ppn_from_bits_def ppn_to_bits_def word_bits bit_simps)

declare ppn_bits.csr_get_with [csr_simps]

abbreviation "PTE_v \<equiv> csr_get bool_from_bits (Suc 0) 0"
abbreviation "PTE_r \<equiv> csr_get bool_from_bits (Suc 0) (Suc 0)"
abbreviation "PTE_w \<equiv> csr_get bool_from_bits (Suc 0) 2"
abbreviation "PTE_x \<equiv> csr_get bool_from_bits (Suc 0) 3"
abbreviation "PTE_u \<equiv> csr_get bool_from_bits (Suc 0) 4"
abbreviation "PTE_g \<equiv> csr_get bool_from_bits (Suc 0) 5"
abbreviation "PTE_a \<equiv> csr_get bool_from_bits (Suc 0) 6"
abbreviation "PTE_d \<equiv> csr_get bool_from_bits (Suc 0) 7"
abbreviation "PTE_rsw \<equiv> csr_get constant_from_bits 2 8"
abbreviation "PTE_ppn \<equiv> csr_get ppn_from_bits 44 10"
abbreviation "PTE_wpri2 \<equiv> csr_get constant_from_bits 7 54"
abbreviation "PTE_pbmt \<equiv> csr_get constant_from_bits 2 61"
abbreviation "PTE_n \<equiv> csr_get constant_from_bits (Suc 0) 63"

definition PageTableEntry_from_bits :: "u64 \<Rightarrow> u64" where
  "PageTableEntry_from_bits v =
     (let new = 0;
          new = csr_with bool_to_bits (Suc 0) 0 (PTE_v v) new;
          new = csr_with bool_to_bits (Suc 0) (Suc 0) (PTE_r v) new;
          new = csr_with bool_to_bits (Suc 0) 2 (PTE_w v) new;
          new = csr_with bool_to_bits (Suc 0) 3 (PTE_x v) new;
          new = csr_with bool_to_bits (Suc 0) 4 (PTE_u v) new;
          new = csr_with bool_to_bits (Suc 0) 5 (PTE_g v) new;
          new = csr_with bool_to_bits (Suc 0) 6 (PTE_a v) new;
          new = csr_with bool_to_bits (Suc 0) 7 (PTE_d v) new;
          new = csr_with (constant_to_bits 0) 2 8 (PTE_rsw v) new;
          new = csr_with ppn_to_bits 44 10 (PTE_ppn v) new;
          new = csr_with (constant_to_bits 0) 7 54 (PTE_wpri2 v) new;
          new = csr_with (constant_to_bits 0) 2 61 (PTE_pbmt v) new;
          new = csr_with (constant_to_bits 0) (Suc 0) 63 (PTE_n v) new
      in new)"

section \<open>The walk\<close>

text \<open>The loop of \<^verbatim>\<open>sv_translate_impl\<close>: it returns the level and the leaf entry it found.\<close>

fun sv_walk ::
  "Bus \<Rightarrow> Address \<Rightarrow> SvLength \<Rightarrow> AccessType \<Rightarrow> nat \<Rightarrow> Address \<Rightarrow> (Exception, nat \<times> u64) result"
where
  "sv_walk bus v_addr sv_length access_type i a =
     (case get_vpn_idx v_addr sv_length i of
        None \<Rightarrow> Inl (access_exception access_type v_addr)
      | Some vpn_i \<Rightarrow>
          (let addr = a + vpn_i * sv_pte_size (algorithm_constants sv_length) in
           case bus_read bus addr of
             Inl e \<Rightarrow> Inl (LoadAccessFault addr)
           | Inr raw \<Rightarrow>
               (let pte = PageTableEntry_from_bits raw in
                if \<not> PTE_v pte \<or> (\<not> PTE_r pte \<and> PTE_w pte)
                then Inl (access_exception access_type v_addr)
                else if PTE_r pte \<or> PTE_x pte then Inr (i, pte)
                else if i = 0 then Inl (access_exception access_type v_addr)
                else sv_walk bus v_addr sv_length access_type (i - 1)
                       (ppn_to_bits (PTE_ppn pte) * PAGE_SIZE))))"

declare sv_walk.simps [simp del]

text \<open>The loops that set the page number parts of the physical address; \<^verbatim>\<open>part\<close> gives
  the value of each part.\<close>

fun set_ppns :: "SvLength \<Rightarrow> (nat \<Rightarrow> u64 option) \<Rightarrow> nat list \<Rightarrow> u64 \<Rightarrow> u64 option" where
  "set_ppns sv_length part [] pa = Some pa"
| "set_ppns sv_length part (idx # idxs) pa =
     (case part idx of
        None \<Rightarrow> None
      | Some v \<Rightarrow>
          (case set_ppn_idx pa sv_length idx v of
             None \<Rightarrow> None
           | Some pa' \<Rightarrow> set_ppns sv_length part idxs pa'))"

definition compose_p_addr :: "Address \<Rightarrow> SvLength \<Rightarrow> nat \<Rightarrow> PPNField \<Rightarrow> Address option" where
  "compose_p_addr v_addr sv_length i pte_ppn =
     (let pa = set_page_offset 0 (va_get_page_offset v_addr) in
      case set_ppns sv_length (get_vpn_idx v_addr sv_length) [0..<i] pa of
        None \<Rightarrow> None
      | Some pa' \<Rightarrow>
          set_ppns sv_length (ppn_i pte_ppn sv_length)
            [i..<sv_levels (algorithm_constants sv_length)] pa')"

definition sv_translate_impl ::
  "Bus \<Rightarrow> Address \<Rightarrow> u64 \<Rightarrow> SvLength \<Rightarrow> AccessType \<Rightarrow> (Exception, Address) result" where
  "sv_translate_impl bus v_addr satp sv_length access_type =
     (let levels = sv_levels (algorithm_constants sv_length);
          i = levels - 1;
          a = fixed_to_bits (Satp_ppn satp) * PAGE_SIZE in
      case sv_walk bus v_addr sv_length access_type i a of
        Inl e \<Rightarrow> Inl e
      | Inr (i, pte) \<Rightarrow>
          (let pte_ppn = PTE_ppn pte in
           if \<exists>idx \<in> set (rev [0..<i]). ppn_i pte_ppn sv_length idx \<noteq> Some 0
           then Inl (access_exception access_type v_addr)
           else if \<not> PTE_a pte \<or> (access_type = AccStore \<and> \<not> PTE_d pte)
           then Inl (access_exception access_type v_addr)
           else case compose_p_addr v_addr sv_length i pte_ppn of
                  None \<Rightarrow> Inl (access_exception access_type v_addr)
                | Some pa \<Rightarrow> Inr pa))"

section \<open>Fields\<close>

lemma PTE_get_from_bits [csr_simps]:
  "PTE_v (PageTableEntry_from_bits v) = PTE_v v"
  "PTE_r (PageTableEntry_from_bits v) = PTE_r v"
  "PTE_w (PageTableEntry_from_bits v) = PTE_w v"
  "PTE_x (PageTableEntry_from_bits v) = PTE_x v"
  "PTE_u (PageTableEntry_from_bits v) = PTE_u v"
  "PTE_a (PageTableEntry_from_bits v) = PTE_a v"
  "PTE_d (PageTableEntry_from_bits v) = PTE_d v"
  "PTE_ppn (PageTableEntry_from_bits v) = PTE_ppn v"
  by (simp_all add: PageTableEntry_from_bits_def Let_def csr_simps)

abbreviation levels :: "SvLength \<Rightarrow> nat" where
  "levels sv \<equiv> sv_levels (algorithm_constants sv)"

lemma levels_bounds: "3 \<le> levels sv" "levels sv \<le> 5"
  by (cases sv; simp)+

lemma vpn_range:
  "idx < levels sv \<Longrightarrow> get_raw_vpn_i_range sv idx = Some (9 * idx + 8, 9 * idx)"
  by (cases sv) (auto simp: get_raw_vpn_i_range_def numeral_eq_Suc less_Suc_eq)

lemma vpn_range_None: "levels sv \<le> idx \<Longrightarrow> get_raw_vpn_i_range sv idx = None"
  by (cases sv) (auto simp: get_raw_vpn_i_range_def)

lemma ppn_range:
  "idx < levels sv \<Longrightarrow>
   get_raw_ppn_i_range sv idx = Some (if idx = levels sv - 1 then 43 else 9 * idx + 8, 9 * idx)"
  by (cases sv) (auto simp: get_raw_ppn_i_range_def numeral_eq_Suc less_Suc_eq)

lemma ppn_range_None: "levels sv \<le> idx \<Longrightarrow> get_raw_ppn_i_range sv idx = None"
  by (cases sv; cases "idx = 3"; cases "idx = 4") (auto simp: get_raw_ppn_i_range_def)

lemma get_vpn_idx_eq:
  "idx < levels sv \<Longrightarrow> get_vpn_idx va sv idx = Some (bits_subset va (20 + 9 * idx) (9 * idx + 12))"
  by (simp add: get_vpn_idx_def vpn_range PAGE_OFFSET_WIDTH_def)

lemma get_vpn_idx_page:
  assumes "drop_bit 12 va = drop_bit 12 va'"
  shows "get_vpn_idx va sv idx = get_vpn_idx va' sv idx"
proof (cases "idx < levels sv")
  case True
  have b: "bit va n = bit va' n" if "12 \<le> n" for n
    using that arg_cong [OF assms, of "\<lambda>w. bit w (n - 12)"] by (simp add: bit_drop_bit_eq)
  have "bits_subset va (20 + 9 * idx) (9 * idx + 12) = bits_subset va' (20 + 9 * idx) (9 * idx + 12)"
    by (rule word_bits_eqI) (simp add: bit_bits_subset b)
  with True show ?thesis by (simp add: get_vpn_idx_eq)
qed (simp add: get_vpn_idx_def vpn_range_None)

section \<open>The composed address\<close>

lemma set_ppns_append:
  "set_ppns sv f (is @ js) pa =
   (case set_ppns sv f is pa of None \<Rightarrow> None | Some pa' \<Rightarrow> set_ppns sv f js pa')"
  by (induction "is" arbitrary: pa) (simp_all split: option.split)

lemma set_ppns_vpn:
  assumes "i < levels sv"
  shows "\<exists>pa'. set_ppns sv (get_vpn_idx va sv) [0..<i] pa = Some pa' \<and>
    (\<forall>n. bit pa' n \<longleftrightarrow> (if 12 \<le> n \<and> n < 12 + 9 * i then n < 64 \<and> bit va n else bit pa n))"
  using assms
proof (induction i)
  case (Suc i)
  then obtain pa' where pa': "set_ppns sv (get_vpn_idx va sv) [0..<i] pa = Some pa'"
    "\<And>n. bit pa' n \<longleftrightarrow> (if 12 \<le> n \<and> n < 12 + 9 * i then n < 64 \<and> bit va n else bit pa n)"
    by auto
  let ?v = "bits_subset va (20 + 9 * i) (9 * i + 12)"
  have "set_ppn_idx pa' sv i ?v = Some (replace_subset pa' (20 + 9 * i) (9 * i + 12) ?v)"
    using Suc.prems by (auto simp: set_ppn_idx_def ppn_range PAGE_OFFSET_WIDTH_def)
  then have "set_ppns sv (get_vpn_idx va sv) [0..<Suc i] pa
      = Some (replace_subset pa' (20 + 9 * i) (9 * i + 12) ?v)"
    using Suc.prems by (simp add: set_ppns_append pa'(1) get_vpn_idx_eq)
  moreover have "bit (replace_subset pa' (20 + 9 * i) (9 * i + 12) ?v) n
      \<longleftrightarrow> (if 12 \<le> n \<and> n < 12 + 9 * Suc i then n < 64 \<and> bit va n else bit pa n)" for n
    by (auto simp: bit_replace_subset bit_bits_subset pa'(2))
  ultimately show ?case by blast
qed auto

lemma set_ppns_ppn:
  assumes "j \<le> levels sv" "i \<le> j"
  shows "\<exists>pa'. set_ppns sv (ppn_i ppn sv) [i..<j] pa = Some pa' \<and>
    (\<forall>n. bit pa' n \<longleftrightarrow>
      (if 12 + 9 * i \<le> n \<and> n < (if j = levels sv \<and> i < j then 56 else 12 + 9 * j)
       then bit ppn (n - 12) else bit pa n))"
  using assms
proof (induction j)
  case (Suc j)
  show ?case
  proof (cases "i = Suc j")
    case False
    with Suc obtain pa' where pa': "set_ppns sv (ppn_i ppn sv) [i..<j] pa = Some pa'"
      "\<And>n. bit pa' n \<longleftrightarrow> (if 12 + 9 * i \<le> n \<and> n < 12 + 9 * j then bit ppn (n - 12) else bit pa n)"
      by auto
    define s where "s = (if j = levels sv - 1 then 43 else 9 * j + 8)"
    have j5: "j < 5" using Suc.prems levels_bounds(2) [of sv] by simp
    have s: "9 * j \<le> s" using j5 by (auto simp: s_def)
    let ?v = "bits_subset (ucast ppn) s (9 * j) :: u64"
    let ?pa = "replace_subset pa' (s + 12) (9 * j + 12) ?v"
    have "set_ppns sv (ppn_i ppn sv) [i..<Suc j] pa = Some ?pa"
      using Suc.prems False
      by (simp add: set_ppns_append pa'(1) ppn_i_def set_ppn_idx_def ppn_range s_def
          PAGE_OFFSET_WIDTH_def)
    moreover have "bit ?pa n \<longleftrightarrow>
        (if 12 + 9 * i \<le> n \<and> n < (if Suc j = levels sv \<and> i < Suc j then 56 else 12 + 9 * Suc j)
         then bit ppn (n - 12) else bit pa n)" for n
      using s Suc.prems False j5
      by (auto simp: bit_replace_subset bit_bits_subset bit_ucast_iff pa'(2) s_def dest: bit_word_lt)
    ultimately show ?thesis by blast
  qed auto
qed auto

text \<open>The address a leaf entry at level \<^verbatim>\<open>i\<close> gives: the offset and the lower page number
  parts come from the virtual address, the others from the entry.\<close>

definition leaf_p_addr :: "nat \<Rightarrow> PPNField \<Rightarrow> Address \<Rightarrow> Address" where
  "leaf_p_addr i ppn va =
     (push_bit 12 (ucast ppn) AND NOT (mask (12 + 9 * i))) OR (va AND mask (12 + 9 * i))"

lemma compose_p_addr_eq:
  assumes "i < levels sv"
  shows "compose_p_addr va sv i ppn = Some (leaf_p_addr i ppn va)"
proof -
  let ?pa = "set_page_offset 0 (va_get_page_offset va)"
  have p0: "bit ?pa n \<longleftrightarrow> n < 12 \<and> bit va n" for n
    by (auto simp: set_page_offset_def va_get_page_offset_def PAGE_OFFSET_WIDTH_def bit_and_iff
        bit_or_iff bit_not_iff word_bits)
  obtain pa1 where pa1: "set_ppns sv (get_vpn_idx va sv) [0..<i] ?pa = Some pa1"
    "\<And>n. bit pa1 n \<longleftrightarrow> (if 12 \<le> n \<and> n < 12 + 9 * i then n < 64 \<and> bit va n else bit ?pa n)"
    using set_ppns_vpn [OF assms, of va ?pa] by blast
  obtain pa2 where pa2: "set_ppns sv (ppn_i ppn sv) [i..<levels sv] pa1 = Some pa2"
    "\<And>n. bit pa2 n \<longleftrightarrow> (if 12 + 9 * i \<le> n \<and> n < 56 then bit ppn (n - 12) else bit pa1 n)"
    using set_ppns_ppn [of "levels sv" sv i ppn pa1] assms by auto
  have i5: "i < 5" using assms levels_bounds(2) [of sv] by simp
  have "pa2 = leaf_p_addr i ppn va"
  proof (rule word_bits_eqI)
    fix n assume "n < LENGTH(64)"
    with i5 show "bit pa2 n = bit (leaf_p_addr i ppn va) n"
      by (auto simp: pa2(2) pa1(2) p0 leaf_p_addr_def bit_or_iff bit_and_iff bit_not_iff
          bit_mask_iff bit_push_bit_iff bit_ucast_iff possible_bit_word dest: bit_word_lt)
  qed
  then show ?thesis by (simp add: compose_p_addr_def Let_def pa1(1) pa2(1))
qed

section \<open>Translation of a page\<close>

lemma leaf_p_addr_offset: "leaf_p_addr i ppn va AND mask 12 = va AND mask 12"
  by (rule word_bits_eqI)
    (auto simp: leaf_p_addr_def bit_and_iff bit_or_iff bit_not_iff bit_mask_iff)

lemma leaf_p_addr_page:
  assumes "drop_bit 12 va = drop_bit 12 va'"
  shows "leaf_p_addr i ppn va' = (leaf_p_addr i ppn va AND NOT (mask 12)) OR (va' AND mask 12)"
proof (rule word_bits_eqI)
  fix n assume "n < LENGTH(64)"
  have b: "bit va n = bit va' n" if "12 \<le> n"
    using that arg_cong [OF assms, of "\<lambda>w. bit w (n - 12)"] by (simp add: bit_drop_bit_eq)
  then show "bit (leaf_p_addr i ppn va') n
      = bit ((leaf_p_addr i ppn va AND NOT (mask 12)) OR (va' AND mask 12)) n"
    by (auto simp: leaf_p_addr_def bit_and_iff bit_or_iff bit_not_iff bit_mask_iff
        possible_bit_word)
qed

lemma sv_walk_page:
  assumes "drop_bit 12 va = drop_bit 12 va'"
  shows "sv_walk bus va sv acc i a = Inr r \<longleftrightarrow> sv_walk bus va' sv acc i a = Inr r"
proof (induction i arbitrary: a)
  case 0
  show ?case
    by (subst (1 2) sv_walk.simps)
      (simp add: get_vpn_idx_page [OF assms] Let_def split: option.split sum.split)
next
  case (Suc i)
  show ?case
    by (subst (1 2) sv_walk.simps)
      (simp add: get_vpn_idx_page [OF assms] Suc.IH Let_def split: option.split sum.split)
qed

text \<open>A leaf entry: valid, readable or executable, and not writable only.\<close>

definition leaf_pte :: "u64 \<Rightarrow> bool" where
  "leaf_pte pte \<longleftrightarrow> PTE_v pte \<and> (PTE_r pte \<or> PTE_x pte) \<and> (PTE_w pte \<longrightarrow> PTE_r pte)"

lemma sv_walk_leaf:
  "sv_walk bus va sv acc i a = Inr (j, pte) \<Longrightarrow> j \<le> i \<and> leaf_pte pte"
proof (induction i arbitrary: a)
  case 0
  then show ?case
    by (subst (asm) sv_walk.simps)
      (auto simp: Let_def leaf_pte_def split: option.splits sum.splits if_splits)
next
  case (Suc i)
  from Suc.prems show ?case
    by (subst (asm) sv_walk.simps)
      (auto simp: Let_def leaf_pte_def split: option.splits sum.splits if_splits dest!: Suc.IH)
qed

text \<open>No table entry below the leaf level is set in a superpage.\<close>

definition superpage_aligned :: "SvLength \<Rightarrow> nat \<Rightarrow> PPNField \<Rightarrow> bool" where
  "superpage_aligned sv i ppn \<longleftrightarrow> (\<forall>idx < i. ppn_i ppn sv idx = Some 0)"

lemma sv_translate_impl_iff:
  "sv_translate_impl bus va satp sv acc = Inr pa \<longleftrightarrow>
   (\<exists>i pte. sv_walk bus va sv acc (levels sv - 1) (fixed_to_bits (Satp_ppn satp) * PAGE_SIZE)
              = Inr (i, pte)
      \<and> superpage_aligned sv i (PTE_ppn pte) \<and> PTE_a pte \<and> (acc = AccStore \<longrightarrow> PTE_d pte)
      \<and> pa = leaf_p_addr i (PTE_ppn pte) va)"
  (is "?lhs \<longleftrightarrow> ?rhs")
proof (cases "sv_walk bus va sv acc (levels sv - 1) (fixed_to_bits (Satp_ppn satp) * PAGE_SIZE)")
  case (Inl e)
  then show ?thesis by (simp add: sv_translate_impl_def Let_def)
next
  case (Inr r)
  obtain i pte where r: "r = (i, pte)" by (cases r)
  have "i < levels sv"
    using sv_walk_leaf [OF Inr [unfolded r]] levels_bounds(1) [of sv] by auto
  then show ?thesis
    by (auto simp: sv_translate_impl_def Let_def Inr [unfolded One_nat_def] r compose_p_addr_eq superpage_aligned_def)
qed

lemma sv_translate_impl_page:
  assumes "drop_bit 12 va = drop_bit 12 va'" "sv_translate_impl bus va satp sv acc = Inr pa"
  shows "sv_translate_impl bus va' satp sv acc = Inr ((pa AND NOT (mask 12)) OR (va' AND mask 12))"
  using assms(2) leaf_p_addr_page [OF assms(1)]
  by (auto simp: sv_translate_impl_iff sv_walk_page [OF assms(1)])

lemma sv_translate_impl_offset:
  "sv_translate_impl bus va satp sv acc = Inr pa \<Longrightarrow> pa AND mask 12 = va AND mask 12"
  by (auto simp: sv_translate_impl_iff leaf_p_addr_offset)

section \<open>The page table\<close>

text \<open>The translation process of the privileged specification, on the entries as they are in memory: the
  virtual page number of level \<^verbatim>\<open>i\<close>, the page number of an entry, and the entry that the walk from a
  table at level \<^verbatim>\<open>i\<close> ends in.\<close>

definition spec_vpn :: "Address \<Rightarrow> nat \<Rightarrow> nat" where
  "spec_vpn va i = unat va div 2 ^ (12 + 9 * i) mod 2 ^ 9"

definition spec_ppn :: "u64 \<Rightarrow> nat" where
  "spec_ppn pte = unat pte div 2 ^ 10 mod 2 ^ 44"

inductive page_leaf :: "Bus \<Rightarrow> Address \<Rightarrow> nat \<Rightarrow> nat \<Rightarrow> nat \<Rightarrow> u64 \<Rightarrow> bool"
  for bus va where
  Leaf: "bus_read bus (of_nat (table + 8 * spec_vpn va i)) = Inr pte \<Longrightarrow> bit pte 0 \<Longrightarrow>
    bit pte 1 \<or> (bit pte 3 \<and> \<not> bit pte 2) \<Longrightarrow> page_leaf bus va i table i pte"
| Pointer: "bus_read bus (of_nat (table + 8 * spec_vpn va (Suc i))) = Inr pte \<Longrightarrow> bit pte 0 \<Longrightarrow>
    \<not> bit pte 1 \<Longrightarrow> \<not> bit pte 2 \<Longrightarrow> \<not> bit pte 3 \<Longrightarrow>
    page_leaf bus va i (4096 * spec_ppn pte) j leaf \<Longrightarrow> page_leaf bus va (Suc i) table j leaf"

inductive_cases page_leafE: "page_leaf bus va i table j leaf"

lemma bits_subset_eq: "stop \<le> start \<Longrightarrow> bits_subset v start stop = take_bit (Suc start - stop) (drop_bit stop v)"
  for v :: "'a::len word"
  by (rule word_bits_eqI) (auto simp: bit_bits_subset bit_take_bit_iff bit_drop_bit_eq add.commute)

lemma unat_bits_subset:
  fixes v :: "'a::len word"
  assumes "stop \<le> start"
  shows "unat (bits_subset v start stop) = unat v div 2 ^ stop mod 2 ^ (Suc start - stop)"
  unfolding bits_subset_eq [OF assms] unsigned_take_bit_eq unat_drop_bit_eq
  by (simp only: take_bit_eq_mod drop_bit_eq_div)

lemma of_nat_unat_word: "of_nat (unat w) = (w :: 'a::len word)"
  by simp

lemma vpn_word:
  assumes "idx < levels sv"
  shows "get_vpn_idx va sv idx = Some (of_nat (spec_vpn va idx))"
proof -
  have "spec_vpn va idx = unat (bits_subset va (20 + 9 * idx) (9 * idx + 12))"
    by (simp only: spec_vpn_def unat_bits_subset [of "9 * idx + 12" "20 + 9 * idx"]) (simp add: add.commute)
  then show ?thesis by (simp only: get_vpn_idx_eq [OF assms] of_nat_unat_word)
qed

lemma PTE_ppn_word: "ppn_to_bits (PTE_ppn pte) = of_nat (spec_ppn pte)"
proof -
  have "spec_ppn pte = unat (bits_subset pte 53 10)"
    unfolding spec_ppn_def by (subst unat_bits_subset) simp_all
  moreover have "ppn_to_bits (PTE_ppn pte) = bits_subset pte 53 10"
  proof (rule word_bits_eqI)
    fix n assume "n < LENGTH(64)"
    show "bit (ppn_to_bits (PTE_ppn pte)) n = bit (bits_subset pte 53 10) n"
      unfolding ppn_to_bits_def ppn_from_bits_def csr_get_def Let_def
      by (auto simp: bit_and_iff bit_ucast_iff bit_ones bit_bits_subset)
  qed
  ultimately show ?thesis by (simp only: of_nat_unat_word)
qed

lemma bool_field: "csr_get bool_from_bits (Suc 0) n pte = bit pte n"
  by (simp add: csr_get_def bool_from_bits_def bit_at_iff bit_bits_subset)

lemma pte_fields:
  "PTE_v (PageTableEntry_from_bits raw) = bit raw 0" "PTE_r (PageTableEntry_from_bits raw) = bit raw 1"
  "PTE_w (PageTableEntry_from_bits raw) = bit raw 2" "PTE_x (PageTableEntry_from_bits raw) = bit raw 3"
  "PTE_a (PageTableEntry_from_bits raw) = bit raw 6" "PTE_d (PageTableEntry_from_bits raw) = bit raw 7"
  "ppn_to_bits (PTE_ppn (PageTableEntry_from_bits raw)) = of_nat (spec_ppn raw)"
  unfolding PTE_get_from_bits unfolding bool_field PTE_ppn_word by simp_all

lemma PAGE_SIZE_eq: "PAGE_SIZE = of_nat 4096"
  by (simp add: PAGE_SIZE_def PAGE_OFFSET_WIDTH_def)

lemma page_leaf_iff:
  "page_leaf bus va i table j leaf \<longleftrightarrow>
   (case bus_read bus (of_nat (table + 8 * spec_vpn va i)) of
      Inl e \<Rightarrow> False
    | Inr pte \<Rightarrow> bit pte 0 \<and> (bit pte 2 \<longrightarrow> bit pte 1)
        \<and> (if bit pte 1 \<or> bit pte 3 then j = i \<and> leaf = pte
           else i \<noteq> 0 \<and> page_leaf bus va (i - 1) (4096 * spec_ppn pte) j leaf))"
  by (cases i; subst page_leaf.simps) (auto simp del: of_nat_add of_nat_mult split: sum.split)

lemma sv_walk_page_leaf:
  assumes "i < levels sv"
  shows "sv_walk bus va sv acc i (of_nat table) = Inr r \<longleftrightarrow>
    (\<exists>j raw. page_leaf bus va i table j raw \<and> r = (j, PageTableEntry_from_bits raw))"
  using assms
proof (induction i arbitrary: table rule: nat_less_induct)
  case (1 i)
  let ?a = "of_nat (table + 8 * spec_vpn va i) :: u64"
  have a: "of_nat table + of_nat (spec_vpn va i) * sv_pte_size (algorithm_constants sv) = ?a"
    by (cases sv) simp_all
  have IH: "sv_walk bus va sv acc (i - 1) (of_nat (4096 * spec_ppn raw)) = Inr r \<longleftrightarrow>
    (\<exists>j raw'. page_leaf bus va (i - 1) (4096 * spec_ppn raw) j raw' \<and> r = (j, PageTableEntry_from_bits raw'))"
    if "i \<noteq> 0" for raw
    using 1(1) [rule_format, of "i - 1" "4096 * spec_ppn raw"] 1(2) that by (simp del: of_nat_mult)
  have n: "of_nat (spec_ppn raw) * PAGE_SIZE = of_nat (4096 * spec_ppn raw)" for raw
    by (simp only: PAGE_SIZE_eq of_nat_mult mult.commute)
  show ?case
    by (subst sv_walk.simps, subst page_leaf_iff, unfold vpn_word [OF 1(2)] option.case Let_def a pte_fields n)
      (use IH in \<open>auto simp del: of_nat_mult of_nat_add split: sum.splits if_splits\<close>)
qed

lemma ppn_bound: "spec_ppn pte < 2 ^ 44"
  by (simp add: spec_ppn_def)

lemma ppn_field: "(ucast (PTE_ppn pte) :: u64) = of_nat (spec_ppn pte)"
proof -
  have "ppn_to_bits x = ucast x" for x :: PPNField
    by (rule word_bits_eqI) (auto simp: ppn_to_bits_def bit_and_iff bit_ucast_iff bit_ones dest: bit_word_lt)
  then show ?thesis using PTE_ppn_word [of pte] by metis
qed

lemma bit_ppn: "n < 64 \<Longrightarrow> bit (of_nat (spec_ppn pte) :: u64) n = bit (spec_ppn pte) n"
  by (simp add: bit_of_nat_iff possible_bit_word)

lemma superpage_dvd:
  assumes "i < levels sv"
  shows "superpage_aligned sv i (PTE_ppn pte) \<longleftrightarrow> 2 ^ (9 * i) dvd spec_ppn pte"
proof -
  have i5: "i < 5" using assms levels_bounds(2) [of sv] by simp
  have "ppn_i (PTE_ppn pte) sv idx = Some (bits_subset (of_nat (spec_ppn pte)) (9 * idx + 8) (9 * idx))"
    if "idx < i" for idx
  proof -
    have "idx < levels sv" "idx \<noteq> levels sv - 1" using that assms by linarith+
    then show ?thesis by (simp add: ppn_i_def ppn_range ppn_field)
  qed
  then have "superpage_aligned sv i (PTE_ppn pte) \<longleftrightarrow>
    (\<forall>idx < i. bits_subset (of_nat (spec_ppn pte) :: u64) (9 * idx + 8) (9 * idx) = 0)"
    by (simp add: superpage_aligned_def)
  also have "\<dots> \<longleftrightarrow> (\<forall>n < 9 * i. \<not> bit (spec_ppn pte) n)"
  proof (intro iffI allI impI)
    fix n assume h: "\<forall>idx < i. bits_subset (of_nat (spec_ppn pte) :: u64) (9 * idx + 8) (9 * idx) = 0" "n < 9 * i"
    then have "bits_subset (of_nat (spec_ppn pte) :: u64) (9 * (n div 9) + 8) (9 * (n div 9)) = 0" by simp
    then have "\<not> bit (bits_subset (of_nat (spec_ppn pte) :: u64) (9 * (n div 9) + 8) (9 * (n div 9))) (n mod 9)" by simp
    moreover have "n mod 9 + 9 * (n div 9) = n" "n mod 9 \<le> 8" by (simp, linarith)
    ultimately show "\<not> bit (spec_ppn pte) n" using h(2) i5 by (simp add: bit_bits_subset bit_ppn)
  next
    fix idx assume h: "\<forall>n < 9 * i. \<not> bit (spec_ppn pte) n" "idx < i"
    show "bits_subset (of_nat (spec_ppn pte) :: u64) (9 * idx + 8) (9 * idx) = 0"
      by (rule word_bits_eqI) (use h i5 in \<open>auto simp: bit_bits_subset bit_ppn\<close>)
  qed
  also have "\<dots> \<longleftrightarrow> 2 ^ (9 * i) dvd spec_ppn pte"
    unfolding take_bit_eq_0_iff [symmetric] by (auto simp: bit_eq_iff bit_take_bit_iff)
  finally show ?thesis .
qed

lemma leaf_p_addr_sum:
  assumes "2 ^ (9 * i) dvd spec_ppn pte" "i < 5"
  shows "unat (leaf_p_addr i (PTE_ppn pte) va) = 4096 * spec_ppn pte + unat va mod 2 ^ (12 + 9 * i)"
proof -
  let ?k = "12 + 9 * i" and ?p = "push_bit 12 (of_nat (spec_ppn pte)) :: u64"
  have "\<not> bit (spec_ppn pte) n" if "n < 9 * i" for n
    using assms(1) that unfolding take_bit_eq_0_iff [symmetric] by (auto simp: bit_eq_iff bit_take_bit_iff)
  then have low: "\<not> bit (spec_ppn pte) (n - 12)" if "12 \<le> n" "n < ?k" for n
    using that by (simp add: less_diff_conv2)
  have "?p AND NOT (mask ?k) = ?p"
  proof (rule word_bits_eqI)
    fix n assume "n < LENGTH(64)"
    with low [of n] show "bit (?p AND NOT (mask ?k)) n = bit ?p n"
      by (auto simp: bit_and_iff bit_not_iff bit_mask_iff bit_push_bit_iff bit_ppn)
  qed
  moreover have "?p AND (va AND mask ?k) = 0"
  proof (rule word_bits_eqI)
    fix n assume "n < LENGTH(64)"
    with low [of n] show "bit (?p AND (va AND mask ?k)) n = bit (0 :: u64) n"
      by (auto simp: bit_and_iff bit_mask_iff bit_push_bit_iff bit_ppn)
  qed
  ultimately have "leaf_p_addr i (PTE_ppn pte) va = ?p + (va AND mask ?k)"
    by (simp add: leaf_p_addr_def ppn_field disjunctive_add_eq_or)
  moreover have p: "unat ?p = 4096 * spec_ppn pte"
    using ppn_bound [of pte] by (simp add: push_bit_eq_mult unat_word_ariths unat_of_nat)
  moreover have v: "unat (va AND mask ?k) = unat va mod 2 ^ ?k"
    unfolding take_bit_eq_mask [symmetric] unsigned_take_bit_eq by (simp only: take_bit_eq_mod)
  moreover have "unat va mod 2 ^ ?k < 2 ^ 48"
  proof -
    have "(2 :: nat) ^ ?k \<le> 2 ^ 48" using assms(2) by (intro power_increasing) simp_all
    moreover have "unat va mod 2 ^ ?k < 2 ^ ?k" by simp
    ultimately show ?thesis by (rule order.strict_trans2 [rotated])
  qed
  ultimately show ?thesis using ppn_bound [of pte] by (simp add: unat_word_ariths)
qed

lemma page_leaf_level: "page_leaf bus va i table j leaf \<Longrightarrow> j \<le> i"
  by (induction rule: page_leaf.induct) simp_all

lemma satp_root: "fixed_to_bits (Satp_ppn satp) * PAGE_SIZE = of_nat (4096 * (unat satp mod 2 ^ 44))"
proof -
  have "fixed_to_bits (Satp_ppn satp) = take_bit 44 satp"
    by (rule word_bits_eqI)
      (auto simp: fixed_to_bits_def fixed_from_bits_def csr_get_def bit_ucast_iff bit_bits_subset bit_take_bit_iff)
  also have "\<dots> = of_nat (unat satp mod 2 ^ 44)"
    unfolding take_bit_eq_mod [symmetric] unsigned_take_bit_eq [symmetric] by (rule of_nat_unat_word [symmetric])
  finally show ?thesis by (simp only: PAGE_SIZE_eq of_nat_mult mult.commute)
qed

lemma sv_translate_impl_page_table:
  "sv_translate_impl bus va satp sv acc = Inr pa \<longleftrightarrow>
   (\<exists>i pte. page_leaf bus va (levels sv - 1) (4096 * (unat satp mod 2 ^ 44)) i pte
      \<and> 2 ^ (9 * i) dvd spec_ppn pte \<and> bit pte 6 \<and> (if acc = AccStore then bit pte 7 else True)
      \<and> unat pa = 4096 * spec_ppn pte + unat va mod 2 ^ (12 + 9 * i))"
proof -
  have l: "levels sv - 1 < levels sv" "levels sv - 1 < 5" using levels_bounds [of sv] by simp_all
  have eq: "superpage_aligned sv i (PTE_ppn pte) \<and> PTE_a pte \<and> (acc = AccStore \<longrightarrow> PTE_d pte)
      \<and> pa = leaf_p_addr i (PTE_ppn pte) va \<longleftrightarrow>
    2 ^ (9 * i) dvd spec_ppn raw \<and> bit raw 6 \<and> (if acc = AccStore then bit raw 7 else True)
      \<and> unat pa = 4096 * spec_ppn raw + unat va mod 2 ^ (12 + 9 * i)"
    if "page_leaf bus va (levels sv - 1) table i raw" "pte = PageTableEntry_from_bits raw" for i pte raw table
  proof -
    have i: "i < levels sv" "i < 5" using page_leaf_level [OF that(1)] l by linarith+
    have p: "PTE_ppn pte = PTE_ppn raw" "PTE_a pte = bit raw 6" "PTE_d pte = bit raw 7"
      unfolding that(2) by (simp_all only: PTE_get_from_bits(8) pte_fields)
    show ?thesis
      unfolding p superpage_dvd [OF i(1)] using leaf_p_addr_sum [of i raw va] i(2)
      by (auto simp: word_unat_eq_iff)
  qed
  show ?thesis
    unfolding sv_translate_impl_iff satp_root sv_walk_page_leaf [OF l(1)] using eq by blast
qed

end
