(* ===== verification/Translation_Cache.thy ===== *)
theory Translation_Cache
  imports Fence_Cache Sv_Walk
begin

text \<open>
  The cache of address translations (translation_cache.rs): one direct-mapped cache per access type,
  indexed by the virtual page.  Its contract is an abstract history: a hit returns the physical page
  that was cached last for the same mode, SATP value, access type and virtual page since the last
  invalidation of that access type.
\<close>

section \<open>Entries\<close>

definition OFFSET_MASK :: u64 where
  "OFFSET_MASK = ones (of_nat PAGE_OFFSET_WIDTH)"

definition PAGE_MASK :: u64 where
  "PAGE_MASK = NOT OFFSET_MASK"

definition PAGES_BITS :: nat where
  "PAGES_BITS = 16"

definition PAGES :: nat where
  "PAGES = 2 ^ PAGES_BITS"

text \<open>\<^verbatim>\<open>x & PAGES_MASK\<close> is the remainder modulo \<^const>\<open>PAGES\<close>, a power of two.\<close>

definition virtual_page_index :: "u64 \<Rightarrow> nat" where
  "virtual_page_index virt_page = unat (drop_bit PAGE_OFFSET_WIDTH virt_page) mod PAGES"

record TCached =
  tc_mode :: u8
  tc_satp :: u64
  tc_virt_page :: Address
  tc_phys_page :: Address
  tc_fence :: FenceCounter

definition tc_cached_reset :: "TCached \<Rightarrow> TCached" where
  "tc_cached_reset c =
     c\<lparr>tc_fence := FenceCounter_INITIAL, tc_mode := NOT 0, tc_satp := NOT 0,
       tc_virt_page := NOT 0, tc_phys_page := NOT 0\<rparr>"

definition tc_cached_invalidate :: "TCached \<Rightarrow> TCached" where
  "tc_cached_invalidate c = c\<lparr>tc_virt_page := NOT 0\<rparr>"

definition tc_cached_cache_translation ::
  "u64 \<Rightarrow> Mode \<Rightarrow> Address \<Rightarrow> Address \<Rightarrow> FenceCounter \<Rightarrow> TCached \<Rightarrow> TCached" where
  "tc_cached_cache_translation satp mode virt_page phys_page fence_counter c =
     c\<lparr>tc_satp := satp, tc_mode := mode_u8 mode, tc_virt_page := virt_page,
       tc_phys_page := phys_page, tc_fence := fence_counter\<rparr>"

definition tc_cached_try_translate ::
  "TCached \<Rightarrow> u64 \<Rightarrow> Mode \<Rightarrow> Address \<Rightarrow> Address \<Rightarrow> FenceCounter \<Rightarrow> u64 option" where
  "tc_cached_try_translate c satp mode virt_page virt_offset fence_counter =
     (if tc_virt_page c = virt_page \<and> tc_satp c = satp \<and> tc_mode c = mode_u8 mode
         \<and> tc_fence c = fence_counter
      then Some (tc_phys_page c OR virt_offset) else None)"

section \<open>The cache of one access type\<close>

record AccessCache =
  ac_fence :: FenceCounter
  ac_entries :: "nat \<Rightarrow> TCached"

definition ac_reset :: "AccessCache \<Rightarrow> AccessCache" where
  "ac_reset ac =
     ac\<lparr>ac_fence := FenceCounter_INITIAL, ac_entries := (\<lambda>i. tc_cached_reset (ac_entries ac i))\<rparr>"

definition ac_invalidate :: "AccessCache \<Rightarrow> AccessCache" where
  "ac_invalidate ac =
     (let fence_counter = ac_fence ac;
          virt_page_index = unat fence_counter mod PAGES in
      ac\<lparr>ac_fence := fence_next fence_counter,
         ac_entries := (ac_entries ac)
           (virt_page_index := tc_cached_invalidate (ac_entries ac virt_page_index))\<rparr>)"

definition ac_try_translate :: "AccessCache \<Rightarrow> u64 \<Rightarrow> Mode \<Rightarrow> Address \<Rightarrow> Address option" where
  "ac_try_translate ac satp mode virt_addr =
     (let virt_page = virt_addr AND PAGE_MASK in
      tc_cached_try_translate (ac_entries ac (virtual_page_index virt_page)) satp mode virt_page
        (virt_addr AND OFFSET_MASK) (ac_fence ac))"

definition ac_cache_translation ::
  "u64 \<Rightarrow> Mode \<Rightarrow> Address \<Rightarrow> Address \<Rightarrow> AccessCache \<Rightarrow> AccessCache" where
  "ac_cache_translation satp mode virt_addr phys_addr ac =
     (let virt_page = virt_addr AND PAGE_MASK;
          i = virtual_page_index virt_page in
      ac\<lparr>ac_entries := (ac_entries ac)
           (i := tc_cached_cache_translation satp mode virt_page (phys_addr AND PAGE_MASK)
                   (ac_fence ac) (ac_entries ac i))\<rparr>)"

section \<open>The cache\<close>

text \<open>The array of three caches is indexed by \<^verbatim>\<open>access_type_index\<close>.\<close>

type_synonym TranslationCache = "nat \<Rightarrow> AccessCache"

fun access_type_index :: "AccessType \<Rightarrow> nat" where
  "access_type_index AccInstruction = 0"
| "access_type_index AccLoad = 1"
| "access_type_index AccStore = 2"

definition tcache_reset :: "TranslationCache \<Rightarrow> TranslationCache" where
  "tcache_reset tc = (\<lambda>i. ac_reset (tc i))"

definition tcache_invalidate :: "AccessType list \<Rightarrow> TranslationCache \<Rightarrow> TranslationCache" where
  "tcache_invalidate access_types tc =
     fold (\<lambda>t tc. tc(access_type_index t := ac_invalidate (tc (access_type_index t))))
       access_types tc"

definition tcache_try_translate ::
  "TranslationCache \<Rightarrow> Mode \<Rightarrow> u64 \<Rightarrow> AccessType \<Rightarrow> Address \<Rightarrow> Address option" where
  "tcache_try_translate tc mode satp access_type virt_addr =
     ac_try_translate (tc (access_type_index access_type)) satp mode virt_addr"

definition tcache_cache_translation ::
  "Mode \<Rightarrow> u64 \<Rightarrow> AccessType \<Rightarrow> Address \<Rightarrow> Address \<Rightarrow> TranslationCache \<Rightarrow> TranslationCache" where
  "tcache_cache_translation mode satp access_type virt_addr phys_addr tc =
     (let i = access_type_index access_type in
      tc(i := ac_cache_translation satp mode virt_addr phys_addr (tc i)))"

section \<open>Fences\<close>

lemma OFFSET_MASK_eq: "OFFSET_MASK = mask 12"
  by (simp add: OFFSET_MASK_def PAGE_OFFSET_WIDTH_def ones_eq_mask)

lemma PAGES_eq: "PAGES = 2 ^ 16"
  by (simp add: PAGES_def PAGES_BITS_def)

definition tc_live :: "TCached \<Rightarrow> bool" where
  "tc_live c \<longleftrightarrow> tc_virt_page c \<noteq> - 1"

interpretation tcf: fence_cache tc_live tc_fence tc_cached_invalidate 16 0
  by unfold_locales (simp_all add: tc_live_def tc_cached_invalidate_def)

lemma page_not_all_ones: "v AND PAGE_MASK \<noteq> (- 1 :: u64)"
proof
  assume "v AND PAGE_MASK = - 1"
  then have "bit (v AND PAGE_MASK) 0" by (simp add: bit_minus_1_iff)
  then show False by (simp add: PAGE_MASK_def OFFSET_MASK_eq bit_and_iff bit_not_iff bit_mask_iff)
qed

lemma virtual_page_index_bound: "virtual_page_index p < 2 ^ 16"
  by (simp add: virtual_page_index_def PAGES_eq)

lemma access_type_index_inject [simp]: "access_type_index a = access_type_index b \<longleftrightarrow> a = b"
  by (cases a; cases b) simp_all

lemma ac_invalidate_entries:
  "ac_fence (ac_invalidate ac) = fence_next (ac_fence ac)"
  "ac_entries (ac_invalidate ac) =
   (ac_entries ac)(tcf.due (ac_fence ac) := tc_cached_invalidate (ac_entries ac (tcf.due (ac_fence ac))))"
  by (simp_all add: ac_invalidate_def Let_def PAGES_eq tcf.due_def)

lemma ac_try_translate_hit:
  "ac_try_translate ac satp mode va = Some pa \<longleftrightarrow>
   (let c = ac_entries ac (virtual_page_index (va AND PAGE_MASK)) in
    tc_virt_page c = va AND PAGE_MASK \<and> tc_satp c = satp \<and> tc_mode c = mode_u8 mode
    \<and> tc_fence c = ac_fence ac \<and> pa = tc_phys_page c OR (va AND OFFSET_MASK))"
  by (auto simp: ac_try_translate_def tc_cached_try_translate_def Let_def)

text \<open>After an invalidation nothing hits, however often the counter has wrapped.\<close>

lemma ac_invalidate_miss:
  assumes "tcf.fresh (ac_fence ac) (ac_entries ac)"
  shows "ac_try_translate (ac_invalidate ac) satp mode va = None"
proof (rule ccontr)
  let ?i = "virtual_page_index (va AND PAGE_MASK)"
  assume "\<not> ?thesis"
  then obtain pa where "ac_try_translate (ac_invalidate ac) satp mode va = Some pa" by blast
  then have h: "tc_virt_page (ac_entries (ac_invalidate ac) ?i) = va AND PAGE_MASK"
    "tc_fence (ac_entries (ac_invalidate ac) ?i) = fence_next (ac_fence ac)"
    by (simp_all add: ac_try_translate_hit Let_def ac_invalidate_entries(1))
  from h(1) have "tc_live (ac_entries (ac_invalidate ac) ?i)"
    by (simp add: tc_live_def page_not_all_ones)
  with tcf.invalidate_no_hit [OF assms virtual_page_index_bound] h(2) show False
    by (simp add: ac_invalidate_entries(2))
qed

section \<open>Refinement of the history of translations\<close>

datatype tc_op = TcCache Mode u64 AccessType Address Address | TcInvalidate "AccessType list"

fun tc_apply :: "tc_op \<Rightarrow> TranslationCache \<Rightarrow> TranslationCache" where
  "tc_apply (TcCache m s t v p) tc = tcache_cache_translation m s t v p tc"
| "tc_apply (TcInvalidate ts) tc = tcache_invalidate ts tc"

text \<open>The newest operation is the head of the history.\<close>

fun last_cached :: "tc_op list \<Rightarrow> Mode \<Rightarrow> u64 \<Rightarrow> AccessType \<Rightarrow> Address \<Rightarrow> Address option" where
  "last_cached [] m s t page = None"
| "last_cached (TcCache m' s' t' v p # ops) m s t page =
     (if m' = m \<and> s' = s \<and> t' = t \<and> v AND PAGE_MASK = page then Some (p AND PAGE_MASK)
      else last_cached ops m s t page)"
| "last_cached (TcInvalidate ts # ops) m s t page =
     (if t \<in> set ts then None else last_cached ops m s t page)"

definition tc_hist :: "TranslationCache \<Rightarrow> tc_op list \<Rightarrow> TranslationCache" where
  "tc_hist tc ops = foldr tc_apply ops (tcache_reset tc)"

definition tc_inv :: "tc_op list \<Rightarrow> AccessType \<Rightarrow> AccessCache \<Rightarrow> bool" where
  "tc_inv ops t ac \<longleftrightarrow>
     tcf.fresh (ac_fence ac) (ac_entries ac) \<and>
     (\<forall>i < 2 ^ 16. let c = ac_entries ac i in
        tc_live c \<and> tc_fence c = ac_fence ac \<longrightarrow>
        virtual_page_index (tc_virt_page c) = i \<and>
        (\<forall>m. tc_mode c = mode_u8 m \<longrightarrow>
           last_cached ops m (tc_satp c) t (tc_virt_page c) = Some (tc_phys_page c)))"

lemma tc_inv_reset: "tc_inv ops t (ac_reset ac)"
  by (simp add: tc_inv_def Let_def ac_reset_def tc_cached_reset_def tc_live_def tcf.fresh_reset)

lemma tc_inv_invalidate:
  assumes "tc_inv ops t ac"
  shows "tc_inv ops' t (ac_invalidate ac)"
proof -
  have f: "tcf.fresh (ac_fence ac) (ac_entries ac)" using assms by (simp add: tc_inv_def)
  note no_hit = tcf.invalidate_no_hit [OF f]
  show ?thesis
    using tcf.fresh_invalidate [OF f] no_hit
    unfolding tc_inv_def ac_invalidate_entries Let_def by blast
qed

lemma tc_inv_cache:
  assumes "tc_inv ops t ac"
  shows "tc_inv (TcCache m s t v p # ops) t (ac_cache_translation s m v p ac)"
  using assms
  by (auto simp: tc_inv_def ac_cache_translation_def tc_cached_cache_translation_def Let_def
      intro!: tcf.fresh_insert)

lemma tc_inv_cache_other:
  assumes "tc_inv ops t ac" "t' \<noteq> t"
  shows "tc_inv (TcCache m s t' v p # ops) t ac"
  using assms by (simp add: tc_inv_def)

lemma tcache_invalidate_Cons:
  "tcache_invalidate (t # ts) tc =
   tcache_invalidate ts (tc(access_type_index t := ac_invalidate (tc (access_type_index t))))"
  by (simp add: tcache_invalidate_def)

lemma tc_inv_invalidate_list:
  assumes "tc_inv ops t (tc (access_type_index t))"
  shows "tc_inv (if t \<in> set ts then ops' else ops) t (tcache_invalidate ts tc (access_type_index t))"
  using assms
proof (induction ts arbitrary: tc ops)
  case (Cons t' ts)
  define tc' where "tc' = tc(access_type_index t' := ac_invalidate (tc (access_type_index t')))"
  have c: "tcache_invalidate (t' # ts) tc = tcache_invalidate ts tc'"
    by (simp add: tc'_def tcache_invalidate_Cons)
  show ?case
  proof (cases "t' = t")
    case True
    then have "tc_inv ops' t (tc' (access_type_index t))"
      using tc_inv_invalidate [OF Cons.prems] by (simp add: tc'_def)
    from Cons.IH [of ops' tc', OF this] True show ?thesis unfolding c by simp
  next
    case False
    then have "tc_inv ops t (tc' (access_type_index t))" using Cons.prems by (simp add: tc'_def)
    from Cons.IH [of ops tc', OF this] False show ?thesis unfolding c by simp
  qed
qed (simp add: tcache_invalidate_def)

lemma tc_inv_skip:
  assumes "tc_inv ops t ac" "\<And>m s p. last_cached ops' m s t p = last_cached ops m s t p"
  shows "tc_inv ops' t ac"
  using assms by (simp add: tc_inv_def)

lemma tc_hist_inv: "tc_inv ops t (tc_hist tc ops (access_type_index t))"
proof (induction ops)
  case Nil
  then show ?case by (simp add: tc_hist_def tcache_reset_def tc_inv_reset)
next
  case (Cons op ops)
  show ?case
  proof (cases op)
    case (TcCache m s t' v p)
    with Cons show ?thesis
      by (cases "t' = t") (auto simp: tc_hist_def tcache_cache_translation_def Let_def
          tc_inv_cache tc_inv_cache_other)
  next
    case (TcInvalidate ts)
    have "tc_inv (if t \<in> set ts then op # ops else ops) t
        (tcache_invalidate ts (tc_hist tc ops) (access_type_index t))"
      using Cons by (rule tc_inv_invalidate_list)
    then show ?thesis
      by (cases "t \<in> set ts") (auto simp: TcInvalidate tc_hist_def intro: tc_inv_skip)
  qed
qed

lemma tc_hist_hit:
  assumes "tcache_try_translate (tc_hist tc ops) m s t v = Some pa"
  shows "\<exists>page. last_cached ops m s t (v AND PAGE_MASK) = Some page \<and> pa = page OR (v AND OFFSET_MASK)"
proof -
  let ?ac = "tc_hist tc ops (access_type_index t)"
  let ?c = "ac_entries ?ac (virtual_page_index (v AND PAGE_MASK))"
  have h: "tc_virt_page ?c = v AND PAGE_MASK" "tc_satp ?c = s" "tc_mode ?c = mode_u8 m"
    "tc_fence ?c = ac_fence ?ac" "pa = tc_phys_page ?c OR (v AND OFFSET_MASK)"
    using assms by (simp_all add: tcache_try_translate_def ac_try_translate_hit Let_def)
  have "tc_live ?c" by (simp add: tc_live_def h(1) page_not_all_ones)
  with h tc_hist_inv [of ops t tc] virtual_page_index_bound [of "v AND PAGE_MASK"]
  show ?thesis by (auto simp: tc_inv_def Let_def)
qed

lemma tcache_try_cached:
  "tcache_try_translate (tcache_cache_translation m s t v p tc) m s t v'
   = Some ((p AND PAGE_MASK) OR (v' AND OFFSET_MASK))"
  if "v' AND PAGE_MASK = v AND PAGE_MASK"
  using that
  by (simp add: tcache_try_translate_def tcache_cache_translation_def Let_def ac_try_translate_def
      ac_cache_translation_def tc_cached_try_translate_def tc_cached_cache_translation_def)

end
