(* ===== verification/Address_Translation.thy ===== *)
theory Address_Translation
  imports Translation_Cache Hart
begin

text \<open>
  The part of the machine every instruction runs on (\<^verbatim>\<open>MachineCoreState\<close> of machine_state.rs), the
  translation of addresses under the effective mode (machine_state/address_translation.rs) and the
  memory accesses of instructions (interpreter/common_memory.rs).

  Fallible methods with \<^verbatim>\<open>&mut self\<close> are functions from the state to a result and the new state;
  \<^verbatim>\<open>and_then\<close> is the sequencing of the \<^verbatim>\<open>?\<close> operator, which keeps the writes made before an error.
\<close>

section \<open>Sequencing\<close>

type_synonym ('s, 'a) exec = "'s \<Rightarrow> (Exception, 'a) result \<times> 's"

definition and_then ::
  "('s \<Rightarrow> ('e, 'a) result \<times> 's) \<Rightarrow> ('a \<Rightarrow> 's \<Rightarrow> ('e, 'b) result \<times> 's) \<Rightarrow> 's \<Rightarrow> ('e, 'b) result \<times> 's" where
  "and_then m f s = (case m s of (Inl e, s') \<Rightarrow> (Inl e, s') | (Inr a, s') \<Rightarrow> f a s')"

lemma and_then_simps [simp]:
  "m s = (Inl e, s') \<Longrightarrow> and_then m f s = (Inl e, s')"
  "m s = (Inr a, s') \<Longrightarrow> and_then m f s = f a s'"
  by (simp_all add: and_then_def)

lemma and_then_ok_iff:
  "and_then m f s = (Inr b, t) \<longleftrightarrow> (\<exists>a s'. m s = (Inr a, s') \<and> f a s' = (Inr b, t))"
  by (auto simp: and_then_def split: prod.splits sum.splits)

lemma and_then_err_iff:
  "and_then m f s = (Inl e, t) \<longleftrightarrow>
   m s = (Inl e, t) \<or> (\<exists>a s'. m s = (Inr a, s') \<and> f a s' = (Inl e, t))"
  by (auto simp: and_then_def split: prod.splits sum.splits)

section \<open>State\<close>

record MachineCoreState =
  core_hart :: HartState
  core_bus :: Bus
  core_tcache :: TranslationCache

abbreviation core_xregs :: "MachineCoreState \<Rightarrow> XRegisters" where
  "core_xregs s \<equiv> hart_xregs (core_hart s)"

definition core_reset :: "MachineCoreState \<Rightarrow> MachineCoreState" where
  "core_reset s =
     s\<lparr>core_hart := hart_reset (start_of_main_memory (bus_BYTES (core_bus s))) (core_hart s),
       core_bus := bus_reset (core_bus s),
       core_tcache := tcache_reset (core_tcache s)\<rparr>"

text \<open>\<^verbatim>\<open>self.hart.xregisters.write(rd, v)\<close>.\<close>

definition core_write_x :: "XRegister \<Rightarrow> XValue \<Rightarrow> MachineCoreState \<Rightarrow> MachineCoreState" where
  "core_write_x rd v s = s\<lparr>core_hart := (core_hart s)\<lparr>hart_xregs := xr_write (core_xregs s) rd v\<rparr>\<rparr>"

section \<open>Translation\<close>

definition effective_translation_hart_mode :: "MachineCoreState \<Rightarrow> Mode \<Rightarrow> AccessType \<Rightarrow> Mode" where
  "effective_translation_hart_mode s mode access_type =
     (let mstatus = csr_mstatus (hart_csrs (core_hart s)) in
      case access_type of
        AccStore \<Rightarrow> if ms_mprv mstatus then mpp_mode (ms_mpp mstatus) else mode
      | AccLoad \<Rightarrow> if ms_mprv mstatus then mpp_mode (ms_mpp mstatus) else mode
      | AccInstruction \<Rightarrow> mode)"

definition effective_translation_alg ::
  "MachineCoreState \<Rightarrow> Mode \<Rightarrow> CSRRepr \<Rightarrow> AccessType \<Rightarrow> TranslationAlgorithm" where
  "effective_translation_alg s mode satp access_type =
     (if effective_translation_hart_mode s mode access_type = Machine then Bare
      else Satp_mode (Satp_from_bits satp))"

definition translate_with_prefetch ::
  "MachineCoreState \<Rightarrow> Mode \<Rightarrow> CSRRepr \<Rightarrow> Address \<Rightarrow> AccessType \<Rightarrow> (Exception, Address) result" where
  "translate_with_prefetch s mode satp virt_addr access_type =
     (let impl = (\<lambda>sv_length.
            map_err (\<lambda>_. access_exception access_type virt_addr)
              (sv_translate_impl (core_bus s) virt_addr (Satp_from_bits satp) sv_length access_type))
      in case effective_translation_alg s mode satp access_type of
           Bare \<Rightarrow> Inr virt_addr
         | Sv39 \<Rightarrow> impl SvLen39
         | Sv48 \<Rightarrow> impl SvLen48
         | Sv57 \<Rightarrow> impl SvLen57)"

definition translate :: "Address \<Rightarrow> AccessType \<Rightarrow> (MachineCoreState, Address) exec" where
  "translate virt_addr access_type s =
     (let mode = hart_mode (core_hart s);
          satp = csr_read (hart_csrs (core_hart s)) CSR_satp in
      case tcache_try_translate (core_tcache s) mode satp access_type virt_addr of
        Some phys_addr \<Rightarrow> (Inr phys_addr, s)
      | None \<Rightarrow>
          (case translate_with_prefetch s mode satp virt_addr access_type of
             Inl e \<Rightarrow> (Inl e, s)
           | Inr phys_addr \<Rightarrow>
               (Inr phys_addr,
                s\<lparr>core_tcache :=
                    tcache_cache_translation mode satp access_type virt_addr phys_addr
                      (core_tcache s)\<rparr>)))"

definition translate_without_cache ::
  "MachineCoreState \<Rightarrow> Address \<Rightarrow> AccessType \<Rightarrow> (Exception, Address) result" where
  "translate_without_cache s virt_addr access_type =
     (let mode = hart_mode (core_hart s);
          satp = csr_read (hart_csrs (core_hart s)) CSR_satp in
      translate_with_prefetch s mode satp virt_addr access_type)"

section \<open>Memory accesses of instructions\<close>

definition read_from_address :: "u64 \<Rightarrow> (MachineCoreState, 'a::len word) exec" where
  "read_from_address address =
     and_then (translate address AccLoad) (\<lambda>address s.
       (map_err (\<lambda>_. LoadAccessFault address) (bus_read (core_bus s) address), s))"

definition read_from_bus :: "i64 \<Rightarrow> XRegister \<Rightarrow> (MachineCoreState, 'a::len word) exec" where
  "read_from_bus imm rs1 s =
     (let address = xr_read (core_xregs s) rs1 + imm in read_from_address address s)"

definition write_to_address :: "u64 \<Rightarrow> 'a::len word \<Rightarrow> (MachineCoreState, unit) exec" where
  "write_to_address address value =
     and_then (translate address AccStore) (\<lambda>address s.
       (case bus_write (core_bus s) address value of
          Inl OutOfBounds \<Rightarrow> (Inl (StoreAMOAccessFault address), s)
        | Inr bus \<Rightarrow> (Inr (), s\<lparr>core_bus := bus\<rparr>)))"

definition write_to_bus :: "i64 \<Rightarrow> XRegister \<Rightarrow> 'a::len word \<Rightarrow> (MachineCoreState, unit) exec" where
  "write_to_bus imm rs1 value s =
     (let address = xr_read (core_xregs s) rs1 + imm in write_to_address address value s)"

section \<open>Coherence of the translation cache\<close>

text \<open>Every hit is the translation the page tables give.\<close>

definition tcache_coherent :: "MachineCoreState \<Rightarrow> bool" where
  "tcache_coherent s \<longleftrightarrow>
     (\<forall>mode satp t va pa.
        tcache_try_translate (core_tcache s) mode satp t va = Some pa \<longrightarrow>
        translate_with_prefetch s mode satp va t = Inr pa)"

lemma translate_frame:
  assumes "translate va t s = (r, s')"
  shows "core_hart s' = core_hart s" "core_bus s' = core_bus s"
  using assms by (auto simp: translate_def Let_def split: option.splits sum.splits)

lemma translate_with_prefetch_tcache [simp]:
  "translate_with_prefetch (s\<lparr>core_tcache := tc\<rparr>) = translate_with_prefetch s"
  by (intro ext) (simp add: translate_with_prefetch_def effective_translation_alg_def
      effective_translation_hart_mode_def Let_def)

lemma translate_coherent:
  assumes "tcache_coherent s"
  shows "fst (translate va t s) = translate_without_cache s va t"
  using assms
  by (auto simp: translate_def translate_without_cache_def tcache_coherent_def Let_def
      split: option.splits sum.splits)

lemma page_eq_iff:
  "va AND PAGE_MASK = va' AND PAGE_MASK \<longleftrightarrow> drop_bit 12 va = drop_bit 12 (va' :: u64)"
  (is "?l \<longleftrightarrow> ?r")
proof
  assume l: ?l
  have "bit va (12 + n) = bit va' (12 + n)" if "n < 52" for n
    using arg_cong [OF l, of "\<lambda>w. bit w (12 + n)"] that
    by (simp add: PAGE_MASK_def OFFSET_MASK_eq bit_and_iff bit_not_iff bit_mask_iff possible_bit_word)
  moreover have "\<not> bit w (12 + n)" if "\<not> n < 52" for n and w :: u64
    using that bit_word_lt [of w "12 + n"] by auto
  ultimately have "bit va (12 + n) = bit va' (12 + n)" for n
    by (cases "n < 52") simp_all
  then show ?r
    by (intro word_bits_eqI) (simp add: bit_drop_bit_eq)
next
  assume r: ?r
  show ?l
  proof (rule word_bits_eqI)
    fix n assume "n < LENGTH(64)"
    have "bit va n = bit va' n" if "12 \<le> n"
      using that arg_cong [OF r, of "\<lambda>w. bit w (n - 12)"] by (simp add: bit_drop_bit_eq)
    then show "bit (va AND PAGE_MASK) n = bit (va' AND PAGE_MASK) n"
      by (auto simp: PAGE_MASK_def OFFSET_MASK_eq bit_and_iff bit_not_iff bit_mask_iff)
  qed
qed

lemma page_offset_join: "(va AND PAGE_MASK) OR (va AND OFFSET_MASK) = va"
  by (rule word_bits_eqI)
    (auto simp: PAGE_MASK_def OFFSET_MASK_eq bit_or_iff bit_and_iff bit_not_iff bit_mask_iff
      possible_bit_word)

lemma translate_with_prefetch_page:
  assumes "va AND PAGE_MASK = va' AND PAGE_MASK"
    "translate_with_prefetch s mode satp va t = Inr pa"
  shows "translate_with_prefetch s mode satp va' t = Inr ((pa AND PAGE_MASK) OR (va' AND OFFSET_MASK))"
proof -
  have d: "drop_bit 12 va = drop_bit 12 va'" using assms(1) by (simp add: page_eq_iff)
  show ?thesis
    using assms(2) assms(1) page_offset_join [of va'] sv_translate_impl_page [OF d]
    by (auto simp: translate_with_prefetch_def Let_def PAGE_MASK_def [unfolded OFFSET_MASK_eq]
        OFFSET_MASK_eq split: TranslationAlgorithm.splits)
qed

lemma tcache_try_after_cache:
  assumes "tcache_try_translate (tcache_cache_translation m s t v p tc) m' s' t' v' = Some pa"
  shows "tcache_try_translate tc m' s' t' v' = Some pa
    \<or> (m' = m \<and> s' = s \<and> t' = t \<and> v' AND PAGE_MASK = v AND PAGE_MASK
        \<and> pa = (p AND PAGE_MASK) OR (v' AND OFFSET_MASK))"
proof (cases "t' = t")
  case True
  then show ?thesis
    using assms
    by (cases "virtual_page_index (v' AND PAGE_MASK) = virtual_page_index (v AND PAGE_MASK)")
      (auto simp: tcache_try_translate_def tcache_cache_translation_def Let_def ac_try_translate_hit
        ac_cache_translation_def tc_cached_cache_translation_def)
next
  case False
  then show ?thesis
    using assms by (simp add: tcache_try_translate_def tcache_cache_translation_def Let_def)
qed

lemma translate_keeps_coherent:
  assumes "tcache_coherent s"
  shows "tcache_coherent (snd (translate va t s))"
proof -
  let ?m = "hart_mode (core_hart s)" and ?satp = "csr_read (hart_csrs (core_hart s)) CSR_satp"
  show ?thesis
  proof (cases "tcache_try_translate (core_tcache s) ?m ?satp t va")
    case None
    show ?thesis
    proof (cases "translate_with_prefetch s ?m ?satp va t")
      case (Inr pa)
      have "translate_with_prefetch s mode satp v a = Inr p"
        if "tcache_try_translate (tcache_cache_translation ?m ?satp t va pa (core_tcache s))
              mode satp a v = Some p" for mode satp a v p
        using tcache_try_after_cache [OF that] assms translate_with_prefetch_page [OF _ Inr]
        by (auto simp: tcache_coherent_def)
      then show ?thesis
        by (simp add: translate_def Let_def None Inr tcache_coherent_def)
    qed (use assms None in \<open>simp add: translate_def Let_def\<close>)
  qed (use assms in \<open>simp add: translate_def Let_def\<close>)
qed

lemma tcache_reset_coherent: "tcache_coherent (s\<lparr>core_tcache := tcache_reset tc\<rparr>)"
proof -
  have "tcache_try_translate (tcache_reset tc) m satp t va = None" for m satp t va
    using tc_hist_hit [of tc "[]" m satp t va]
    by (cases "tcache_try_translate (tcache_reset tc) m satp t va") (auto simp: tc_hist_def)
  then show ?thesis by (simp add: tcache_coherent_def)
qed

text \<open>The cache is keyed by the mode of the hart, but loads and stores translate under the mode that
  MPRV and MPP select: a translation cached before MPRV is set is used afterwards.\<close>

lemma translate_mprv_stale:
  assumes "hart_mode (core_hart s) = Machine" "\<not> ms_mprv (csr_mstatus (hart_csrs (core_hart s)))"
    "tcache_coherent s" "t \<noteq> AccInstruction"
    "csr_read csrs CSR_satp = csr_read (hart_csrs (core_hart s)) CSR_satp"
  shows "fst (translate va t (snd (translate va t s)\<lparr>core_hart := (core_hart s)\<lparr>hart_csrs := csrs\<rparr>\<rparr>))
    = Inr va"
proof -
  let ?satp = "csr_read (hart_csrs (core_hart s)) CSR_satp"
  have b: "translate_with_prefetch s Machine ?satp va t = Inr va"
    using assms(1,2,4)
    by (cases t) (simp_all add: translate_with_prefetch_def effective_translation_alg_def
        effective_translation_hart_mode_def)
  have "tcache_try_translate (core_tcache (snd (translate va t s))) Machine ?satp t va = Some va"
  proof (cases "tcache_try_translate (core_tcache s) Machine ?satp t va")
    case None
    then show ?thesis
      using tcache_try_cached [of va va Machine ?satp t va "core_tcache s"]
      by (simp add: translate_def Let_def assms(1) b page_offset_join)
  next
    case (Some pa)
    with assms(3) b have "pa = va" by (simp add: tcache_coherent_def)
    with Some show ?thesis by (simp add: translate_def Let_def assms(1))
  qed
  then show ?thesis by (simp add: translate_def Let_def assms(1,5))
qed

section \<open>Loads and stores\<close>

lemma core_write_x_simps [simp]:
  "core_bus (core_write_x rd v s) = core_bus s"
  "core_tcache (core_write_x rd v s) = core_tcache s"
  "core_xregs (core_write_x rd v s) = xr_write (core_xregs s) rd v"
  "hart_csrs (core_hart (core_write_x rd v s)) = hart_csrs (core_hart s)"
  "hart_mode (core_hart (core_write_x rd v s)) = hart_mode (core_hart s)"
  "hart_pc (core_hart (core_write_x rd v s)) = hart_pc (core_hart s)"
  "hart_fregs (core_hart (core_write_x rd v s)) = hart_fregs (core_hart s)"
  "hart_reservation (core_hart (core_write_x rd v s)) = hart_reservation (core_hart s)"
  by (simp_all add: core_write_x_def)

lemma read_from_address_coherent:
  assumes "tcache_coherent s"
  shows "fst (read_from_address a s) =
    (case translate_without_cache s a AccLoad of
       Inl e \<Rightarrow> Inl e
     | Inr pa \<Rightarrow> map_err (\<lambda>_. LoadAccessFault pa) (bus_read (core_bus s) pa))"
  using translate_coherent [OF assms, of a AccLoad] translate_frame(2) [of a AccLoad s]
  by (auto simp: read_from_address_def and_then_def split: prod.splits sum.splits)

lemma read_from_address_frame:
  assumes "read_from_address a s = (r, s')"
  shows "core_hart s' = core_hart s" "core_bus s' = core_bus s"
  using assms translate_frame [of a AccLoad s]
  by (auto simp: read_from_address_def and_then_def split: prod.splits sum.splits)

lemma write_to_address_frame:
  assumes "write_to_address a v s = (r, s')"
  shows "core_hart s' = core_hart s"
  using assms translate_frame [of a AccStore s]
  by (auto simp: write_to_address_def and_then_def split: prod.splits sum.splits OutOfBounds.splits)

lemma write_to_address_error:
  assumes "write_to_address a v s = (Inl e, s')"
  shows "core_bus s' = core_bus s"
  using assms translate_frame [of a AccStore s]
  by (auto simp: write_to_address_def and_then_def split: prod.splits sum.splits OutOfBounds.splits)

text \<open>Flat memory: loads and stores are not translated and no stale entry is cached for the current
  mode and SATP value.\<close>

definition flat :: "MachineCoreState \<Rightarrow> bool" where
  "flat s \<longleftrightarrow>
     (let mode = hart_mode (core_hart s);
          satp = csr_read (hart_csrs (core_hart s)) CSR_satp in
      \<forall>t va pa. t \<noteq> AccInstruction \<longrightarrow>
        effective_translation_alg s mode satp t = Bare
        \<and> (tcache_try_translate (core_tcache s) mode satp t va = Some pa \<longrightarrow> pa = va))"

lemma flat_cong:
  assumes "core_tcache s' = core_tcache s" "hart_csrs (core_hart s') = hart_csrs (core_hart s)"
    "hart_mode (core_hart s') = hart_mode (core_hart s)"
  shows "flat s' \<longleftrightarrow> flat s"
  using assms
  by (simp add: flat_def effective_translation_alg_def effective_translation_hart_mode_def Let_def
      cong: AccessType.case_cong)

lemma flat_simps [simp]:
  "flat (s\<lparr>core_bus := b\<rparr>) \<longleftrightarrow> flat s"
  "flat (core_write_x rd v s) \<longleftrightarrow> flat s"
  by (rule flat_cong; simp)+

lemma flat_machine_mode:
  assumes "hart_mode (core_hart s) = Machine" "\<not> ms_mprv (csr_mstatus (hart_csrs (core_hart s)))"
    "tcache_coherent s"
  shows "flat s"
proof -
  have alg: "effective_translation_alg s Machine satp t = Bare" for satp t
    using assms(2)
    by (cases t) (simp_all add: effective_translation_alg_def effective_translation_hart_mode_def)
  then have "translate_with_prefetch s Machine satp va t = Inr va" for satp va t
    by (simp add: translate_with_prefetch_def)
  with assms(3) have "pa = va"
    if "tcache_try_translate (core_tcache s) Machine satp t va = Some pa" for satp t va pa
    using that unfolding tcache_coherent_def by (metis sum.inject(2))
  with alg show ?thesis by (simp add: flat_def assms(1))
qed

lemma flat_translate:
  assumes "flat s" "t \<noteq> AccInstruction"
  shows "\<exists>s'. translate va t s = (Inr va, s') \<and> flat s' \<and> core_hart s' = core_hart s \<and> core_bus s' = core_bus s"
proof -
  let ?m = "hart_mode (core_hart s)" and ?satp = "csr_read (hart_csrs (core_hart s)) CSR_satp"
  let ?tc = "tcache_cache_translation ?m ?satp t va va (core_tcache s)"
  have b: "translate_with_prefetch s ?m ?satp va t = Inr va"
    using assms by (auto simp: flat_def Let_def translate_with_prefetch_def)
  have "pa = v" if "tcache_try_translate ?tc ?m ?satp t' v = Some pa" "t' \<noteq> AccInstruction" for t' v pa
    using tcache_try_after_cache [OF that(1)] assms(1) that(2) page_offset_join [of v]
    by (auto simp: flat_def Let_def)
  then have "flat (s\<lparr>core_tcache := ?tc\<rparr>)"
    using assms(1)
    by (auto simp: flat_def Let_def effective_translation_alg_def effective_translation_hart_mode_def
        cong: AccessType.case_cong)
  moreover have "pa = va" if "tcache_try_translate (core_tcache s) ?m ?satp t va = Some pa" for pa
    using that assms by (auto simp: flat_def Let_def)
  ultimately show ?thesis
    using assms(1) b by (auto simp: translate_def Let_def split: option.split)
qed

lemma flat_read:
  assumes "flat s"
  shows "\<exists>s'. read_from_address a s = (map_err (\<lambda>_. LoadAccessFault a) (bus_read (core_bus s) a), s')
    \<and> flat s' \<and> core_hart s' = core_hart s \<and> core_bus s' = core_bus s"
proof -
  obtain s' where "translate a AccLoad s = (Inr a, s')" "flat s'" "core_hart s' = core_hart s"
    "core_bus s' = core_bus s"
    using flat_translate [OF assms, of AccLoad a] by auto
  then show ?thesis by (auto simp: read_from_address_def)
qed

lemma flat_write:
  assumes "flat s" "bus_write (core_bus s) a v = Inr b"
  shows "\<exists>s'. write_to_address a v s = (Inr (), s')
    \<and> flat s' \<and> core_hart s' = core_hart s \<and> core_bus s' = b"
proof -
  obtain s' where "translate a AccStore s = (Inr a, s')" "flat s'" "core_hart s' = core_hart s"
    "core_bus s' = core_bus s"
    using flat_translate [OF assms(1), of AccStore a] by auto
  with assms(2) show ?thesis
    by (intro exI [of _ "s'\<lparr>core_bus := b\<rparr>"]) (simp add: write_to_address_def)
qed

lemma flat_write_error:
  assumes "flat s" "bus_write (core_bus s) a v = Inl e"
  shows "\<exists>s'. write_to_address a v s = (Inl (StoreAMOAccessFault a), s')
    \<and> flat s' \<and> core_hart s' = core_hart s \<and> core_bus s' = core_bus s"
proof -
  obtain s' where "translate a AccStore s = (Inr a, s')" "flat s'" "core_hart s' = core_hart s"
    "core_bus s' = core_bus s"
    using flat_translate [OF assms(1), of AccStore a] by auto
  with assms(2) show ?thesis
    by (intro exI [of _ s']) (simp add: write_to_address_def split: OutOfBounds.split)
qed

section \<open>Invalidation of translations\<close>

text \<open>The invariant of the cache in every reachable state.\<close>

definition tcache_wf :: "TranslationCache \<Rightarrow> bool" where
  "tcache_wf tc \<longleftrightarrow>
     (\<forall>t. let ac = tc (access_type_index t) in
        tcf.fresh (ac_fence ac) (ac_entries ac)
        \<and> (\<forall>i. tc_live (ac_entries ac i) \<longrightarrow> tc_phys_page (ac_entries ac i) AND OFFSET_MASK = 0))"

lemma tcache_wf_reset: "tcache_wf (tcache_reset tc)"
  by (simp add: tcache_wf_def tcache_reset_def ac_reset_def tc_cached_reset_def tc_live_def
      tcf.fresh_reset Let_def)

lemma tcache_wf_cache: "tcache_wf tc \<Longrightarrow> tcache_wf (tcache_cache_translation m s t v p tc)"
  by (auto simp: tcache_wf_def tcache_cache_translation_def ac_cache_translation_def
      tc_cached_cache_translation_def Let_def PAGE_MASK_def and.assoc intro!: tcf.fresh_insert)

lemma tcache_wf_invalidate: "tcache_wf tc \<Longrightarrow> tcache_wf (tcache_invalidate ts tc)"
proof (induction ts arbitrary: tc)
  case (Cons t ts)
  have "tcache_wf (tc(access_type_index t := ac_invalidate (tc (access_type_index t))))"
    using Cons.prems by (auto simp: tcache_wf_def Let_def ac_invalidate_entries tcf.fresh_invalidate
        tcf.kill_dead)
  with Cons.IH show ?case by (simp add: tcache_invalidate_Cons)
qed (simp add: tcache_invalidate_def)

lemma translate_wf: "tcache_wf (core_tcache s) \<Longrightarrow> tcache_wf (core_tcache (snd (translate va t s)))"
  by (simp add: translate_def Let_def tcache_wf_cache split: option.split sum.split)

lemma tcache_invalidate_miss:
  assumes "tcache_wf tc" "t \<in> set ts"
  shows "tcache_try_translate (tcache_invalidate ts tc) m s t va = None"
  using assms
proof (induction ts arbitrary: tc rule: rev_induct)
  case (snoc t' ts)
  let ?tc = "tcache_invalidate ts tc"
  have step: "tcache_invalidate (ts @ [t']) tc =
      ?tc(access_type_index t' := ac_invalidate (?tc (access_type_index t')))"
    by (simp add: tcache_invalidate_def)
  show ?case
  proof (cases "t' = t")
    case True
    have "tcf.fresh (ac_fence (?tc (access_type_index t))) (ac_entries (?tc (access_type_index t)))"
      using tcache_wf_invalidate [OF snoc.prems(1)] by (simp add: tcache_wf_def Let_def)
    then show ?thesis using step [unfolded True] by (simp add: True tcache_try_translate_def ac_invalidate_miss)
  next
    case False
    then have "tcache_try_translate ?tc m s t va = None" using snoc by simp
    with False show ?thesis by (simp add: step tcache_try_translate_def)
  qed
qed simp

text \<open>A hit keeps the offset in the page.\<close>

lemma tcache_wf_hit:
  assumes "tcache_wf tc" "tcache_try_translate tc m s t va = Some pa"
  shows "pa AND OFFSET_MASK = va AND OFFSET_MASK"
proof -
  let ?e = "ac_entries (tc (access_type_index t)) (virtual_page_index (va AND PAGE_MASK))"
  have h: "tc_virt_page ?e = va AND PAGE_MASK" "pa = tc_phys_page ?e OR (va AND OFFSET_MASK)"
    using assms(2) by (auto simp: tcache_try_translate_def Let_def ac_try_translate_def
        tc_cached_try_translate_def split: if_splits)
  then have "tc_live ?e" using page_not_all_ones [of va] by (simp add: tc_live_def)
  then have z: "tc_phys_page ?e AND OFFSET_MASK = 0" using assms(1) by (simp add: tcache_wf_def Let_def)
  have "pa AND OFFSET_MASK = (tc_phys_page ?e AND OFFSET_MASK) OR (va AND OFFSET_MASK)"
    unfolding h(2) by (rule word_bits_eqI) (auto simp: bit_and_iff bit_or_iff)
  then show ?thesis by (simp add: z)
qed

end
