(* ===== verification/Interp_I.thy ===== *)
theory Interp_I
  imports Address_Translation Instruction
begin

text \<open>
  The base integer instructions: interpreter/rv32i.rs and interpreter/rv64i.rs.  A method over
  \<^verbatim>\<open>XRegisters\<close>, \<^verbatim>\<open>HartState\<close> or \<^verbatim>\<open>MachineCoreState\<close> is a function over the model of
  that state, with the arguments in the order of the source.
\<close>

section \<open>Shifts\<close>

text \<open>The shift operators of Rust on an unsigned and a signed integer, as compiled without overflow
  checks: the amount is taken modulo the width of the shifted operand.\<close>

definition rust_shl :: "'a::len word \<Rightarrow> u64 \<Rightarrow> 'a word" where
  "rust_shl v n = push_bit (unat n mod LENGTH('a)) v"

definition rust_shr :: "'a::len word \<Rightarrow> u64 \<Rightarrow> 'a word" where
  "rust_shr v n = drop_bit (unat n mod LENGTH('a)) v"

definition rust_sar :: "'a::len word \<Rightarrow> u64 \<Rightarrow> 'a word" where
  "rust_sar v n = signed_drop_bit (unat n mod LENGTH('a)) v"

section \<open>RV32I over integer registers\<close>

definition run_addi :: "i64 \<Rightarrow> XRegister \<Rightarrow> XRegister \<Rightarrow> XRegisters \<Rightarrow> XRegisters" where
  "run_addi imm rs1 rd x =
     (let rval = xr_read x rs1;
          result = rval + imm
      in xr_write x rd result)"

definition run_add :: "XRegister \<Rightarrow> XRegister \<Rightarrow> XRegister \<Rightarrow> XRegisters \<Rightarrow> XRegisters" where
  "run_add rs1 rs2 rd x =
     (let lhs = xr_read x rs1;
          rhs = xr_read x rs2;
          result = lhs + rhs
      in xr_write x rd result)"

definition run_sub :: "XRegister \<Rightarrow> XRegister \<Rightarrow> XRegister \<Rightarrow> XRegisters \<Rightarrow> XRegisters" where
  "run_sub rs1 rs2 rd x =
     (let lhs = xr_read x rs1;
          rhs = xr_read x rs2;
          result = lhs - rhs
      in xr_write x rd result)"

definition run_lui :: "i64 \<Rightarrow> XRegister \<Rightarrow> XRegisters \<Rightarrow> XRegisters" where
  "run_lui imm rd x = xr_write x rd imm"

definition run_andi :: "i64 \<Rightarrow> XRegister \<Rightarrow> XRegister \<Rightarrow> XRegisters \<Rightarrow> XRegisters" where
  "run_andi imm rs1 rd x =
     (let result = xr_read x rs1 AND imm in xr_write x rd result)"

definition run_ori :: "i64 \<Rightarrow> XRegister \<Rightarrow> XRegister \<Rightarrow> XRegisters \<Rightarrow> XRegisters" where
  "run_ori imm rs1 rd x =
     (let result = xr_read x rs1 OR imm in xr_write x rd result)"

definition run_xori :: "i64 \<Rightarrow> XRegister \<Rightarrow> XRegister \<Rightarrow> XRegisters \<Rightarrow> XRegisters" where
  "run_xori imm rs1 rd x =
     (let result = xr_read x rs1 XOR imm in xr_write x rd result)"

definition run_and :: "XRegister \<Rightarrow> XRegister \<Rightarrow> XRegister \<Rightarrow> XRegisters \<Rightarrow> XRegisters" where
  "run_and rs1 rs2 rd x =
     (let result = xr_read x rs1 AND xr_read x rs2 in xr_write x rd result)"

definition run_or :: "XRegister \<Rightarrow> XRegister \<Rightarrow> XRegister \<Rightarrow> XRegisters \<Rightarrow> XRegisters" where
  "run_or rs1 rs2 rd x =
     (let result = xr_read x rs1 OR xr_read x rs2 in xr_write x rd result)"

definition run_xor :: "XRegister \<Rightarrow> XRegister \<Rightarrow> XRegister \<Rightarrow> XRegisters \<Rightarrow> XRegisters" where
  "run_xor rs1 rs2 rd x =
     (let result = xr_read x rs1 XOR xr_read x rs2 in xr_write x rd result)"

definition run_slti :: "i64 \<Rightarrow> XRegister \<Rightarrow> XRegister \<Rightarrow> XRegisters \<Rightarrow> XRegisters" where
  "run_slti imm rs1 rd x =
     (let result = if xr_read x rs1 <s imm then 1 else 0 in xr_write x rd result)"

definition run_sltiu :: "i64 \<Rightarrow> XRegister \<Rightarrow> XRegister \<Rightarrow> XRegisters \<Rightarrow> XRegisters" where
  "run_sltiu imm rs1 rd x =
     (let result = if xr_read x rs1 < imm then 1 else 0 in xr_write x rd result)"

definition run_slt :: "XRegister \<Rightarrow> XRegister \<Rightarrow> XRegister \<Rightarrow> XRegisters \<Rightarrow> XRegisters" where
  "run_slt rs1 rs2 rd x =
     (let result = if xr_read x rs1 <s xr_read x rs2 then 1 else 0 in xr_write x rd result)"

definition run_sltu :: "XRegister \<Rightarrow> XRegister \<Rightarrow> XRegister \<Rightarrow> XRegisters \<Rightarrow> XRegisters" where
  "run_sltu rs1 rs2 rd x =
     (let result = if xr_read x rs1 < xr_read x rs2 then 1 else 0 in xr_write x rd result)"

section \<open>RV64I over integer registers\<close>

definition run_addiw :: "i64 \<Rightarrow> XRegister \<Rightarrow> XRegister \<Rightarrow> XRegisters \<Rightarrow> XRegisters" where
  "run_addiw imm rs1 rd x =
     (let rval = xr_read x rs1;
          result = rval + imm;
          result = scast (ucast result :: i32)
      in xr_write x rd result)"

definition run_addw :: "XRegister \<Rightarrow> XRegister \<Rightarrow> XRegister \<Rightarrow> XRegisters \<Rightarrow> XRegisters" where
  "run_addw rs1 rs2 rd x =
     (let lhs = xr_read x rs1;
          rhs = xr_read x rs2;
          result = scast (ucast (lhs + rhs) :: i32)
      in xr_write x rd result)"

definition run_subw :: "XRegister \<Rightarrow> XRegister \<Rightarrow> XRegister \<Rightarrow> XRegisters \<Rightarrow> XRegisters" where
  "run_subw rs1 rs2 rd x =
     (let lhs = xr_read x rs1;
          rhs = xr_read x rs2;
          result = scast (ucast (lhs - rhs) :: i32)
      in xr_write x rd result)"

definition run_slli :: "i64 \<Rightarrow> XRegister \<Rightarrow> XRegister \<Rightarrow> XRegisters \<Rightarrow> XRegisters" where
  "run_slli imm rs1 rd x = xr_write x rd (rust_shl (xr_read x rs1) imm)"

definition run_srli :: "i64 \<Rightarrow> XRegister \<Rightarrow> XRegister \<Rightarrow> XRegisters \<Rightarrow> XRegisters" where
  "run_srli imm rs1 rd x = xr_write x rd (rust_shr (xr_read x rs1) imm)"

definition run_srai :: "i64 \<Rightarrow> XRegister \<Rightarrow> XRegister \<Rightarrow> XRegisters \<Rightarrow> XRegisters" where
  "run_srai imm rs1 rd x =
     (let sh_amt = imm AND 63;
          result = rust_sar (xr_read x rs1) sh_amt
      in xr_write x rd result)"

definition run_slliw :: "i64 \<Rightarrow> XRegister \<Rightarrow> XRegister \<Rightarrow> XRegisters \<Rightarrow> XRegisters" where
  "run_slliw imm rs1 rd x =
     (let result = rust_shl (xr_read x rs1) imm in xr_write x rd (scast (ucast result :: i32)))"

definition run_srliw :: "i64 \<Rightarrow> XRegister \<Rightarrow> XRegister \<Rightarrow> XRegisters \<Rightarrow> XRegisters" where
  "run_srliw imm rs1 rd x =
     (let result = rust_shr (ucast (xr_read x rs1) :: u32) imm in xr_write x rd (scast result))"

definition run_sraiw :: "i64 \<Rightarrow> XRegister \<Rightarrow> XRegister \<Rightarrow> XRegisters \<Rightarrow> XRegisters" where
  "run_sraiw imm rs1 rd x =
     (let sh_amt = imm AND 31;
          result = rust_sar (ucast (xr_read x rs1) :: i32) sh_amt
      in xr_write x rd (scast result))"

definition run_sll :: "XRegister \<Rightarrow> XRegister \<Rightarrow> XRegister \<Rightarrow> XRegisters \<Rightarrow> XRegisters" where
  "run_sll rs1 rs2 rd x =
     (let sh_amt = xr_read x rs2 AND 63;
          result = rust_shl (xr_read x rs1) sh_amt
      in xr_write x rd result)"

definition run_srl :: "XRegister \<Rightarrow> XRegister \<Rightarrow> XRegister \<Rightarrow> XRegisters \<Rightarrow> XRegisters" where
  "run_srl rs1 rs2 rd x =
     (let sh_amt = xr_read x rs2 AND 63;
          result = rust_shr (xr_read x rs1) sh_amt
      in xr_write x rd result)"

definition run_sra :: "XRegister \<Rightarrow> XRegister \<Rightarrow> XRegister \<Rightarrow> XRegisters \<Rightarrow> XRegisters" where
  "run_sra rs1 rs2 rd x =
     (let sh_amt = xr_read x rs2 AND 63;
          result = rust_sar (xr_read x rs1) sh_amt
      in xr_write x rd result)"

definition run_sllw :: "XRegister \<Rightarrow> XRegister \<Rightarrow> XRegister \<Rightarrow> XRegisters \<Rightarrow> XRegisters" where
  "run_sllw rs1 rs2 rd x =
     (let sh_amt = xr_read x rs2 AND 31;
          result = rust_shl (xr_read x rs1) sh_amt
      in xr_write x rd (scast (ucast result :: i32)))"

definition run_srlw :: "XRegister \<Rightarrow> XRegister \<Rightarrow> XRegister \<Rightarrow> XRegisters \<Rightarrow> XRegisters" where
  "run_srlw rs1 rs2 rd x =
     (let sh_amt = xr_read x rs2 AND 31;
          result = rust_shr (ucast (xr_read x rs1) :: u32) sh_amt
      in xr_write x rd (scast result))"

definition run_sraw :: "XRegister \<Rightarrow> XRegister \<Rightarrow> XRegister \<Rightarrow> XRegisters \<Rightarrow> XRegisters" where
  "run_sraw rs1 rs2 rd x =
     (let sh_amt = xr_read x rs2 AND 31;
          result = rust_sar (ucast (xr_read x rs1) :: i32) sh_amt
      in xr_write x rd (scast result))"

section \<open>Instructions over the hart\<close>

definition run_auipc :: "i64 \<Rightarrow> XRegister \<Rightarrow> HartState \<Rightarrow> HartState" where
  "run_auipc imm rd h =
     (let rval = hart_pc h + imm in h\<lparr>hart_xregs := xr_write (hart_xregs h) rd rval\<rparr>)"

definition run_ebreak :: "HartState \<Rightarrow> Exception" where
  "run_ebreak h = Breakpoint"

definition run_ecall :: "HartState \<Rightarrow> Exception" where
  "run_ecall h =
     (case hart_mode h of
        User \<Rightarrow> EnvCallFromUMode
      | Supervisor \<Rightarrow> EnvCallFromSMode
      | Machine \<Rightarrow> EnvCallFromMMode)"

definition run_jalr_impl :: "u64 \<Rightarrow> i64 \<Rightarrow> XRegister \<Rightarrow> XRegister \<Rightarrow> HartState \<Rightarrow> Address \<times> HartState" where
  "run_jalr_impl INSTR_WIDTH imm rs1 rd h =
     (let return_address = hart_pc h + INSTR_WIDTH;
          target_address = (xr_read (hart_xregs h) rs1 + imm) AND NOT 1;
          h = h\<lparr>hart_xregs := xr_write (hart_xregs h) rd return_address\<rparr>
      in (target_address, h))"

definition run_jalr :: "i64 \<Rightarrow> XRegister \<Rightarrow> XRegister \<Rightarrow> HartState \<Rightarrow> Address \<times> HartState" where
  "run_jalr imm rs1 rd = run_jalr_impl 4 imm rs1 rd"

definition run_jal_impl :: "u64 \<Rightarrow> i64 \<Rightarrow> XRegister \<Rightarrow> HartState \<Rightarrow> Address \<times> HartState" where
  "run_jal_impl INSTR_WIDTH imm rd h =
     (let current_pc = hart_pc h;
          return_address = current_pc + INSTR_WIDTH;
          h = h\<lparr>hart_xregs := xr_write (hart_xregs h) rd return_address\<rparr>
      in (current_pc + imm, h))"

definition run_jal :: "i64 \<Rightarrow> XRegister \<Rightarrow> HartState \<Rightarrow> Address \<times> HartState" where
  "run_jal imm rd = run_jal_impl 4 imm rd"

definition run_beq_impl :: "u64 \<Rightarrow> i64 \<Rightarrow> XRegister \<Rightarrow> XRegister \<Rightarrow> HartState \<Rightarrow> Address" where
  "run_beq_impl INSTR_WIDTH imm rs1 rs2 h =
     (let current_pc = hart_pc h in
      if xr_read (hart_xregs h) rs1 = xr_read (hart_xregs h) rs2
      then current_pc + imm else current_pc + INSTR_WIDTH)"

definition run_beq :: "i64 \<Rightarrow> XRegister \<Rightarrow> XRegister \<Rightarrow> HartState \<Rightarrow> Address" where
  "run_beq imm rs1 rs2 = run_beq_impl 4 imm rs1 rs2"

definition run_bne_impl :: "u64 \<Rightarrow> i64 \<Rightarrow> XRegister \<Rightarrow> XRegister \<Rightarrow> HartState \<Rightarrow> Address" where
  "run_bne_impl INSTR_WIDTH imm rs1 rs2 h =
     (let current_pc = hart_pc h in
      if xr_read (hart_xregs h) rs1 \<noteq> xr_read (hart_xregs h) rs2
      then current_pc + imm else current_pc + INSTR_WIDTH)"

definition run_bne :: "i64 \<Rightarrow> XRegister \<Rightarrow> XRegister \<Rightarrow> HartState \<Rightarrow> Address" where
  "run_bne imm rs1 rs2 = run_bne_impl 4 imm rs1 rs2"

definition run_bge :: "i64 \<Rightarrow> XRegister \<Rightarrow> XRegister \<Rightarrow> HartState \<Rightarrow> Address" where
  "run_bge imm rs1 rs2 h =
     (let current_pc = hart_pc h;
          lhs = xr_read (hart_xregs h) rs1;
          rhs = xr_read (hart_xregs h) rs2
      in if rhs \<le>s lhs then current_pc + imm else current_pc + 4)"

definition run_bgeu :: "i64 \<Rightarrow> XRegister \<Rightarrow> XRegister \<Rightarrow> HartState \<Rightarrow> Address" where
  "run_bgeu imm rs1 rs2 h =
     (let current_pc = hart_pc h;
          lhs = xr_read (hart_xregs h) rs1;
          rhs = xr_read (hart_xregs h) rs2
      in if rhs \<le> lhs then current_pc + imm else current_pc + 4)"

definition run_blt :: "i64 \<Rightarrow> XRegister \<Rightarrow> XRegister \<Rightarrow> HartState \<Rightarrow> Address" where
  "run_blt imm rs1 rs2 h =
     (let current_pc = hart_pc h;
          lhs = xr_read (hart_xregs h) rs1;
          rhs = xr_read (hart_xregs h) rs2
      in if lhs <s rhs then current_pc + imm else current_pc + 4)"

definition run_bltu :: "i64 \<Rightarrow> XRegister \<Rightarrow> XRegister \<Rightarrow> HartState \<Rightarrow> Address" where
  "run_bltu imm rs1 rs2 h =
     (let current_pc = hart_pc h;
          lhs = xr_read (hart_xregs h) rs1;
          rhs = xr_read (hart_xregs h) rs2
      in if lhs < rhs then current_pc + imm else current_pc + 4)"

definition run_fence :: "'p \<Rightarrow> 'q \<Rightarrow> MachineCoreState \<Rightarrow> MachineCoreState" where
  "run_fence pred succ s = s"

section \<open>Loads and stores\<close>

definition run_ld :: "i64 \<Rightarrow> XRegister \<Rightarrow> XRegister \<Rightarrow> (MachineCoreState, unit) exec" where
  "run_ld imm rs1 rd =
     and_then (read_from_bus imm rs1) (\<lambda>value :: 64 word. \<lambda>s. (Inr (), core_write_x rd value s))"

definition run_lw :: "i64 \<Rightarrow> XRegister \<Rightarrow> XRegister \<Rightarrow> (MachineCoreState, unit) exec" where
  "run_lw imm rs1 rd =
     and_then (read_from_bus imm rs1) (\<lambda>value :: 32 word. \<lambda>s. (Inr (), core_write_x rd (scast value) s))"

definition run_lh :: "i64 \<Rightarrow> XRegister \<Rightarrow> XRegister \<Rightarrow> (MachineCoreState, unit) exec" where
  "run_lh imm rs1 rd =
     and_then (read_from_bus imm rs1) (\<lambda>value :: 16 word. \<lambda>s. (Inr (), core_write_x rd (scast value) s))"

definition run_lb :: "i64 \<Rightarrow> XRegister \<Rightarrow> XRegister \<Rightarrow> (MachineCoreState, unit) exec" where
  "run_lb imm rs1 rd =
     and_then (read_from_bus imm rs1) (\<lambda>value :: 8 word. \<lambda>s. (Inr (), core_write_x rd (scast value) s))"

definition run_lwu :: "i64 \<Rightarrow> XRegister \<Rightarrow> XRegister \<Rightarrow> (MachineCoreState, unit) exec" where
  "run_lwu imm rs1 rd =
     and_then (read_from_bus imm rs1) (\<lambda>value :: 32 word. \<lambda>s. (Inr (), core_write_x rd (ucast value) s))"

definition run_lhu :: "i64 \<Rightarrow> XRegister \<Rightarrow> XRegister \<Rightarrow> (MachineCoreState, unit) exec" where
  "run_lhu imm rs1 rd =
     and_then (read_from_bus imm rs1) (\<lambda>value :: 16 word. \<lambda>s. (Inr (), core_write_x rd (ucast value) s))"

definition run_lbu :: "i64 \<Rightarrow> XRegister \<Rightarrow> XRegister \<Rightarrow> (MachineCoreState, unit) exec" where
  "run_lbu imm rs1 rd =
     and_then (read_from_bus imm rs1) (\<lambda>value :: 8 word. \<lambda>s. (Inr (), core_write_x rd (ucast value) s))"

definition run_sd :: "i64 \<Rightarrow> XRegister \<Rightarrow> XRegister \<Rightarrow> (MachineCoreState, unit) exec" where
  "run_sd imm rs1 rs2 s =
     (let value = xr_read (core_xregs s) rs2 in write_to_bus imm rs1 value s)"

definition run_sw :: "i64 \<Rightarrow> XRegister \<Rightarrow> XRegister \<Rightarrow> (MachineCoreState, unit) exec" where
  "run_sw imm rs1 rs2 s =
     (let value = xr_read (core_xregs s) rs2 in write_to_bus imm rs1 (ucast value :: 32 word) s)"

definition run_sh :: "i64 \<Rightarrow> XRegister \<Rightarrow> XRegister \<Rightarrow> (MachineCoreState, unit) exec" where
  "run_sh imm rs1 rs2 s =
     (let value = xr_read (core_xregs s) rs2 in write_to_bus imm rs1 (ucast value :: 16 word) s)"

definition run_sb :: "i64 \<Rightarrow> XRegister \<Rightarrow> XRegister \<Rightarrow> (MachineCoreState, unit) exec" where
  "run_sb imm rs1 rs2 s =
     (let value = xr_read (core_xregs s) rs2 in write_to_bus imm rs1 (ucast value :: 8 word) s)"

section \<open>Arithmetic of shifts\<close>

lemma uint_rust_shl:
  fixes v :: "'a::len word"
  shows "unat n < LENGTH('a) \<Longrightarrow> uint (rust_shl v n) = uint v * 2 ^ unat n mod 2 ^ LENGTH('a)"
  unfolding rust_shl_def unsigned_push_bit_eq by (simp add: push_bit_eq_mult take_bit_eq_mod)

lemma uint_rust_shr:
  fixes v :: "'a::len word"
  shows "unat n < LENGTH('a) \<Longrightarrow> uint (rust_shr v n) = uint v div 2 ^ unat n"
  unfolding rust_shr_def unsigned_drop_bit_eq
  by (simp add: drop_bit_eq_div take_bit_eq_mod mod_pos_pos_trivial)

lemma sint_rust_sar:
  fixes v :: "'a::len word"
  shows "unat n < LENGTH('a) \<Longrightarrow> sint (rust_sar v n) = sint v div 2 ^ unat n"
  by (simp add: rust_sar_def sint_signed_drop_bit_eq drop_bit_eq_div)

section \<open>Register results\<close>

text \<open>The W instructions leave a sign-extended 32-bit value in the destination register.\<close>

definition is_sext32 :: "u64 \<Rightarrow> bool" where
  "is_sext32 v \<longleftrightarrow> v = scast (ucast v :: i32)"

lemma is_sext32_scast [simp]: "is_sext32 (scast (w :: i32))"
proof -
  have "ucast (scast w :: u64) = w"
    by (rule word_bits_eqI) (simp add: bit_ucast_iff bit_signed_iff)
  then show ?thesis by (simp add: is_sext32_def)
qed

lemma is_sext32_0 [simp]: "is_sext32 0"
  by (simp add: is_sext32_def)

section \<open>A load after a store\<close>

lemma store_load:
  fixes v :: "'a::len word"
  assumes "flat s" "bus_wf (core_bus s)" "8 dvd LENGTH('a)"
    "write_to_bus imm rs1 v s = (Inr (), s1)"
  shows "\<exists>s2. read_from_bus imm rs1 s1 = (Inr v, s2) \<and> core_hart s2 = core_hart s
    \<and> core_bus s2 = core_bus s1 \<and> flat s2"
proof -
  let ?a = "xr_read (core_xregs s) rs1 + imm"
  have w: "write_to_address ?a v s = (Inr (), s1)" using assms(4) by (simp add: write_to_bus_def Let_def)
  obtain b where b: "bus_write (core_bus s) ?a v = Inr b"
    using w flat_write_error [OF assms(1), of ?a v] by (cases "bus_write (core_bus s) ?a v") auto
  have s1: "flat s1" "core_hart s1 = core_hart s" "core_bus s1 = b"
    using w flat_write [OF assms(1) b] by auto
  have "bus_read b ?a = Inr v"
    using addressable.read_write_same [OF bus_addressable [OF assms(3)] assms(2) b] .
  with flat_read [OF s1(1), of ?a, where ?'a = 'a] s1 show ?thesis
    by (auto simp: read_from_bus_def Let_def)
qed

lemma xr_read_write_same [simp]: "r \<noteq> X0 \<Longrightarrow> xr_read (xr_write x r v) r = v"
  by (simp add: xr_read_def xr_write_def is_zero_def)

lemma store_load_instr:
  fixes v :: "'a::len word"
  assumes "flat s" "bus_wf (core_bus s)" "8 dvd LENGTH('a)" "rd \<noteq> X0"
    "write_to_bus imm rs1 v s = (Inr (), s1)"
  shows "\<exists>s2. and_then (read_from_bus imm rs1) (\<lambda>v s. (Inr (), core_write_x rd (f v) s)) s1 = (Inr (), s2)
    \<and> xr_read (core_xregs s2) rd = f v"
  using store_load [OF assms(1,2,3,5)] assms(4) by (auto simp: and_then_def)

lemma load_after_store:
  assumes "flat s" "bus_wf (core_bus s)" "rd \<noteq> X0"
  shows
    "run_sd imm rs1 rs2 s = (Inr (), s1) \<Longrightarrow>
       \<exists>s2. run_ld imm rs1 rd s1 = (Inr (), s2) \<and> xr_read (core_xregs s2) rd = xr_read (core_xregs s) rs2"
    "run_sw imm rs1 rs2 s = (Inr (), s1) \<Longrightarrow>
       \<exists>s2. run_lw imm rs1 rd s1 = (Inr (), s2)
         \<and> xr_read (core_xregs s2) rd = scast (ucast (xr_read (core_xregs s) rs2) :: i32)"
    "run_sh imm rs1 rs2 s = (Inr (), s1) \<Longrightarrow>
       \<exists>s2. run_lhu imm rs1 rd s1 = (Inr (), s2)
         \<and> xr_read (core_xregs s2) rd = ucast (ucast (xr_read (core_xregs s) rs2) :: u16)"
    "run_sb imm rs1 rs2 s = (Inr (), s1) \<Longrightarrow>
       \<exists>s2. run_lbu imm rs1 rd s1 = (Inr (), s2)
         \<and> xr_read (core_xregs s2) rd = ucast (ucast (xr_read (core_xregs s) rs2) :: u8)"
  unfolding run_sd_def run_ld_def run_sw_def run_lw_def run_sh_def run_lhu_def run_sb_def
    run_lbu_def Let_def
  by (rule store_load_instr [OF assms(1,2) _ assms(3)]; simp)+

text \<open>Loads change no memory, and a load that faults changes no register.\<close>

lemma load_error_frame:
  assumes "and_then (read_from_bus imm rs1) (\<lambda>v s. (Inr (), core_write_x rd (f v) s)) s = (Inl e, s')"
  shows "core_hart s' = core_hart s" "core_bus s' = core_bus s"
  using assms read_from_address_frame
  by (auto simp: and_then_err_iff read_from_bus_def Let_def)

section \<open>Jumps\<close>

lemma run_jalr_impl_even: "\<not> bit (fst (run_jalr_impl w imm rs1 rd h)) 0"
  by (simp add: run_jalr_impl_def Let_def bit_and_iff bit_not_iff)

lemma run_jalr_impl_link:
  "rd \<noteq> X0 \<Longrightarrow> xr_read (hart_xregs (snd (run_jalr_impl w imm rs1 rd h))) rd = hart_pc h + w"
  by (simp add: run_jalr_impl_def Let_def xr_read_def xr_write_def is_zero_def)

end
