(* ===== verification/Interp_M.thy ===== *)
theory Interp_M
  imports Interp_I "HOL-Library.Signed_Division"
begin

text \<open>
  The multiplication and division instructions: interpreter/rv32m.rs and interpreter/rv64m.rs.  The
  division and remainder of Rust on signed integers truncate towards zero; on operands where Rust
  would panic (a zero divisor, the least integer divided by -1) the source has branches of its own.
\<close>

section \<open>Rust division\<close>

definition rust_sdiv :: "'a::len word \<Rightarrow> 'a word \<Rightarrow> 'a word" where
  "rust_sdiv a b = word_of_int (sint a sdiv sint b)"

definition rust_srem :: "'a::len word \<Rightarrow> 'a word \<Rightarrow> 'a word" where
  "rust_srem a b = word_of_int (sint a smod sint b)"

abbreviation i64_MIN :: i64 where "i64_MIN \<equiv> 0x8000000000000000"
abbreviation i32_MIN :: i32 where "i32_MIN \<equiv> 0x80000000"

section \<open>RV32M\<close>

definition run_rem :: "XRegister \<Rightarrow> XRegister \<Rightarrow> XRegister \<Rightarrow> XRegisters \<Rightarrow> XRegisters" where
  "run_rem rs1 rs2 rd x =
     (let rval1 = xr_read x rs1;
          rval2 = xr_read x rs2;
          result = if rval2 = 0 then rval1
                   else if rval2 = - 1 \<and> rval1 = i64_MIN then 0
                   else rust_srem rval1 rval2
      in xr_write x rd result)"

definition run_remu :: "XRegister \<Rightarrow> XRegister \<Rightarrow> XRegister \<Rightarrow> XRegisters \<Rightarrow> XRegisters" where
  "run_remu rs1 rs2 rd x =
     (let rval1 = xr_read x rs1;
          rval2 = xr_read x rs2;
          result = if rval2 = 0 then rval1 else rval1 mod rval2
      in xr_write x rd result)"

definition run_div :: "XRegister \<Rightarrow> XRegister \<Rightarrow> XRegister \<Rightarrow> XRegisters \<Rightarrow> XRegisters" where
  "run_div rs1 rs2 rd x =
     (let rval1 = xr_read x rs1;
          rval2 = xr_read x rs2;
          result = if rval2 = 0 then - 1
                   else if rval2 = - 1 \<and> rval1 = i64_MIN then i64_MIN
                   else rust_sdiv rval1 rval2
      in xr_write x rd result)"

definition run_divu :: "XRegister \<Rightarrow> XRegister \<Rightarrow> XRegister \<Rightarrow> XRegisters \<Rightarrow> XRegisters" where
  "run_divu rs1 rs2 rd x =
     (let rval1 = xr_read x rs1;
          rval2 = xr_read x rs2;
          result = if rval2 = 0 then - 1 else rval1 div rval2
      in xr_write x rd result)"

definition run_mul :: "XRegister \<Rightarrow> XRegister \<Rightarrow> XRegister \<Rightarrow> XRegisters \<Rightarrow> XRegisters" where
  "run_mul rs1 rs2 rd x =
     (let rval1 = xr_read x rs1;
          rval2 = xr_read x rs2;
          result = rval1 * rval2
      in xr_write x rd result)"

definition run_mulh :: "XRegister \<Rightarrow> XRegister \<Rightarrow> XRegister \<Rightarrow> XRegisters \<Rightarrow> XRegisters" where
  "run_mulh rs1 rs2 rd x =
     (let rval1 = scast (xr_read x rs1) :: 128 word;
          rval2 = scast (xr_read x rs2) :: 128 word;
          result = rval1 * rval2
      in xr_write x rd (ucast (signed_drop_bit 64 result)))"

definition run_mulhsu :: "XRegister \<Rightarrow> XRegister \<Rightarrow> XRegister \<Rightarrow> XRegisters \<Rightarrow> XRegisters" where
  "run_mulhsu rs1 rs2 rd x =
     (let rval1 = scast (xr_read x rs1) :: 128 word;
          rval2 = ucast (xr_read x rs2) :: 128 word;
          result = rval1 * rval2
      in xr_write x rd (ucast (drop_bit 64 result)))"

definition run_mulhu :: "XRegister \<Rightarrow> XRegister \<Rightarrow> XRegister \<Rightarrow> XRegisters \<Rightarrow> XRegisters" where
  "run_mulhu rs1 rs2 rd x =
     (let rval1 = ucast (xr_read x rs1) :: 128 word;
          rval2 = ucast (xr_read x rs2) :: 128 word;
          result = rval1 * rval2
      in xr_write x rd (ucast (drop_bit 64 result)))"

section \<open>RV64M\<close>

definition run_remw :: "XRegister \<Rightarrow> XRegister \<Rightarrow> XRegister \<Rightarrow> XRegisters \<Rightarrow> XRegisters" where
  "run_remw rs1 rs2 rd x =
     (let rval1 = ucast (xr_read x rs1) :: i32;
          rval2 = ucast (xr_read x rs2) :: i32;
          result = if rval2 = 0 then rval1
                   else if rval2 = - 1 \<and> rval1 = i32_MIN then 0
                   else rust_srem rval1 rval2
      in xr_write x rd (scast result))"

definition run_remuw :: "XRegister \<Rightarrow> XRegister \<Rightarrow> XRegister \<Rightarrow> XRegisters \<Rightarrow> XRegisters" where
  "run_remuw rs1 rs2 rd x =
     (let rval1 = ucast (xr_read x rs1) :: u32;
          rval2 = ucast (xr_read x rs2) :: u32;
          result = if rval2 = 0 then rval1 else rval1 mod rval2
      in xr_write x rd (scast result))"

definition run_divw :: "XRegister \<Rightarrow> XRegister \<Rightarrow> XRegister \<Rightarrow> XRegisters \<Rightarrow> XRegisters" where
  "run_divw rs1 rs2 rd x =
     (let rval1 = ucast (xr_read x rs1) :: i32;
          rval2 = ucast (xr_read x rs2) :: i32;
          result = if rval2 = 0 then - 1
                   else if rval2 = - 1 \<and> rval1 = i32_MIN then i32_MIN
                   else rust_sdiv rval1 rval2
      in xr_write x rd (scast result))"

definition run_divuw :: "XRegister \<Rightarrow> XRegister \<Rightarrow> XRegister \<Rightarrow> XRegisters \<Rightarrow> XRegisters" where
  "run_divuw rs1 rs2 rd x =
     (let rval1 = ucast (xr_read x rs1) :: u32;
          rval2 = ucast (xr_read x rs2) :: u32;
          result = if rval2 = 0 then - 1 else rval1 div rval2
      in xr_write x rd (scast result))"

definition run_mulw :: "XRegister \<Rightarrow> XRegister \<Rightarrow> XRegister \<Rightarrow> XRegisters \<Rightarrow> XRegisters" where
  "run_mulw rs1 rs2 rd x =
     (let rval1 = ucast (xr_read x rs1) :: i32;
          rval2 = ucast (xr_read x rs2) :: i32;
          result = rval1 * rval2
      in xr_write x rd (scast result))"

section \<open>The quotient and remainder recompose the dividend\<close>

definition div_result :: "'a::len word \<Rightarrow> 'a word \<Rightarrow> 'a word" where
  "div_result a b = (if b = 0 then - 1 else if b = - 1 \<and> a = 2 ^ (LENGTH('a) - 1)
     then 2 ^ (LENGTH('a) - 1) else rust_sdiv a b)"

definition rem_result :: "'a::len word \<Rightarrow> 'a word \<Rightarrow> 'a word" where
  "rem_result a b = (if b = 0 then a else if b = - 1 \<and> a = 2 ^ (LENGTH('a) - 1)
     then 0 else rust_srem a b)"

lemma run_div_eq: "run_div rs1 rs2 rd x = xr_write x rd (div_result (xr_read x rs1) (xr_read x rs2))"
  by (simp add: run_div_def div_result_def Let_def)

lemma run_rem_eq: "run_rem rs1 rs2 rd x = xr_write x rd (rem_result (xr_read x rs1) (xr_read x rs2))"
  by (simp add: run_rem_def rem_result_def Let_def)

lemma run_divw_eq:
  "run_divw rs1 rs2 rd x =
   xr_write x rd (scast (div_result (ucast (xr_read x rs1) :: i32) (ucast (xr_read x rs2))))"
  by (simp add: run_divw_def div_result_def Let_def)

lemma run_remw_eq:
  "run_remw rs1 rs2 rd x =
   xr_write x rd (scast (rem_result (ucast (xr_read x rs1) :: i32) (ucast (xr_read x rs2))))"
  by (simp add: run_remw_def rem_result_def Let_def)

lemma rust_div_rem: "rust_sdiv a b * b + rust_srem a b = (a :: 'a::len word)"
proof -
  have "word_of_int ((sint a sdiv sint b) * sint b + sint a smod sint b) = (word_of_int (sint a) :: 'a word)"
    by (simp only: sdiv_mult_smod_eq)
  then show ?thesis by (simp add: rust_sdiv_def rust_srem_def)
qed

lemma double_min_word: "2 * 2 ^ (LENGTH('a) - 1) = (0 :: 'a::len word)"
proof -
  have "2 * 2 ^ (LENGTH('a) - 1) = (2 :: 'a word) ^ LENGTH('a)"
    by (metis One_nat_def len_gt_0 power_Suc Suc_pred)
  then show ?thesis by simp
qed

lemma div_rem_recompose: "div_result a b * b + rem_result a b = (a :: 'a::len word)"
  using double_min_word [where ?'a = 'a] by (simp add: div_result_def rem_result_def rust_div_rem)

section \<open>Exact quotients, remainders and products\<close>

lemma sint_range: "- (2 ^ (LENGTH('a) - 1)) \<le> sint (a :: 'a::len word)" "sint a < 2 ^ (LENGTH('a) - 1)"
  using sint_greater_eq [of a] sint_less [of a] by simp_all

lemma sint_word_of_int_range:
  assumes "- (2 ^ (LENGTH('a) - 1)) \<le> k" "k < 2 ^ (LENGTH('a) - 1)"
  shows "sint (word_of_int k :: 'a::len word) = k"
  using assms by (simp add: sint_sbintrunc' signed_take_bit_int_eq_self)

lemma sint_min_word:
  "sint (a :: 'a::len word) = - (2 ^ (LENGTH('a) - 1)) \<longleftrightarrow> a = 2 ^ (LENGTH('a) - 1)"
proof -
  let ?m = "- (2 ^ (LENGTH('a) - 1)) :: int"
  have m: "sint (word_of_int ?m :: 'a word) = ?m" by (rule sint_word_of_int_range) auto
  have "2 ^ (LENGTH('a) - 1) + 2 ^ (LENGTH('a) - 1) = (0 :: 'a word)"
    using double_min_word [where ?'a = 'a] by (simp only: mult_2)
  then have "(word_of_int ?m :: 'a word) = 2 ^ (LENGTH('a) - 1)"
    by (simp add: minus_unique)
  with m show ?thesis by (metis signed_word_eqI)
qed

lemma sint_rust_srem: "sint (rust_srem a b) = sint a smod sint (b :: 'a::len word)"
proof -
  let ?m = "\<bar>sint a\<bar> mod \<bar>sint b\<bar>"
  have "0 \<le> ?m" "?m \<le> \<bar>sint a\<bar>"
    by (cases "sint b = 0", simp_all add: zmod_le_nonneg_dividend)+
  then have "\<bar>sint a smod sint b\<bar> \<le> \<bar>sint a\<bar>" "0 \<le> sint a \<Longrightarrow> 0 \<le> sint a smod sint b"
    "sint a < 0 \<Longrightarrow> sint a smod sint b \<le> 0"
    by (auto simp: signed_modulo_int_def abs_mult sgn_if)
  moreover have "(0 :: int) < 2 ^ (LENGTH('a) - 1)" by simp
  ultimately show ?thesis
    unfolding rust_srem_def using sint_range [of a] by (intro sint_word_of_int_range) linarith+
qed

lemma sint_rust_sdiv:
  fixes a b :: "'a::len word"
  assumes "b \<noteq> 0" "\<not> (b = - 1 \<and> a = 2 ^ (LENGTH('a) - 1))"
  shows "sint (rust_sdiv a b) = sint a sdiv sint b"
proof -
  let ?q = "\<bar>sint a\<bar> div \<bar>sint b\<bar>"
  have b0: "sint b \<noteq> 0" using assms(1) by (metis signed_0 signed_word_eqI)
  have q: "0 \<le> ?q" "?q \<le> \<bar>sint a\<bar>"
    using b0 zdiv_mono2 [of "\<bar>sint a\<bar>" 1 "\<bar>sint b\<bar>"] by (simp_all add: pos_imp_zdiv_nonneg_iff)
  have e: "sint a sdiv sint b = sgn (sint a) * sgn (sint b) * ?q" by (simp add: signed_divide_int_def)
  have "sint a sdiv sint b < 2 ^ (LENGTH('a) - 1)"
  proof (rule ccontr)
    assume n: "\<not> ?thesis"
    have "sint a sdiv sint b \<le> ?q" using q by (auto simp: e sgn_if)
    with n q sint_range [of a] have am: "sint a = - (2 ^ (LENGTH('a) - 1))" "?q = \<bar>sint a\<bar>"
      by linarith+
    have "\<bar>sint b\<bar> = 1"
    proof (rule ccontr)
      assume "\<bar>sint b\<bar> \<noteq> 1"
      then have "1 < \<bar>sint b\<bar>" using b0 by linarith
      then have "?q < \<bar>sint a\<bar>" using am(1) by (intro int_div_less_self) auto
      with am(2) show False by simp
    qed
    then consider "sint b = 1" | "sint b = - 1" by linarith
    then show False
    proof cases
      case 1
      then show False using n am by simp
    next
      case 2
      then have "b = - 1" by (metis signed_minus_1 signed_word_eqI)
      with assms(2) am(1) sint_min_word [of a] show False by simp
    qed
  qed
  moreover have "- (2 ^ (LENGTH('a) - 1)) \<le> sint a sdiv sint b"
    using q sint_range [of a] by (auto simp: e sgn_if)
  ultimately show ?thesis unfolding rust_sdiv_def by (intro sint_word_of_int_range)
qed

lemma uint_ucast_wide: "LENGTH('a) \<le> LENGTH('b) \<Longrightarrow> uint (ucast (a :: 'a::len word) :: 'b::len word) = uint a"
  using unat_ucast_up [of a, where ?'b = 'b] by (simp only: uint_nat)

lemma high_low_unsigned:
  fixes a b :: u64
  shows "uint (ucast (drop_bit 64 (ucast a * ucast b :: 128 word)) :: u64) * 2 ^ 64 + uint (a * b)
    = uint a * uint b"
proof -
  let ?p = "uint a * uint b"
  have "?p < 2 ^ 64 * 2 ^ 64"
    using uint_lt2p [of a] uint_lt2p [of b] by (intro mult_strict_mono) auto
  then have p: "0 \<le> ?p" "?p < 2 ^ 128" by simp_all
  have "uint (ucast a * ucast b :: 128 word) = ?p"
    using p by (simp add: uint_word_ariths uint_ucast_wide)
  then have "uint (drop_bit 64 (ucast a * ucast b :: 128 word)) = ?p div 2 ^ 64"
    unfolding unsigned_drop_bit_eq using p by (simp add: take_bit_eq_mod drop_bit_eq_div)
  moreover have "0 \<le> ?p div 2 ^ 64" using p(1) by (simp only: pos_imp_zdiv_nonneg_iff zero_less_power zero_less_numeral)
  moreover have "?p div 2 ^ 64 < 2 ^ 64" using p(2) by simp
  ultimately have "uint (ucast (drop_bit 64 (ucast a * ucast b :: 128 word)) :: u64) = ?p div 2 ^ 64"
    using take_bit_int_eq_self [of "?p div 2 ^ 64" 64] unfolding unsigned_ucast_eq by simp
  then show ?thesis by (simp add: uint_word_ariths)
qed

lemma high_word_signed:
  fixes w :: "128 word"
  shows "sint (ucast (signed_drop_bit 64 w) :: u64) = sint w div 2 ^ 64"
    "(ucast (drop_bit 64 w) :: u64) = ucast (signed_drop_bit 64 w)"
proof -
  have "(ucast (signed_drop_bit 64 w) :: u64) = word_of_int (drop_bit 64 (sint w))"
    by (rule word_bits_eqI)
      (simp add: bit_ucast_iff bit_signed_drop_bit_iff bit_word_of_int_iff bit_sint_iff bit_drop_bit_eq)
  then have "(ucast (signed_drop_bit 64 w) :: u64) = word_of_int (sint w div 2 ^ 64)"
    by (simp only: drop_bit_eq_div)
  moreover have "- (2 ^ 63) \<le> sint w div 2 ^ 64" "sint w div 2 ^ 64 < 2 ^ 63"
    using sint_range [of w] by simp_all
  ultimately show "sint (ucast (signed_drop_bit 64 w) :: u64) = sint w div 2 ^ 64"
    by (simp add: sint_word_of_int_range)
  show "(ucast (drop_bit 64 w) :: u64) = ucast (signed_drop_bit 64 w)"
    by (rule word_bits_eqI) (auto simp: bit_ucast_iff bit_signed_drop_bit_iff bit_drop_bit_eq)
qed

lemma high_low_signed:
  fixes a b :: u64
  assumes "(w :: 128 word) = word_of_int p" "- (2 ^ 127) \<le> p" "p < 2 ^ 127" "a * b = word_of_int p"
  shows "sint (ucast (signed_drop_bit 64 w) :: u64) * 2 ^ 64 + uint (a * b) = p"
proof -
  have "sint w = p" using assms(1-3) by (simp add: sint_word_of_int_range)
  then show ?thesis
    unfolding high_word_signed(1) assms(4) by (simp add: uint_word_of_int)
qed

lemma product_bounds:
  fixes a b :: u64
  shows "- (2 ^ 127) \<le> sint a * sint b" "sint a * sint b < 2 ^ 127"
    "- (2 ^ 127) \<le> sint a * uint b" "sint a * uint b < 2 ^ 127"
proof -
  have a: "- (2 ^ 63) \<le> sint a" "sint a < 2 ^ 63" and b: "- (2 ^ 63) \<le> sint b" "sint b < 2 ^ 63"
    using sint_range [of a] sint_range [of b] by simp_all
  have u: "0 \<le> uint b" "uint b < 2 ^ 64" using uint_lt2p [of b] by simp_all
  have "\<bar>sint a\<bar> * \<bar>sint b\<bar> \<le> 2 ^ 63 * 2 ^ 63" using a b by (intro mult_mono) linarith+
  then have "\<bar>sint a * sint b\<bar> \<le> 2 ^ 126" by (simp add: abs_mult)
  then show "- (2 ^ 127) \<le> sint a * sint b" "sint a * sint b < 2 ^ 127" by (simp_all add: abs_le_iff)
  have "\<bar>sint a\<bar> * uint b \<le> 2 ^ 63 * (2 ^ 64 - 1)" using a u by (intro mult_mono) linarith+
  then have "\<bar>sint a * uint b\<bar> \<le> 2 ^ 63 * (2 ^ 64 - 1)" using u by (simp add: abs_mult)
  then show "- (2 ^ 127) \<le> sint a * uint b" "sint a * uint b < 2 ^ 127" by (simp_all add: abs_le_iff)
qed

lemma scast_wide_mult:
  "(scast (a :: u64) * scast (b :: u64) :: 128 word) = word_of_int (sint a * sint b)"
  "(scast a * ucast b :: 128 word) = word_of_int (sint a * uint b)"
  "a * b = word_of_int (sint a * sint b)"
  "a * b = word_of_int (sint a * uint b)"
  unfolding wi_hom_mult [symmetric] by simp_all

lemma mul_high_low:
  assumes "rd \<noteq> X0"
  shows
    "uint (xr_read (run_mulhu rs1 rs2 rd x) rd) * 2 ^ 64 + uint (xr_read (run_mul rs1 rs2 rd x) rd)
     = uint (xr_read x rs1) * uint (xr_read x rs2)"
    "sint (xr_read (run_mulh rs1 rs2 rd x) rd) * 2 ^ 64 + uint (xr_read (run_mul rs1 rs2 rd x) rd)
     = sint (xr_read x rs1) * sint (xr_read x rs2)"
    "sint (xr_read (run_mulhsu rs1 rs2 rd x) rd) * 2 ^ 64 + uint (xr_read (run_mul rs1 rs2 rd x) rd)
     = sint (xr_read x rs1) * uint (xr_read x rs2)"
  unfolding run_mulhu_def run_mulh_def run_mulhsu_def run_mul_def Let_def
    xr_read_write_same [OF assms] high_word_signed(2)
  by (rule high_low_unsigned [unfolded high_word_signed(2)]
      high_low_signed [OF scast_wide_mult(1) product_bounds(1,2) scast_wide_mult(3)]
      high_low_signed [OF scast_wide_mult(2) product_bounds(3,4) scast_wide_mult(4)])+

end
