(* ===== verification/Interp_A.thy ===== *)
theory Interp_A
  imports Interp_I
begin

text \<open>
  The atomic instructions: interpreter/atomics.rs, interpreter/rv32a.rs and interpreter/rv64a.rs.
  The functions passed as \<^verbatim>\<open>from\<close> and \<^verbatim>\<open>to\<close> are the casts of the source; \<^verbatim>\<open>rl\<close> and
  \<^verbatim>\<open>aq\<close> are accepted and ignored, as there is a single hart.
\<close>

section \<open>Generic operations\<close>

definition SC_SUCCESS :: u64 where
  "SC_SUCCESS = 0"

definition SC_FAILURE :: u64 where
  "SC_FAILURE = 1"

text \<open>Access to \<^verbatim>\<open>self.hart.reservation_set\<close>.\<close>

definition core_set_reservation :: "ReservationSet \<Rightarrow> MachineCoreState \<Rightarrow> MachineCoreState" where
  "core_set_reservation r s = s\<lparr>core_hart := (core_hart s)\<lparr>hart_reservation := r\<rparr>\<rparr>"

definition run_lr :: "XRegister \<Rightarrow> XRegister \<Rightarrow> ('a::len word \<Rightarrow> u64) \<Rightarrow> (MachineCoreState, unit) exec" where
  "run_lr rs1 rd from s =
     (let address_rs1 = xr_read (core_xregs s) rs1 in
      if address_rs1 mod of_nat (elem_size TYPE('a word)) \<noteq> 0
      then (Inl (LoadAccessFault address_rs1), s)
      else and_then (read_from_address address_rs1) (\<lambda>value_rs1 s.
             let s = core_set_reservation
                       (reservation_set address_rs1 (hart_reservation (core_hart s))) s;
                 s = core_write_x rd (from value_rs1) s
             in (Inr (), s)) s)"

definition run_sc ::
  "XRegister \<Rightarrow> XRegister \<Rightarrow> XRegister \<Rightarrow> (u64 \<Rightarrow> 'a::len word) \<Rightarrow> (MachineCoreState, unit) exec" where
  "run_sc rs1 rs2 rd to s =
     (let address_rs1 = xr_read (core_xregs s) rs1 in
      if address_rs1 mod of_nat (elem_size TYPE('a word)) \<noteq> 0
      then (Inl (StoreAMOAccessFault address_rs1),
            core_set_reservation (reservation_reset (hart_reservation (core_hart s))) s)
      else
        (let (reserved, r) = test_and_unset address_rs1 (hart_reservation (core_hart s));
             s = core_set_reservation r s in
         if reserved then
           (let value_rs2 = to (xr_read (core_xregs s) rs2);
                s = core_write_x rd SC_SUCCESS s
            in write_to_address address_rs1 value_rs2 s)
         else (Inr (), core_write_x rd SC_FAILURE s)))"

definition run_amo ::
  "XRegister \<Rightarrow> XRegister \<Rightarrow> XRegister \<Rightarrow> ('a::len word \<Rightarrow> 'a word \<Rightarrow> 'a word) \<Rightarrow> (u64 \<Rightarrow> 'a word)
     \<Rightarrow> ('a word \<Rightarrow> u64) \<Rightarrow> (MachineCoreState, unit) exec" where
  "run_amo rs1 rs2 rd f to from s =
     (let address_rs1 = xr_read (core_xregs s) rs1 in
      if address_rs1 mod of_nat (elem_size TYPE('a word)) \<noteq> 0
      then (Inl (StoreAMOAccessFault address_rs1), s)
      else and_then (read_from_address address_rs1) (\<lambda>value_rs1 s.
             let value_rs2 = to (xr_read (core_xregs s) rs2);
                 value = f value_rs1 value_rs2;
                 s = core_write_x rd (from value_rs1) s
             in write_to_address address_rs1 value s) s)"

definition run_amo_w ::
  "XRegister \<Rightarrow> XRegister \<Rightarrow> XRegister \<Rightarrow> (i32 \<Rightarrow> i32 \<Rightarrow> i32) \<Rightarrow> (MachineCoreState, unit) exec" where
  "run_amo_w rs1 rs2 rd f = run_amo rs1 rs2 rd f (\<lambda>x. ucast x) (\<lambda>x. scast x)"

definition run_amo_d ::
  "XRegister \<Rightarrow> XRegister \<Rightarrow> XRegister \<Rightarrow> (u64 \<Rightarrow> u64 \<Rightarrow> u64) \<Rightarrow> (MachineCoreState, unit) exec" where
  "run_amo_d rs1 rs2 rd f = run_amo rs1 rs2 rd f (\<lambda>x. x) (\<lambda>x. x)"

text \<open>\<^verbatim>\<open>min\<close> and \<^verbatim>\<open>max\<close> of the signed integer types.\<close>

definition smin :: "'a::len word \<Rightarrow> 'a word \<Rightarrow> 'a word" where
  "smin a b = (if a \<le>s b then a else b)"

definition smax :: "'a::len word \<Rightarrow> 'a word \<Rightarrow> 'a word" where
  "smax a b = (if a \<le>s b then b else a)"

section \<open>RV32A\<close>

definition run_lrw :: "XRegister \<Rightarrow> XRegister \<Rightarrow> XRegister \<Rightarrow> bool \<Rightarrow> bool \<Rightarrow> (MachineCoreState, unit) exec" where
  "run_lrw rs1 rs2 rd rl aq = run_lr rs1 rd (\<lambda>x :: i32. scast x)"

definition run_scw :: "XRegister \<Rightarrow> XRegister \<Rightarrow> XRegister \<Rightarrow> bool \<Rightarrow> bool \<Rightarrow> (MachineCoreState, unit) exec" where
  "run_scw rs1 rs2 rd rl aq = run_sc rs1 rs2 rd (\<lambda>x. ucast x :: i32)"

definition run_amoswapw :: "XRegister \<Rightarrow> XRegister \<Rightarrow> XRegister \<Rightarrow> bool \<Rightarrow> bool \<Rightarrow> (MachineCoreState, unit) exec" where
  "run_amoswapw rs1 rs2 rd rl aq = run_amo_w rs1 rs2 rd (\<lambda>_ value_rs2. value_rs2)"

definition run_amoaddw :: "XRegister \<Rightarrow> XRegister \<Rightarrow> XRegister \<Rightarrow> bool \<Rightarrow> bool \<Rightarrow> (MachineCoreState, unit) exec" where
  "run_amoaddw rs1 rs2 rd rl aq = run_amo_w rs1 rs2 rd (+)"

definition run_amoxorw :: "XRegister \<Rightarrow> XRegister \<Rightarrow> XRegister \<Rightarrow> bool \<Rightarrow> bool \<Rightarrow> (MachineCoreState, unit) exec" where
  "run_amoxorw rs1 rs2 rd rl aq = run_amo_w rs1 rs2 rd (XOR)"

definition run_amoandw :: "XRegister \<Rightarrow> XRegister \<Rightarrow> XRegister \<Rightarrow> bool \<Rightarrow> bool \<Rightarrow> (MachineCoreState, unit) exec" where
  "run_amoandw rs1 rs2 rd rl aq = run_amo_w rs1 rs2 rd (AND)"

definition run_amoorw :: "XRegister \<Rightarrow> XRegister \<Rightarrow> XRegister \<Rightarrow> bool \<Rightarrow> bool \<Rightarrow> (MachineCoreState, unit) exec" where
  "run_amoorw rs1 rs2 rd rl aq = run_amo_w rs1 rs2 rd (OR)"

definition run_amominw :: "XRegister \<Rightarrow> XRegister \<Rightarrow> XRegister \<Rightarrow> bool \<Rightarrow> bool \<Rightarrow> (MachineCoreState, unit) exec" where
  "run_amominw rs1 rs2 rd rl aq = run_amo_w rs1 rs2 rd smin"

definition run_amomaxw :: "XRegister \<Rightarrow> XRegister \<Rightarrow> XRegister \<Rightarrow> bool \<Rightarrow> bool \<Rightarrow> (MachineCoreState, unit) exec" where
  "run_amomaxw rs1 rs2 rd rl aq = run_amo_w rs1 rs2 rd smax"

definition run_amominuw :: "XRegister \<Rightarrow> XRegister \<Rightarrow> XRegister \<Rightarrow> bool \<Rightarrow> bool \<Rightarrow> (MachineCoreState, unit) exec" where
  "run_amominuw rs1 rs2 rd rl aq = run_amo_w rs1 rs2 rd min"

definition run_amomaxuw :: "XRegister \<Rightarrow> XRegister \<Rightarrow> XRegister \<Rightarrow> bool \<Rightarrow> bool \<Rightarrow> (MachineCoreState, unit) exec" where
  "run_amomaxuw rs1 rs2 rd rl aq = run_amo_w rs1 rs2 rd max"

section \<open>RV64A\<close>

definition run_lrd :: "XRegister \<Rightarrow> XRegister \<Rightarrow> XRegister \<Rightarrow> bool \<Rightarrow> bool \<Rightarrow> (MachineCoreState, unit) exec" where
  "run_lrd rs1 rs2 rd rl aq = run_lr rs1 rd (\<lambda>x :: u64. x)"

definition run_scd :: "XRegister \<Rightarrow> XRegister \<Rightarrow> XRegister \<Rightarrow> bool \<Rightarrow> bool \<Rightarrow> (MachineCoreState, unit) exec" where
  "run_scd rs1 rs2 rd rl aq = run_sc rs1 rs2 rd (\<lambda>x. x :: u64)"

definition run_amoswapd :: "XRegister \<Rightarrow> XRegister \<Rightarrow> XRegister \<Rightarrow> bool \<Rightarrow> bool \<Rightarrow> (MachineCoreState, unit) exec" where
  "run_amoswapd rs1 rs2 rd rl aq = run_amo_d rs1 rs2 rd (\<lambda>_ value_rs2. value_rs2)"

definition run_amoaddd :: "XRegister \<Rightarrow> XRegister \<Rightarrow> XRegister \<Rightarrow> bool \<Rightarrow> bool \<Rightarrow> (MachineCoreState, unit) exec" where
  "run_amoaddd rs1 rs2 rd rl aq = run_amo_d rs1 rs2 rd (+)"

definition run_amoxord :: "XRegister \<Rightarrow> XRegister \<Rightarrow> XRegister \<Rightarrow> bool \<Rightarrow> bool \<Rightarrow> (MachineCoreState, unit) exec" where
  "run_amoxord rs1 rs2 rd rl aq = run_amo_d rs1 rs2 rd (XOR)"

definition run_amoandd :: "XRegister \<Rightarrow> XRegister \<Rightarrow> XRegister \<Rightarrow> bool \<Rightarrow> bool \<Rightarrow> (MachineCoreState, unit) exec" where
  "run_amoandd rs1 rs2 rd rl aq = run_amo_d rs1 rs2 rd (AND)"

definition run_amoord :: "XRegister \<Rightarrow> XRegister \<Rightarrow> XRegister \<Rightarrow> bool \<Rightarrow> bool \<Rightarrow> (MachineCoreState, unit) exec" where
  "run_amoord rs1 rs2 rd rl aq = run_amo_d rs1 rs2 rd (OR)"

definition run_amomind :: "XRegister \<Rightarrow> XRegister \<Rightarrow> XRegister \<Rightarrow> bool \<Rightarrow> bool \<Rightarrow> (MachineCoreState, unit) exec" where
  "run_amomind rs1 rs2 rd rl aq = run_amo_d rs1 rs2 rd smin"

definition run_amomaxd :: "XRegister \<Rightarrow> XRegister \<Rightarrow> XRegister \<Rightarrow> bool \<Rightarrow> bool \<Rightarrow> (MachineCoreState, unit) exec" where
  "run_amomaxd rs1 rs2 rd rl aq = run_amo_d rs1 rs2 rd smax"

definition run_amominud :: "XRegister \<Rightarrow> XRegister \<Rightarrow> XRegister \<Rightarrow> bool \<Rightarrow> bool \<Rightarrow> (MachineCoreState, unit) exec" where
  "run_amominud rs1 rs2 rd rl aq = run_amo_d rs1 rs2 rd min"

definition run_amomaxud :: "XRegister \<Rightarrow> XRegister \<Rightarrow> XRegister \<Rightarrow> bool \<Rightarrow> bool \<Rightarrow> (MachineCoreState, unit) exec" where
  "run_amomaxud rs1 rs2 rd rl aq = run_amo_d rs1 rs2 rd max"

section \<open>Reservations\<close>

lemma core_set_reservation_simps [simp]:
  "core_bus (core_set_reservation r s) = core_bus s"
  "core_tcache (core_set_reservation r s) = core_tcache s"
  "core_xregs (core_set_reservation r s) = core_xregs s"
  "hart_csrs (core_hart (core_set_reservation r s)) = hart_csrs (core_hart s)"
  "hart_mode (core_hart (core_set_reservation r s)) = hart_mode (core_hart s)"
  "hart_pc (core_hart (core_set_reservation r s)) = hart_pc (core_hart s)"
  "hart_reservation (core_hart (core_set_reservation r s)) = r"
  by (simp_all add: core_set_reservation_def)

lemma flat_reservation [simp]: "flat (core_set_reservation r s) \<longleftrightarrow> flat s"
  by (rule flat_cong) simp_all

text \<open>Every store-conditional gives the reservation up, whatever its outcome.\<close>

lemma run_sc_clears: "hart_reservation (core_hart (snd (run_sc rs1 rs2 rd to s))) = UNSET_VALUE"
proof -
  let ?a = "xr_read (core_xregs s) rs1"
  obtain b r where t: "test_and_unset ?a (hart_reservation (core_hart s)) = (b, r)"
    by (cases "test_and_unset ?a (hart_reservation (core_hart s))")
  have r: "r = UNSET_VALUE"
    using t test_and_unset_clears [of ?a "hart_reservation (core_hart s)"] by simp
  have w: "hart_reservation (core_hart (snd (write_to_address a v s'))) = hart_reservation (core_hart s')"
    for a s' and v :: "'a word"
    using write_to_address_frame [of a v s'] by (metis surjective_pairing)
  show ?thesis
    by (simp add: run_sc_def Let_def t r w reservation_reset_def)
qed

lemma run_sc_unreserved:
  assumes "hart_reservation (core_hart s) = UNSET_VALUE"
  shows "core_bus (snd (run_sc rs1 rs2 rd to s)) = core_bus s"
    "fst (run_sc rs1 rs2 rd (to :: u64 \<Rightarrow> 'a::len word) s) = Inr () \<Longrightarrow> rd \<noteq> X0 \<Longrightarrow>
     xr_read (core_xregs (snd (run_sc rs1 rs2 rd to s))) rd = SC_FAILURE"
  using assms
  by (auto simp: run_sc_def Let_def test_and_unset_def split: if_splits)

section \<open>Load-reserved and store-conditional on flat memory\<close>

lemma run_lr_flat:
  fixes v :: "'a::len word"
  assumes "flat s" "xr_read (core_xregs s) rs1 = a" "a mod of_nat (elem_size TYPE('a word)) = 0"
    "bus_read (core_bus s) a = Inr v"
  shows "\<exists>s'. run_lr rs1 rd from s = (Inr (), s') \<and> flat s' \<and> core_bus s' = core_bus s
    \<and> core_xregs s' = xr_write (core_xregs s) rd (from v)
    \<and> hart_reservation (core_hart s') = align_address a RESERVATION_SIZE"
proof -
  obtain s1 where "read_from_address a s = (Inr v, s1)" "flat s1" "core_hart s1 = core_hart s"
    "core_bus s1 = core_bus s"
    using flat_read [OF assms(1), of a, where ?'a = 'a] assms(4) by auto
  then show ?thesis
    by (simp add: run_lr_def Let_def assms(2,3) reservation_set_def)
qed

lemma run_sc_flat:
  fixes to :: "u64 \<Rightarrow> 'a::len word"
  assumes "flat s" "xr_read (core_xregs s) rs1 = a" "a mod of_nat (elem_size TYPE('a word)) = 0"
    "hart_reservation (core_hart s) = align_address a RESERVATION_SIZE"
    "align_address a RESERVATION_SIZE \<noteq> UNSET_VALUE"
    "bus_write (core_bus s) a (to (xr_read (core_xregs s) rs2)) = Inr b"
  shows "\<exists>s'. run_sc rs1 rs2 rd to s = (Inr (), s') \<and> flat s' \<and> core_bus s' = b
    \<and> core_xregs s' = xr_write (core_xregs s) rd SC_SUCCESS"
proof -
  let ?s = "core_write_x rd SC_SUCCESS (core_set_reservation UNSET_VALUE s)"
  have "\<exists>s'. write_to_address a (to (xr_read (core_xregs s) rs2)) ?s = (Inr (), s')
    \<and> flat s' \<and> core_hart s' = core_hart ?s \<and> core_bus s' = b"
    by (rule flat_write) (simp_all add: assms(1,6))
  then show ?thesis
    by (auto simp: run_sc_def Let_def assms(2-5) test_and_unset_def reservation_reset_def)
qed

section \<open>Atomic memory operations on flat memory\<close>

lemma run_amo_flat:
  fixes v :: "'a::len word"
  assumes "flat s" "xr_read (core_xregs s) rs1 = a" "a mod of_nat (elem_size TYPE('a word)) = 0"
    "bus_read (core_bus s) a = Inr v"
    "bus_write (core_bus s) a (f v (to (xr_read (core_xregs s) rs2))) = Inr b"
  shows "\<exists>s'. run_amo rs1 rs2 rd f to from s = (Inr (), s') \<and> flat s' \<and> core_bus s' = b
    \<and> core_xregs s' = xr_write (core_xregs s) rd (from v)"
proof -
  obtain s1 where s1: "read_from_address a s = (Inr v, s1)" "flat s1" "core_hart s1 = core_hart s"
    "core_bus s1 = core_bus s"
    using flat_read [OF assms(1), of a, where ?'a = 'a] assms(4) by auto
  let ?s = "core_write_x rd (from v) s1"
  have "\<exists>s'. write_to_address a (f v (to (xr_read (core_xregs s) rs2))) ?s = (Inr (), s')
    \<and> flat s' \<and> core_hart s' = core_hart ?s \<and> core_bus s' = b"
    by (rule flat_write) (simp_all add: s1 assms(5))
  then show ?thesis
    by (auto simp: run_amo_def Let_def assms(2,3) s1)
qed

lemma run_amo_misaligned:
  fixes f :: "'a::len word \<Rightarrow> 'a word \<Rightarrow> 'a word"
  assumes "xr_read (core_xregs s) rs1 mod of_nat (elem_size TYPE('a word)) \<noteq> 0"
  shows "run_amo rs1 rs2 rd f to from s = (Inl (StoreAMOAccessFault (xr_read (core_xregs s) rs1)), s)"
  using assms by (simp add: run_amo_def Let_def)

lemma run_amo_unmapped:
  fixes f :: "'a::len word \<Rightarrow> 'a word \<Rightarrow> 'a word"
  assumes "flat s" "xr_read (core_xregs s) rs1 = a" "a mod of_nat (elem_size TYPE('a word)) = 0"
    and "(bus_read (core_bus s) a :: (OutOfBounds, 'a word) result) = Inl e"
  shows "\<exists>s'. run_amo rs1 rs2 rd f to from s = (Inl (LoadAccessFault a), s')
    \<and> core_hart s' = core_hart s \<and> core_bus s' = core_bus s"
  using flat_read [OF assms(1), of a, where ?'a = 'a] assms(2-4) by (auto simp: run_amo_def Let_def)

end
