(* ===== verification/Interp_C.thy ===== *)
theory Interp_C
  imports Interp_I
begin

text \<open>
  The compressed integer instructions: interpreter/rv32c.rs and interpreter/rv64c.rs.  The
  \<^verbatim>\<open>debug_assert!\<close> conditions of the source are collected by \<^verbatim>\<open>c32_asserts\<close> and
  \<^verbatim>\<open>c64_asserts\<close>.
\<close>

section \<open>RV32C\<close>

definition run_cj :: "i64 \<Rightarrow> HartState \<Rightarrow> Address \<times> HartState" where
  "run_cj imm = run_jal imm X0"

definition run_cjr :: "XRegister \<Rightarrow> HartState \<Rightarrow> Address \<times> HartState" where
  "run_cjr rs1 = run_jalr_impl 2 0 rs1 X0"

definition run_cjalr :: "XRegister \<Rightarrow> HartState \<Rightarrow> Address \<times> HartState" where
  "run_cjalr rs1 = run_jalr_impl 2 0 rs1 X1"

definition run_cbeqz :: "i64 \<Rightarrow> XRegister \<Rightarrow> HartState \<Rightarrow> Address" where
  "run_cbeqz imm rs1 = run_beq_impl 2 imm rs1 X0"

definition run_cbnez :: "i64 \<Rightarrow> XRegister \<Rightarrow> HartState \<Rightarrow> Address" where
  "run_cbnez imm rs1 = run_bne_impl 2 imm rs1 X0"

definition run_cebreak :: "HartState \<Rightarrow> Exception" where
  "run_cebreak h = Breakpoint"

definition run_caddi :: "i64 \<Rightarrow> XRegister \<Rightarrow> XRegisters \<Rightarrow> XRegisters" where
  "run_caddi imm rd_rs1 = run_addi imm rd_rs1 rd_rs1"

definition run_caddi16sp :: "i64 \<Rightarrow> XRegisters \<Rightarrow> XRegisters" where
  "run_caddi16sp imm = run_addi imm reg_sp reg_sp"

definition run_caddi4spn :: "i64 \<Rightarrow> XRegister \<Rightarrow> XRegisters \<Rightarrow> XRegisters" where
  "run_caddi4spn imm rd = run_addi imm reg_sp rd"

definition run_cslli :: "i64 \<Rightarrow> XRegister \<Rightarrow> XRegisters \<Rightarrow> XRegisters" where
  "run_cslli imm rd_rs1 = run_slli imm rd_rs1 rd_rs1"

definition run_csrli :: "i64 \<Rightarrow> XRegister \<Rightarrow> XRegisters \<Rightarrow> XRegisters" where
  "run_csrli imm rd_rs1 = run_srli imm rd_rs1 rd_rs1"

definition run_csrai :: "i64 \<Rightarrow> XRegister \<Rightarrow> XRegisters \<Rightarrow> XRegisters" where
  "run_csrai imm rd_rs1 = run_srai imm rd_rs1 rd_rs1"

definition run_candi :: "i64 \<Rightarrow> XRegister \<Rightarrow> XRegisters \<Rightarrow> XRegisters" where
  "run_candi imm rd_rs1 = run_andi imm rd_rs1 rd_rs1"

definition run_cmv :: "XRegister \<Rightarrow> XRegister \<Rightarrow> XRegisters \<Rightarrow> XRegisters" where
  "run_cmv rd_rs1 rs2 = run_add rs2 X0 rd_rs1"

definition run_cadd :: "XRegister \<Rightarrow> XRegister \<Rightarrow> XRegisters \<Rightarrow> XRegisters" where
  "run_cadd rd_rs1 rs2 = run_add rd_rs1 rs2 rd_rs1"

definition run_cand :: "XRegister \<Rightarrow> XRegister \<Rightarrow> XRegisters \<Rightarrow> XRegisters" where
  "run_cand rd_rs1 rs2 = run_and rd_rs1 rs2 rd_rs1"

definition run_cxor :: "XRegister \<Rightarrow> XRegister \<Rightarrow> XRegisters \<Rightarrow> XRegisters" where
  "run_cxor rd_rs1 rs2 = run_xor rd_rs1 rs2 rd_rs1"

definition run_cor :: "XRegister \<Rightarrow> XRegister \<Rightarrow> XRegisters \<Rightarrow> XRegisters" where
  "run_cor rd_rs1 rs2 = run_or rd_rs1 rs2 rd_rs1"

definition run_csub :: "XRegister \<Rightarrow> XRegister \<Rightarrow> XRegisters \<Rightarrow> XRegisters" where
  "run_csub rd_rs1 rs2 = run_sub rd_rs1 rs2 rd_rs1"

definition run_cli :: "i64 \<Rightarrow> XRegister \<Rightarrow> XRegisters \<Rightarrow> XRegisters" where
  "run_cli imm rd_rs1 = run_addi imm X0 rd_rs1"

definition run_clui :: "i64 \<Rightarrow> XRegister \<Rightarrow> XRegisters \<Rightarrow> XRegisters" where
  "run_clui imm rd_rs1 = run_lui imm rd_rs1"

definition run_clw :: "i64 \<Rightarrow> XRegister \<Rightarrow> XRegister \<Rightarrow> (MachineCoreState, unit) exec" where
  "run_clw imm rs1 rd = run_lw imm rs1 rd"

definition run_clwsp :: "i64 \<Rightarrow> XRegister \<Rightarrow> (MachineCoreState, unit) exec" where
  "run_clwsp imm rd_rs1 = run_lw imm reg_sp rd_rs1"

definition run_csw :: "i64 \<Rightarrow> XRegister \<Rightarrow> XRegister \<Rightarrow> (MachineCoreState, unit) exec" where
  "run_csw imm rs1 rs2 = run_sw imm rs1 rs2"

definition run_cswsp :: "i64 \<Rightarrow> XRegister \<Rightarrow> (MachineCoreState, unit) exec" where
  "run_cswsp imm rs2 = run_sw imm reg_sp rs2"

definition run_cnop :: "MachineCoreState \<Rightarrow> MachineCoreState" where
  "run_cnop s = s"

section \<open>RV64C\<close>

definition run_caddiw :: "i64 \<Rightarrow> XRegister \<Rightarrow> XRegisters \<Rightarrow> XRegisters" where
  "run_caddiw imm rd_rs1 = run_addiw imm rd_rs1 rd_rs1"

definition run_caddw :: "XRegister \<Rightarrow> XRegister \<Rightarrow> XRegisters \<Rightarrow> XRegisters" where
  "run_caddw rd_rs1 rs2 = run_addw rd_rs1 rs2 rd_rs1"

definition run_csubw :: "XRegister \<Rightarrow> XRegister \<Rightarrow> XRegisters \<Rightarrow> XRegisters" where
  "run_csubw rd_rs1 rs2 = run_subw rd_rs1 rs2 rd_rs1"

definition run_cld :: "i64 \<Rightarrow> XRegister \<Rightarrow> XRegister \<Rightarrow> (MachineCoreState, unit) exec" where
  "run_cld imm rs1 rd = run_ld imm rs1 rd"

definition run_cldsp :: "i64 \<Rightarrow> XRegister \<Rightarrow> (MachineCoreState, unit) exec" where
  "run_cldsp imm rd_rs1 = run_ld imm reg_sp rd_rs1"

definition run_csd :: "i64 \<Rightarrow> XRegister \<Rightarrow> XRegister \<Rightarrow> (MachineCoreState, unit) exec" where
  "run_csd imm rs1 rs2 = run_sd imm rs1 rs2"

definition run_csdsp :: "i64 \<Rightarrow> XRegister \<Rightarrow> (MachineCoreState, unit) exec" where
  "run_csdsp imm rs2 = run_sd imm reg_sp rs2"

section \<open>Debug assertions\<close>

definition uimm_scaled :: "int \<Rightarrow> i64 \<Rightarrow> bool" where
  "uimm_scaled n imm \<longleftrightarrow> 0 \<le> sint imm \<and> n dvd sint imm"

fun c32_asserts :: "InstrC32 \<Rightarrow> bool" where
  "c32_asserts (CJr a) \<longleftrightarrow> crj_rs1 a \<noteq> X0"
| "c32_asserts (CJalr a) \<longleftrightarrow> crj_rs1 a \<noteq> X0"
| "c32_asserts (CAddi a) \<longleftrightarrow> cib_rd_rs1 a \<noteq> X0"
| "c32_asserts (CAddi16sp a) \<longleftrightarrow> cj_imm a \<noteq> 0 \<and> 16 dvd sint (cj_imm a)"
| "c32_asserts (CAddi4spn a) \<longleftrightarrow> 0 < sint (cib_imm a) \<and> 4 dvd sint (cib_imm a)"
| "c32_asserts (CSlli a) \<longleftrightarrow> cib_rd_rs1 a \<noteq> X0"
| "c32_asserts (CMv a) \<longleftrightarrow> cr_rd_rs1 a \<noteq> X0 \<and> cr_rs2 a \<noteq> X0"
| "c32_asserts (CAdd a) \<longleftrightarrow> cr_rd_rs1 a \<noteq> X0 \<and> cr_rs2 a \<noteq> X0"
| "c32_asserts (CLi a) \<longleftrightarrow> cib_rd_rs1 a \<noteq> X0"
| "c32_asserts (CLui a) \<longleftrightarrow> cib_rd_rs1 a \<noteq> X0 \<and> cib_rd_rs1 a \<noteq> X2"
| "c32_asserts (CLw a) \<longleftrightarrow> uimm_scaled 4 (it_imm a)"
| "c32_asserts (CLwsp a) \<longleftrightarrow> uimm_scaled 4 (cib_imm a) \<and> cib_rd_rs1 a \<noteq> X0"
| "c32_asserts (CSw a) \<longleftrightarrow> uimm_scaled 4 (sb_imm a)"
| "c32_asserts (CSwsp a) \<longleftrightarrow> uimm_scaled 4 (css_imm a)"
| "c32_asserts _ \<longleftrightarrow> True"

fun c64_asserts :: "InstrC64 \<Rightarrow> bool" where
  "c64_asserts (CAddiw a) \<longleftrightarrow> cib_rd_rs1 a \<noteq> X0"
| "c64_asserts (CLd a) \<longleftrightarrow> uimm_scaled 8 (it_imm a)"
| "c64_asserts (CLdsp a) \<longleftrightarrow> uimm_scaled 8 (cib_imm a) \<and> cib_rd_rs1 a \<noteq> X0"
| "c64_asserts (CSd a) \<longleftrightarrow> uimm_scaled 8 (sb_imm a)"
| "c64_asserts (CSdsp a) \<longleftrightarrow> uimm_scaled 8 (css_imm a)"

end
