(* ===== verification/Zicsr_Priv.thy ===== *)
theory Zicsr_Priv
  imports Address_Translation
begin

text \<open>
  The CSR instructions (interpreter/rv64zicsr.rs) and the privileged instructions
  (interpreter/rv64priv.rs).  Writing a field of the unpacked \<^verbatim>\<open>mstatus\<close> is a record update; the CSR
  effect that such a write returns does nothing when it is handled (csregisters/effects.rs).
\<close>

section \<open>CSR instructions\<close>

definition hart_write_x :: "XRegister \<Rightarrow> XValue \<Rightarrow> HartState \<Rightarrow> HartState" where
  "hart_write_x rd v h = h\<lparr>hart_xregs := xr_write (hart_xregs h) rd v\<rparr>"

text \<open>\<^verbatim>\<open>csregisters::access_checks(csr, self)\<close>.\<close>

abbreviation hart_access_checks :: "CSRegister \<Rightarrow> HartState \<Rightarrow> (Exception, unit) result" where
  "hart_access_checks csr h \<equiv> access_checks csr (hart_mode h) (hart_csrs h)"

definition hart_csr_replace :: "CSRegister \<Rightarrow> XValue \<Rightarrow> XRegister \<Rightarrow> (HartState, unit) exec" where
  "hart_csr_replace csr value rd h =
     (case check_write csr of
        Inl e \<Rightarrow> (Inl e, h)
      | Inr _ \<Rightarrow>
        (case hart_access_checks csr h of
           Inl e \<Rightarrow> (Inl e, h)
         | Inr _ \<Rightarrow>
             if is_zero rd
             then (Inr (), h\<lparr>hart_csrs := csr_write (hart_csrs h) csr value\<rparr>)
             else let (old, csrs) = csr_replace (hart_csrs h) csr value
                  in (Inr (), hart_write_x rd old (h\<lparr>hart_csrs := csrs\<rparr>))))"

definition run_csrrw :: "CSRegister \<Rightarrow> XRegister \<Rightarrow> XRegister \<Rightarrow> (HartState, unit) exec" where
  "run_csrrw csr rs1 rd h =
     (let value = xr_read (hart_xregs h) rs1 in hart_csr_replace csr value rd h)"

definition run_csrrwi :: "CSRegister \<Rightarrow> XValue \<Rightarrow> XRegister \<Rightarrow> (HartState, unit) exec" where
  "run_csrrwi csr imm rd = hart_csr_replace csr (imm AND 31) rd"

definition run_csrrs :: "CSRegister \<Rightarrow> XRegister \<Rightarrow> XRegister \<Rightarrow> (HartState, unit) exec" where
  "run_csrrs csr rs1 rd h =
     (case hart_access_checks csr h of
        Inl e \<Rightarrow> (Inl e, h)
      | Inr _ \<Rightarrow>
          if is_zero rs1
          then (Inr (), hart_write_x rd (csr_read (hart_csrs h) csr) h)
          else (case check_write csr of
                  Inl e \<Rightarrow> (Inl e, h)
                | Inr _ \<Rightarrow>
                    let value = xr_read (hart_xregs h) rs1;
                        (old, csrs) = csr_set_bits (hart_csrs h) csr value
                    in (Inr (), hart_write_x rd old (h\<lparr>hart_csrs := csrs\<rparr>))))"

definition run_csrrsi :: "CSRegister \<Rightarrow> XValue \<Rightarrow> XRegister \<Rightarrow> (HartState, unit) exec" where
  "run_csrrsi csr imm rd h =
     (let imm = imm AND 31 in
      case hart_access_checks csr h of
        Inl e \<Rightarrow> (Inl e, h)
      | Inr _ \<Rightarrow>
          if imm = 0
          then (Inr (), hart_write_x rd (csr_read (hart_csrs h) csr) h)
          else (case check_write csr of
                  Inl e \<Rightarrow> (Inl e, h)
                | Inr _ \<Rightarrow>
                    let (old, csrs) = csr_set_bits (hart_csrs h) csr imm
                    in (Inr (), hart_write_x rd old (h\<lparr>hart_csrs := csrs\<rparr>))))"

definition run_csrrc :: "CSRegister \<Rightarrow> XRegister \<Rightarrow> XRegister \<Rightarrow> (HartState, unit) exec" where
  "run_csrrc csr rs1 rd h =
     (case hart_access_checks csr h of
        Inl e \<Rightarrow> (Inl e, h)
      | Inr _ \<Rightarrow>
          if is_zero rs1
          then (Inr (), hart_write_x rd (csr_read (hart_csrs h) csr) h)
          else (case check_write csr of
                  Inl e \<Rightarrow> (Inl e, h)
                | Inr _ \<Rightarrow>
                    let value = xr_read (hart_xregs h) rs1;
                        (old, csrs) = csr_clear_bits (hart_csrs h) csr value
                    in (Inr (), hart_write_x rd old (h\<lparr>hart_csrs := csrs\<rparr>))))"

definition run_csrrci :: "CSRegister \<Rightarrow> XValue \<Rightarrow> XRegister \<Rightarrow> (HartState, unit) exec" where
  "run_csrrci csr imm rd h =
     (let imm = imm AND 31 in
      case hart_access_checks csr h of
        Inl e \<Rightarrow> (Inl e, h)
      | Inr _ \<Rightarrow>
          if imm = 0
          then (Inr (), hart_write_x rd (csr_read (hart_csrs h) csr) h)
          else (case check_write csr of
                  Inl e \<Rightarrow> (Inl e, h)
                | Inr _ \<Rightarrow>
                    let (old, csrs) = csr_clear_bits (hart_csrs h) csr imm
                    in (Inr (), hart_write_x rd old (h\<lparr>hart_csrs := csrs\<rparr>))))"

section \<open>Return from traps\<close>

text \<open>Update of the unpacked \<^verbatim>\<open>mstatus\<close> of a hart.\<close>

definition upd_mstatus :: "(MStatusValue \<Rightarrow> MStatusValue) \<Rightarrow> CSRegisters \<Rightarrow> CSRegisters" where
  "upd_mstatus f csrs = csrs\<lparr>csr_mstatus := f (csr_mstatus csrs)\<rparr>"

definition run_mret :: "(HartState, Address) exec" where
  "run_mret h =
     (case hart_mode h of
        User \<Rightarrow> (Inl IllegalInstruction, h)
      | Supervisor \<Rightarrow> (Inl IllegalInstruction, h)
      | Machine \<Rightarrow>
          (let csrs = hart_csrs h;
               prev_privilege = ms_mpp (csr_mstatus csrs);
               prev_mie = ms_mpie (csr_mstatus csrs);
               csrs = upd_mstatus (\<lambda>m. m\<lparr>ms_mie := prev_mie\<rparr>) csrs;
               csrs = upd_mstatus (\<lambda>m. m\<lparr>ms_mpie := True\<rparr>) csrs;
               csrs = upd_mstatus (\<lambda>m. m\<lparr>ms_mpp := MPP_User\<rparr>) csrs;
               csrs = (if prev_privilege \<noteq> MPP_Machine
                       then upd_mstatus (\<lambda>m. m\<lparr>ms_mprv := False\<rparr>) csrs else csrs);
               h = h\<lparr>hart_csrs := csrs,
                     hart_mode := (case prev_privilege of
                                     MPP_User \<Rightarrow> User
                                   | MPP_Supervisor \<Rightarrow> Supervisor
                                   | MPP_Machine \<Rightarrow> Machine)\<rparr>
           in (Inr (csr_read (hart_csrs h) CSR_mepc), h)))"

definition run_sret :: "(HartState, Address) exec" where
  "run_sret h =
     (if hart_mode h = User then (Inl IllegalInstruction, h)
      else
        (let csrs = hart_csrs h in
         if ms_tsr (csr_mstatus csrs) then (Inl IllegalInstruction, h)
         else
           (let prev_privilege = ms_spp (csr_mstatus csrs);
                prev_sie = ms_spie (csr_mstatus csrs);
                csrs = upd_mstatus (\<lambda>m. m\<lparr>ms_sie := prev_sie\<rparr>) csrs;
                csrs = upd_mstatus (\<lambda>m. m\<lparr>ms_spie := True\<rparr>) csrs;
                csrs = upd_mstatus (\<lambda>m. m\<lparr>ms_spp := SPP_User\<rparr>) csrs;
                csrs = upd_mstatus (\<lambda>m. m\<lparr>ms_mprv := False\<rparr>) csrs;
                h = h\<lparr>hart_csrs := csrs,
                      hart_mode := (case prev_privilege of
                                      SPP_User \<Rightarrow> User
                                    | SPP_Supervisor \<Rightarrow> Supervisor)\<rparr>
            in (Inr (csr_read (hart_csrs h) CSR_sepc), h))))"

section \<open>Waiting and fencing\<close>

definition run_wfi :: "MachineCoreState \<Rightarrow> MachineCoreState" where
  "run_wfi s = s"

definition run_sfence_vma :: "XRegister \<Rightarrow> XRegister \<Rightarrow> (MachineCoreState, unit) exec" where
  "run_sfence_vma asid vaddr s =
     (let s = s\<lparr>core_tcache := tcache_invalidate [AccInstruction, AccLoad, AccStore] (core_tcache s)\<rparr>;
          mode = hart_mode (core_hart s);
          tvm = ms_tvm (csr_mstatus (hart_csrs (core_hart s))) in
      if tvm \<and> mode = Supervisor then (Inl IllegalInstruction, s) else (Inr (), s))"

section \<open>CSR instructions are guarded and atomic\<close>

lemma csr_instr_error_frame:
  "run_csrrw csr rs1 rd h = (Inl e, h') \<Longrightarrow> h' = h"
  "run_csrrwi csr imm rd h = (Inl e, h') \<Longrightarrow> h' = h"
  "run_csrrs csr rs1 rd h = (Inl e, h') \<Longrightarrow> h' = h"
  "run_csrrsi csr imm rd h = (Inl e, h') \<Longrightarrow> h' = h"
  "run_csrrc csr rs1 rd h = (Inl e, h') \<Longrightarrow> h' = h"
  "run_csrrci csr imm rd h = (Inl e, h') \<Longrightarrow> h' = h"
  by (auto simp: run_csrrw_def run_csrrwi_def hart_csr_replace_def run_csrrs_def run_csrrsi_def
      run_csrrc_def run_csrrci_def Let_def split: sum.splits if_splits prod.splits)

text \<open>The common shape of the six instructions: the old value goes to \<^verbatim>\<open>rd\<close>, and the new one, if the
  instruction writes at all, to the register.\<close>

definition csr_rmw ::
  "CSRegister \<Rightarrow> bool \<Rightarrow> (CSRRepr \<Rightarrow> CSRRepr) \<Rightarrow> XRegister \<Rightarrow> (HartState, unit) exec" where
  "csr_rmw csr writes f rd h =
     (if is_ok (access_checks csr (hart_mode h) (hart_csrs h)) \<and> (writes \<longrightarrow> \<not> is_read_only csr)
      then let old = csr_read (hart_csrs h) csr in
           (Inr (), h\<lparr>hart_csrs := if writes then csr_write (hart_csrs h) csr (f old) else hart_csrs h,
                      hart_xregs := xr_write (hart_xregs h) rd old\<rparr>)
      else (Inl IllegalInstruction, h))"

lemma access_checks_error: "access_checks csr m s = Inl e \<Longrightarrow> e = IllegalInstruction"
  by (auto simp: access_checks_def check_privilege_def check_satp_access_def check_fs_access_def
      split: sum.splits if_splits)

lemma csr_set_bits_eq:
  "csr_set_bits s csr v = (csr_read s csr, csr_write s csr (csr_read s csr OR v))"
  by (simp add: csr_set_bits_def Let_def csr_replace_read_write)

lemma csr_clear_bits_eq:
  "csr_clear_bits s csr v = (csr_read s csr, csr_write s csr (csr_read s csr AND NOT v))"
  by (simp add: csr_clear_bits_def Let_def csr_replace_read_write)

lemma csr_instr_rmw:
  "run_csrrw csr rs1 rd h = csr_rmw csr True (\<lambda>_. xr_read (hart_xregs h) rs1) rd h"
  "run_csrrwi csr imm rd h = csr_rmw csr True (\<lambda>_. imm AND 31) rd h"
  "run_csrrs csr rs1 rd h = csr_rmw csr (rs1 \<noteq> X0) (\<lambda>old. old OR xr_read (hart_xregs h) rs1) rd h"
  "run_csrrsi csr imm rd h = csr_rmw csr (imm AND 31 \<noteq> 0) (\<lambda>old. old OR (imm AND 31)) rd h"
  "run_csrrc csr rs1 rd h = csr_rmw csr (rs1 \<noteq> X0) (\<lambda>old. old AND NOT (xr_read (hart_xregs h) rs1)) rd h"
  "run_csrrci csr imm rd h = csr_rmw csr (imm AND 31 \<noteq> 0) (\<lambda>old. old AND NOT (imm AND 31)) rd h"
  by (cases "access_checks csr (hart_mode h) (hart_csrs h)";
      auto simp: csr_rmw_def run_csrrw_def run_csrrwi_def hart_csr_replace_def run_csrrs_def
        run_csrrsi_def run_csrrc_def run_csrrci_def Let_def check_write_def csr_replace_read_write
        csr_set_bits_eq csr_clear_bits_eq hart_write_x_def is_zero_def dest: access_checks_error)+

section \<open>Returning from a trap\<close>

lemma upd_mstatus_simps [simp]:
  "csr_mstatus (upd_mstatus f c) = f (csr_mstatus c)"
  "csr_raw (upd_mstatus f c) = csr_raw c"
  by (simp_all add: upd_mstatus_def)

lemma csr_read_upd_mstatus [simp]:
  "root_of q \<noteq> CSR_mstatus \<Longrightarrow> csr_read (upd_mstatus f c) q = csr_read c q"
  by (simp add: upd_mstatus_def)

lemma mpp_of_mode_mode [simp]:
  "(case mpp_of_mode m of MPP_User \<Rightarrow> User | MPP_Supervisor \<Rightarrow> Supervisor | MPP_Machine \<Rightarrow> Machine) = m"
  by (cases m) simp_all

lemma mret_after_trap:
  assumes "take_trap t ret h = (addr, h')" "get_trap_mode (hart_csrs h) t (hart_mode h) = TrapMachine"
  shows "\<exists>h''. run_mret h' = (Inr (ret AND NOT 1), h'') \<and> hart_mode h'' = hart_mode h
    \<and> ms_mie (csr_mstatus (hart_csrs h'')) = ms_mie (csr_mstatus (hart_csrs h))
    \<and> hart_xregs h'' = hart_xregs h \<and> hart_fregs h'' = hart_fregs h \<and> hart_pc h'' = hart_pc h"
proof -
  have tt: "take_trap_from_mode t (hart_mode h) ret h = (addr, h')"
    using assms(1) by (simp add: take_trap_def)
  note f = take_trap_frame [OF tt, unfolded assms(2)]
  have e: "csr_read (hart_csrs h') CSR_mepc = ret AND NOT 1"
    using take_trap_saved_registers(1) [OF tt, of CSR_mtvec CSR_mepc CSR_mcause CSR_mtval] assms(2) by simp
  show ?thesis
    using f e by (simp add: run_mret_def Let_def trap_status_def root_of_def)
qed

lemma sret_after_trap:
  assumes "take_trap t ret h = (addr, h')" "get_trap_mode (hart_csrs h) t (hart_mode h) = TrapSupervisor"
    "\<not> ms_tsr (csr_mstatus (hart_csrs h))"
  shows "\<exists>h''. run_sret h' = (Inr (ret AND NOT 1), h'') \<and> hart_mode h'' = hart_mode h
    \<and> ms_sie (csr_mstatus (hart_csrs h'')) = ms_sie (csr_mstatus (hart_csrs h))
    \<and> hart_xregs h'' = hart_xregs h \<and> hart_fregs h'' = hart_fregs h \<and> hart_pc h'' = hart_pc h"
proof -
  have tt: "take_trap_from_mode t (hart_mode h) ret h = (addr, h')"
    using assms(1) by (simp add: take_trap_def)
  note f = take_trap_frame [OF tt, unfolded assms(2)]
  have e: "csr_read (hart_csrs h') CSR_sepc = ret AND NOT 1"
    using take_trap_saved_registers(1) [OF tt, of CSR_stvec CSR_sepc CSR_scause CSR_stval] assms(2) by simp
  have "hart_mode h \<noteq> Machine" using get_trap_mode_supervisor [OF assms(2)] .
  then show ?thesis
    using f e assms(3) by (cases "hart_mode h") (simp_all add: run_sret_def Let_def trap_status_def root_of_def)
qed

lemma xret_illegal:
  "hart_mode h \<noteq> Machine \<Longrightarrow> run_mret h = (Inl IllegalInstruction, h)"
  "hart_mode h = User \<or> ms_tsr (csr_mstatus (hart_csrs h)) \<Longrightarrow> run_sret h = (Inl IllegalInstruction, h)"
  by (auto simp: run_mret_def run_sret_def Let_def split: Mode.splits)

lemma mret_not_higher: "run_mret h = (Inr a, h') \<Longrightarrow> hart_mode h' \<le> hart_mode h"
  by (auto simp: run_mret_def Let_def less_eq_Mode_def split: Mode.splits MPPValue.splits)

lemma sret_not_higher: "run_sret h = (Inr a, h') \<Longrightarrow> hart_mode h' \<le> hart_mode h"
  by (cases "hart_mode h")
    (auto simp: run_sret_def Let_def less_eq_Mode_def split: SPPValue.splits if_splits)

section \<open>Fences\<close>

lemma sfence_vma_state:
  "core_hart (snd (run_sfence_vma asid vaddr s)) = core_hart s"
  "core_bus (snd (run_sfence_vma asid vaddr s)) = core_bus s"
  "core_tcache (snd (run_sfence_vma asid vaddr s))
   = tcache_invalidate [AccInstruction, AccLoad, AccStore] (core_tcache s)"
  by (simp_all add: run_sfence_vma_def Let_def)

lemma sfence_vma_coherent:
  assumes "tcache_wf (core_tcache s)"
  shows "tcache_coherent (snd (run_sfence_vma asid vaddr s))"
proof -
  have "t \<in> set [AccInstruction, AccLoad, AccStore]" for t by (cases t) simp_all
  then show ?thesis
    using tcache_invalidate_miss [OF assms]
    by (simp only: tcache_coherent_def sfence_vma_state option.distinct not_False_eq_True simp_thms)
qed

end
