(* ===== verification/Float.thy ===== *)
theory Float
  imports Address_Translation Instruction
begin

text \<open>
  The generic part of the floating-point instructions: interpreter/float.rs.  The soft-float library
  rustc_apfloat is a parameter: the record \<^verbatim>\<open>Apfloat\<close> has one field per method of its
  \<^verbatim>\<open>Float\<close> trait that the interpreter calls, \<^verbatim>\<open>Status\<close> is its set of flags as a byte, and
  \<^verbatim>\<open>StatusAnd<T>\<close> a pair.  \<^verbatim>\<open>FloatExt\<close> is the trait of the same name: the library's
  operations on a format together with the conversions from and to a register value.
\<close>

section \<open>The soft-float library\<close>

datatype Round =
  NearestTiesToEven | TowardPositive | TowardNegative | TowardZero | NearestTiesToAway

type_synonym Status = u8

abbreviation Status_OK :: Status where "Status_OK \<equiv> 0"

record 'f Apfloat =
  af_to_bits :: "'f \<Rightarrow> 128 word"
  af_from_bits :: "128 word \<Rightarrow> 'f"
  af_is_nan :: "'f \<Rightarrow> bool"
  af_is_signaling :: "'f \<Rightarrow> bool"
  af_is_negative :: "'f \<Rightarrow> bool"
  af_is_normal :: "'f \<Rightarrow> bool"
  af_is_denormal :: "'f \<Rightarrow> bool"
  af_is_pos_zero :: "'f \<Rightarrow> bool"
  af_is_neg_zero :: "'f \<Rightarrow> bool"
  af_is_pos_infinity :: "'f \<Rightarrow> bool"
  af_is_neg_infinity :: "'f \<Rightarrow> bool"
  af_eq :: "'f \<Rightarrow> 'f \<Rightarrow> bool"
  af_lt :: "'f \<Rightarrow> 'f \<Rightarrow> bool"
  af_le :: "'f \<Rightarrow> 'f \<Rightarrow> bool"
  af_neg :: "'f \<Rightarrow> 'f"
  af_INFINITY :: 'f
  af_add_r :: "'f \<Rightarrow> 'f \<Rightarrow> Round \<Rightarrow> Status \<times> 'f"
  af_sub_r :: "'f \<Rightarrow> 'f \<Rightarrow> Round \<Rightarrow> Status \<times> 'f"
  af_mul_r :: "'f \<Rightarrow> 'f \<Rightarrow> Round \<Rightarrow> Status \<times> 'f"
  af_div_r :: "'f \<Rightarrow> 'f \<Rightarrow> Round \<Rightarrow> Status \<times> 'f"
  af_mul_add_r :: "'f \<Rightarrow> 'f \<Rightarrow> 'f \<Rightarrow> Round \<Rightarrow> Status \<times> 'f"
  af_minimum :: "'f \<Rightarrow> 'f \<Rightarrow> 'f"
  af_maximum :: "'f \<Rightarrow> 'f \<Rightarrow> 'f"
  af_from_i128_r :: "128 word \<Rightarrow> Round \<Rightarrow> Status \<times> 'f"
  af_from_u128_r :: "128 word \<Rightarrow> Round \<Rightarrow> Status \<times> 'f"
  af_to_i128_r :: "'f \<Rightarrow> nat \<Rightarrow> Round \<Rightarrow> Status \<times> 128 word"
  af_to_u128_r :: "'f \<Rightarrow> nat \<Rightarrow> Round \<Rightarrow> Status \<times> 128 word"

record 'f FloatExt =
  fe_float :: "'f Apfloat"
  fe_into :: "'f \<Rightarrow> FValue"
  fe_from :: "FValue \<Rightarrow> 'f"
  fe_canonical_nan :: 'f

definition canonicalise :: "'f FloatExt \<Rightarrow> 'f \<Rightarrow> 'f" where
  "canonicalise F self = (if af_is_nan (fe_float F) self then fe_canonical_nan F else self)"

section \<open>Flags and rounding\<close>

datatype Fflag = NX | UF | OF | DZ | NV

fun fflag_index :: "Fflag \<Rightarrow> nat" where
  "fflag_index NX = 0"
| "fflag_index UF = 1"
| "fflag_index OF = 2"
| "fflag_index DZ = 3"
| "fflag_index NV = 4"

definition set_exception_flag :: "Fflag \<Rightarrow> CSRegisters \<Rightarrow> CSRegisters" where
  "set_exception_flag flag csrs = snd (csr_set_bits csrs CSR_fflags (push_bit (fflag_index flag) 1))"

text \<open>\<^verbatim>\<open>u8::reverse_bits\<close>.\<close>

definition reverse_bits :: "u8 \<Rightarrow> u8" where
  "reverse_bits b = foldr (\<lambda>i acc. set_bit_to acc (7 - i) (bit_at b i)) [0..<8] 0"

definition status_to_bits :: "Status \<Rightarrow> u8" where
  "status_to_bits status = drop_bit 3 (reverse_bits status)"

definition set_exception_flag_status :: "Status \<Rightarrow> CSRegisters \<Rightarrow> CSRegisters" where
  "set_exception_flag_status status csrs =
     (let bits = status_to_bits status in snd (csr_set_bits csrs CSR_fflags (ucast bits)))"

fun round_of :: "RoundingMode \<Rightarrow> Round" where
  "round_of RNE = NearestTiesToEven"
| "round_of RTZ = TowardZero"
| "round_of RUP = TowardPositive"
| "round_of RDN = TowardNegative"
| "round_of RMM = NearestTiesToAway"

definition f_rounding_mode :: "HartState \<Rightarrow> InstrRoundingMode \<Rightarrow> (Exception, Round) result" where
  "f_rounding_mode h rm =
     map_ok round_of
       (case rm of
          Static rm \<Rightarrow> Inr rm
        | Dynamic \<Rightarrow> rounding_from_csrrepr (csr_read (hart_csrs h) CSR_frm))"

definition check_fs_on :: "HartState \<Rightarrow> (Exception, unit) result" where
  "check_fs_on h = (if floating_disabled (hart_csrs h) then Inl IllegalInstruction else Inr ())"

section \<open>Access to the hart\<close>

abbreviation hart_read_f :: "'f FloatExt \<Rightarrow> HartState \<Rightarrow> FRegister \<Rightarrow> 'f" where
  "hart_read_f F h rs \<equiv> fe_from F (fr_read (hart_fregs h) rs)"

definition hart_put_f :: "FRegister \<Rightarrow> FValue \<Rightarrow> HartState \<Rightarrow> HartState" where
  "hart_put_f rd v h = h\<lparr>hart_fregs := fr_write (hart_fregs h) rd v\<rparr>"

definition hart_put_x :: "XRegister \<Rightarrow> XValue \<Rightarrow> HartState \<Rightarrow> HartState" where
  "hart_put_x rd v h = h\<lparr>hart_xregs := xr_write (hart_xregs h) rd v\<rparr>"

definition hart_upd_csrs :: "(CSRegisters \<Rightarrow> CSRegisters) \<Rightarrow> HartState \<Rightarrow> HartState" where
  "hart_upd_csrs f h = h\<lparr>hart_csrs := f (hart_csrs h)\<rparr>"

text \<open>\<^verbatim>\<open>if status != Status::OK { ...set_exception_flag_status(status) }\<close>.\<close>

definition raise_status :: "Status \<Rightarrow> HartState \<Rightarrow> HartState" where
  "raise_status status h =
     (if status \<noteq> Status_OK then hart_upd_csrs (set_exception_flag_status status) h else h)"

section \<open>Classification and comparison\<close>

definition run_fclass :: "'f FloatExt \<Rightarrow> FRegister \<Rightarrow> XRegister \<Rightarrow> HartState \<Rightarrow> HartState" where
  "run_fclass F rs1 rd h =
     (let rval = hart_read_f F h rs1;
          A = fe_float F;
          is_neg = af_is_negative A rval;
          res = (if af_is_neg_infinity A rval then 1
                 else if is_neg \<and> af_is_normal A rval then push_bit 1 1
                 else if is_neg \<and> af_is_denormal A rval then push_bit 2 1
                 else if af_is_neg_zero A rval then push_bit 3 1
                 else if af_is_pos_zero A rval then push_bit 4 1
                 else if af_is_denormal A rval then push_bit 5 1
                 else if af_is_normal A rval then push_bit 6 1
                 else if af_is_pos_infinity A rval then push_bit 7 1
                 else if af_is_signaling A rval then push_bit 8 1
                 else push_bit 9 (1 :: u64))
      in hart_put_x rd res h)"

definition run_feq :: "'f FloatExt \<Rightarrow> FRegister \<Rightarrow> FRegister \<Rightarrow> XRegister \<Rightarrow> HartState \<Rightarrow> HartState" where
  "run_feq F rs1 rs2 rd h =
     (let rval1 = hart_read_f F h rs1;
          rval2 = hart_read_f F h rs2;
          A = fe_float F;
          h = (if af_is_signaling A rval1 \<or> af_is_signaling A rval2
               then hart_upd_csrs (set_exception_flag NV) h else h);
          res = (if af_eq A rval1 rval2 then 1 else 0)
      in hart_put_x rd res h)"

definition run_flt :: "'f FloatExt \<Rightarrow> FRegister \<Rightarrow> FRegister \<Rightarrow> XRegister \<Rightarrow> HartState \<Rightarrow> HartState" where
  "run_flt F rs1 rs2 rd h =
     (let rval1 = hart_read_f F h rs1;
          rval2 = hart_read_f F h rs2;
          A = fe_float F;
          h = (if af_is_nan A rval1 \<or> af_is_nan A rval2
               then hart_upd_csrs (set_exception_flag NV) h else h);
          res = (if af_lt A rval1 rval2 then 1 else 0)
      in hart_put_x rd res h)"

definition run_fle :: "'f FloatExt \<Rightarrow> FRegister \<Rightarrow> FRegister \<Rightarrow> XRegister \<Rightarrow> HartState \<Rightarrow> HartState" where
  "run_fle F rs1 rs2 rd h =
     (let rval1 = hart_read_f F h rs1;
          rval2 = hart_read_f F h rs2;
          A = fe_float F;
          h = (if af_is_nan A rval1 \<or> af_is_nan A rval2
               then hart_upd_csrs (set_exception_flag NV) h else h);
          res = (if af_le A rval1 rval2 then 1 else 0)
      in hart_put_x rd res h)"

section \<open>Arithmetic\<close>

definition f_arith_2 ::
  "'f FloatExt \<Rightarrow> FRegister \<Rightarrow> FRegister \<Rightarrow> InstrRoundingMode \<Rightarrow> FRegister
     \<Rightarrow> ('f \<Rightarrow> 'f \<Rightarrow> Round \<Rightarrow> Status \<times> 'f) \<Rightarrow> (HartState, unit) exec" where
  "f_arith_2 F rs1 rs2 rm rd f h =
     (let rval1 = hart_read_f F h rs1;
          rval2 = hart_read_f F h rs2 in
      case f_rounding_mode h rm of
        Inl e \<Rightarrow> (Inl e, h)
      | Inr rm \<Rightarrow>
          (let (status, value) = map_prod id (canonicalise F) (f rval1 rval2 rm);
               h = raise_status status h
           in (Inr (), hart_put_f rd (fe_into F value) h)))"

definition f_arith_3 ::
  "'f FloatExt \<Rightarrow> FRegister \<Rightarrow> FRegister \<Rightarrow> FRegister \<Rightarrow> InstrRoundingMode \<Rightarrow> FRegister
     \<Rightarrow> ('f \<Rightarrow> 'f \<Rightarrow> 'f \<Rightarrow> Round \<Rightarrow> Status \<times> 'f) \<Rightarrow> (HartState, unit) exec" where
  "f_arith_3 F rs1 rs2 rs3 rm rd f h =
     (let rval1 = hart_read_f F h rs1;
          rval2 = hart_read_f F h rs2;
          rval3 = hart_read_f F h rs3 in
      case f_rounding_mode h rm of
        Inl e \<Rightarrow> (Inl e, h)
      | Inr rm \<Rightarrow>
          (let (status, value) = map_prod id (canonicalise F) (f rval1 rval2 rval3 rm);
               h = raise_status status h
           in (Inr (), hart_put_f rd (fe_into F value) h)))"

type_synonym 'f instr2 =
  "'f FloatExt \<Rightarrow> FRegister \<Rightarrow> FRegister \<Rightarrow> InstrRoundingMode \<Rightarrow> FRegister \<Rightarrow> (HartState, unit) exec"

type_synonym 'f instr3 =
  "'f FloatExt \<Rightarrow> FRegister \<Rightarrow> FRegister \<Rightarrow> FRegister \<Rightarrow> InstrRoundingMode \<Rightarrow> FRegister
     \<Rightarrow> (HartState, unit) exec"

definition run_fadd :: "'f instr2" where
  "run_fadd F rs1 rs2 rm rd = f_arith_2 F rs1 rs2 rm rd (af_add_r (fe_float F))"

definition run_fsub :: "'f instr2" where
  "run_fsub F rs1 rs2 rm rd = f_arith_2 F rs1 rs2 rm rd (af_sub_r (fe_float F))"

definition run_fmul :: "'f instr2" where
  "run_fmul F rs1 rs2 rm rd = f_arith_2 F rs1 rs2 rm rd (af_mul_r (fe_float F))"

definition run_fdiv :: "'f instr2" where
  "run_fdiv F rs1 rs2 rm rd = f_arith_2 F rs1 rs2 rm rd (af_div_r (fe_float F))"

definition run_fmadd :: "'f instr3" where
  "run_fmadd F rs1 rs2 rs3 rm rd = f_arith_3 F rs1 rs2 rs3 rm rd (af_mul_add_r (fe_float F))"

definition run_fmsub :: "'f instr3" where
  "run_fmsub F rs1 rs2 rs3 rm rd =
     f_arith_3 F rs1 rs2 rs3 rm rd
       (\<lambda>rv1 rv2 rv3 rm. af_mul_add_r (fe_float F) rv1 rv2 (af_neg (fe_float F) rv3) rm)"

definition run_fnmsub :: "'f instr3" where
  "run_fnmsub F rs1 rs2 rs3 rm rd =
     f_arith_3 F rs1 rs2 rs3 rm rd
       (\<lambda>rv1 rv2 rv3 rm. af_mul_add_r (fe_float F) (af_neg (fe_float F) rv1) rv2 rv3 rm)"

definition run_fnmadd :: "'f instr3" where
  "run_fnmadd F rs1 rs2 rs3 rm rd =
     f_arith_3 F rs1 rs2 rs3 rm rd
       (\<lambda>rv1 rv2 rv3 rm. af_mul_add_r (fe_float F) (af_neg (fe_float F) rv1) rv2
                           (af_neg (fe_float F) rv3) rm)"

definition min_max ::
  "'f FloatExt \<Rightarrow> FRegister \<Rightarrow> FRegister \<Rightarrow> FRegister \<Rightarrow> ('f \<Rightarrow> 'f \<Rightarrow> 'f) \<Rightarrow> HartState \<Rightarrow> HartState" where
  "min_max F rs1 rs2 rd cmp h =
     (let rval1 = hart_read_f F h rs1;
          rval2 = hart_read_f F h rs2;
          A = fe_float F;
          rval1_nan = af_is_nan A rval1;
          rval2_nan = af_is_nan A rval2;
          res = (case (rval1_nan, rval2_nan) of
                   (True, True) \<Rightarrow> fe_canonical_nan F
                 | (True, False) \<Rightarrow> rval2
                 | (False, True) \<Rightarrow> rval1
                 | (False, False) \<Rightarrow> cmp rval1 rval2);
          h = (if (rval1_nan \<or> rval2_nan) \<and> (af_is_signaling A rval1 \<or> af_is_signaling A rval2)
               then hart_upd_csrs (set_exception_flag NV) h else h)
      in hart_put_f rd (fe_into F res) h)"

definition run_fmin :: "'f FloatExt \<Rightarrow> FRegister \<Rightarrow> FRegister \<Rightarrow> FRegister \<Rightarrow> HartState \<Rightarrow> HartState" where
  "run_fmin F rs1 rs2 rd = min_max F rs1 rs2 rd (af_minimum (fe_float F))"

definition run_fmax :: "'f FloatExt \<Rightarrow> FRegister \<Rightarrow> FRegister \<Rightarrow> FRegister \<Rightarrow> HartState \<Rightarrow> HartState" where
  "run_fmax F rs1 rs2 rd = min_max F rs1 rs2 rd (af_maximum (fe_float F))"

section \<open>Conversions\<close>

definition run_fcvt_int_fmt ::
  "'f FloatExt \<Rightarrow> XRegister \<Rightarrow> InstrRoundingMode \<Rightarrow> FRegister \<Rightarrow> (u64 \<Rightarrow> 't)
     \<Rightarrow> ('t \<Rightarrow> Round \<Rightarrow> Status \<times> 'f) \<Rightarrow> (HartState, unit) exec" where
  "run_fcvt_int_fmt F rs1 rm rd cast cvt h =
     (let rval = xr_read (hart_xregs h) rs1;
          rval = cast rval in
      case f_rounding_mode h rm of
        Inl e \<Rightarrow> (Inl e, h)
      | Inr rm \<Rightarrow>
          (let (status, value) = cvt rval rm;
               h = raise_status status h
           in (Inr (), hart_put_f rd (fe_into F value) h)))"

definition run_fcvt_fmt_fmt ::
  "'f FloatExt \<Rightarrow> 't FloatExt \<Rightarrow> ('f \<Rightarrow> Round \<Rightarrow> Status \<times> 't) \<Rightarrow> FRegister \<Rightarrow> InstrRoundingMode
     \<Rightarrow> FRegister \<Rightarrow> (HartState, unit) exec" where
  "run_fcvt_fmt_fmt F T convert_r rs1 rm rd h =
     (let rval = hart_read_f F h rs1 in
      case f_rounding_mode h rm of
        Inl e \<Rightarrow> (Inl e, h)
      | Inr rm \<Rightarrow>
          (let (status, value) = map_prod id (canonicalise T) (convert_r rval rm);
               h = raise_status status h
           in (Inr (), hart_put_f rd (fe_into T value) h)))"

definition run_fcvt_fmt_int ::
  "'f FloatExt \<Rightarrow> FRegister \<Rightarrow> InstrRoundingMode \<Rightarrow> XRegister \<Rightarrow> ('t \<Rightarrow> u64)
     \<Rightarrow> ('f \<Rightarrow> Round \<Rightarrow> Status \<times> 't) \<Rightarrow> (HartState, unit) exec" where
  "run_fcvt_fmt_int F rs1 rm rd cast cvt h =
     (let rval = hart_read_f F h rs1 in
      case f_rounding_mode h rm of
        Inl e \<Rightarrow> (Inl e, h)
      | Inr rm \<Rightarrow>
          (let rval = (if af_is_nan (fe_float F) rval then af_INFINITY (fe_float F) else rval);
               (status, value) = cvt rval rm;
               h = raise_status status h
           in (Inr (), hart_put_x rd (cast value) h)))"

section \<open>Sign injection\<close>

definition f_sign_injection ::
  "'f FloatExt \<Rightarrow> FRegister \<Rightarrow> FRegister \<Rightarrow> FRegister \<Rightarrow> (bool \<Rightarrow> bool \<Rightarrow> bool) \<Rightarrow> HartState \<Rightarrow> HartState" where
  "f_sign_injection F rs1 rs2 rd pick_sign h =
     (let rval1 = hart_read_f F h rs1;
          rval2 = hart_read_f F h rs2;
          sign_bit_1 = af_is_negative (fe_float F) rval1;
          sign_bit_2 = af_is_negative (fe_float F) rval2;
          sign_bit = pick_sign sign_bit_1 sign_bit_2;
          res = (if sign_bit = sign_bit_1 then rval1 else af_neg (fe_float F) rval1)
      in hart_put_f rd (fe_into F res) h)"

definition run_fsgnj :: "'f FloatExt \<Rightarrow> FRegister \<Rightarrow> FRegister \<Rightarrow> FRegister \<Rightarrow> HartState \<Rightarrow> HartState" where
  "run_fsgnj F rs1 rs2 rd = f_sign_injection F rs1 rs2 rd (\<lambda>x y. y)"

definition run_fsgnjn :: "'f FloatExt \<Rightarrow> FRegister \<Rightarrow> FRegister \<Rightarrow> FRegister \<Rightarrow> HartState \<Rightarrow> HartState" where
  "run_fsgnjn F rs1 rs2 rd = f_sign_injection F rs1 rs2 rd (\<lambda>x y. \<not> y)"

definition run_fsgnjx :: "'f FloatExt \<Rightarrow> FRegister \<Rightarrow> FRegister \<Rightarrow> FRegister \<Rightarrow> HartState \<Rightarrow> HartState" where
  "run_fsgnjx F rs1 rs2 rd = f_sign_injection F rs1 rs2 rd (\<lambda>x y. x \<noteq> y)"

section \<open>Flags\<close>

text \<open>The flags of the library are listed from the least significant bit as invalid operation, division
  by zero, overflow, underflow and inexact, those of the CSR in the opposite order.\<close>

lemma status_to_bits_bit: "bit (status_to_bits s) i \<longleftrightarrow> i < 5 \<and> bit s (4 - i)"
proof -
  have "bit (reverse_bits s) j \<longleftrightarrow> j < 8 \<and> bit s (7 - j)" for j
    by (simp add: reverse_bits_def upt_rec bit_set_bit_to bit_at_iff numeral_eq_Suc)
  then show ?thesis
    by (auto simp: status_to_bits_def bit_drop_bit_eq)
qed

lemma csr_read_set_fflags:
  "csr_read (snd (csr_set_bits s CSR_fflags v)) CSR_fflags = (csr_read s CSR_fflags OR v) AND 31"
proof -
  have m: "make_value_writable CSR_fflags w = Some w" for w
    by (simp add: make_value_writable_def transform_warl_fields_def is_legal_def legal_values_def
        clear_wpri_fields_def wpri_mask_def WPRI_MASK_EMPTY_def)
  show ?thesis
    by (simp add: csr_set_bits_def Let_def csr_replace_read_write csr_read_write_same m legalised_def
        FFLAGS_MASK_def)
qed

abbreviation fflags_of :: "HartState \<Rightarrow> CSRRepr" where
  "fflags_of h \<equiv> csr_read (hart_csrs h) CSR_fflags"

lemma fflags_masked: "csr_read s CSR_fflags AND 31 = csr_read s CSR_fflags"
  by (simp add: csr_read_def transform_read_def root_of_def FFLAGS_MASK_def and.assoc)

lemma status_bits_masked: "(ucast (status_to_bits st) :: u64) AND 31 = ucast (status_to_bits st)"
proof -
  have m: "(31 :: u64) = mask 5" by (simp add: mask_eq_exp_minus_1)
  show ?thesis unfolding m
    by (intro word_bits_eqI) (auto simp: bit_and_iff bit_ucast_iff status_to_bits_bit bit_mask_iff)
qed

lemma status_to_bits_0 [simp]: "status_to_bits 0 = 0"
  by (rule word_bits_eqI) (simp add: status_to_bits_bit)

text \<open>Flags accumulate.\<close>

lemma raise_status_flags: "fflags_of (raise_status st h) = fflags_of h OR ucast (status_to_bits st)"
proof (cases "st = 0")
  case False
  have "fflags_of (raise_status st h) = (fflags_of h OR ucast (status_to_bits st)) AND 31"
    using False by (simp add: raise_status_def hart_upd_csrs_def set_exception_flag_status_def Let_def
        csr_read_set_fflags)
  also have "\<dots> = (fflags_of h AND 31) OR (ucast (status_to_bits st) AND 31)"
    by (rule word_bits_eqI) (auto simp: bit_and_iff bit_or_iff)
  finally show ?thesis by (simp add: fflags_masked status_bits_masked)
qed (simp add: raise_status_def)

lemma raise_status_frame [simp]:
  "hart_xregs (raise_status st h) = hart_xregs h"
  "hart_fregs (raise_status st h) = hart_fregs h"
  "hart_pc (raise_status st h) = hart_pc h"
  "hart_mode (raise_status st h) = hart_mode h"
  by (simp_all add: raise_status_def hart_upd_csrs_def)

lemma hart_put_simps [simp]:
  "hart_csrs (hart_put_f rd v h) = hart_csrs h" "hart_csrs (hart_put_x rx w h) = hart_csrs h"
  "hart_xregs (hart_put_f rd v h) = hart_xregs h" "hart_fregs (hart_put_x rx w h) = hart_fregs h"
  "hart_pc (hart_put_f rd v h) = hart_pc h" "hart_pc (hart_put_x rx w h) = hart_pc h"
  "hart_fregs (hart_put_f rd v h) = fr_write (hart_fregs h) rd v"
  "hart_xregs (hart_put_x rx w h) = xr_write (hart_xregs h) rx w"
  by (simp_all add: hart_put_f_def hart_put_x_def)

lemma fr_read_write [simp]: "fr_read (fr_write r rd v) rd = v"
  by (simp add: fr_read_def fr_write_def)

section \<open>Arithmetic\<close>

lemma f_rounding_mode_cases:
  "f_rounding_mode h (Static m) = Inr (round_of m)"
  "f_rounding_mode h Dynamic =
   (if csr_read (hart_csrs h) CSR_frm = 0 then Inr NearestTiesToEven
    else if csr_read (hart_csrs h) CSR_frm = 1 then Inr TowardZero
    else if csr_read (hart_csrs h) CSR_frm = 2 then Inr TowardNegative
    else if csr_read (hart_csrs h) CSR_frm = 3 then Inr TowardPositive
    else if csr_read (hart_csrs h) CSR_frm = 4 then Inr NearestTiesToAway
    else Inl IllegalInstruction)"
  by (simp_all add: f_rounding_mode_def rounding_from_csrrepr_def)

lemma f_arith_2_ok:
  assumes "f_rounding_mode h rm = Inr r" "f (hart_read_f F h rs1) (hart_read_f F h rs2) r = (st, v)"
  shows "\<exists>h'. f_arith_2 F rs1 rs2 rm rd f h = (Inr (), h')
    \<and> hart_fregs h' = fr_write (hart_fregs h) rd (fe_into F (canonicalise F v))
    \<and> fflags_of h' = fflags_of h OR ucast (status_to_bits st) \<and> hart_xregs h' = hart_xregs h"
  using assms by (simp add: f_arith_2_def Let_def raise_status_flags)

lemma f_arith_3_ok:
  assumes "f_rounding_mode h rm = Inr r"
    "f (hart_read_f F h rs1) (hart_read_f F h rs2) (hart_read_f F h rs3) r = (st, v)"
  shows "\<exists>h'. f_arith_3 F rs1 rs2 rs3 rm rd f h = (Inr (), h')
    \<and> hart_fregs h' = fr_write (hart_fregs h) rd (fe_into F (canonicalise F v))
    \<and> fflags_of h' = fflags_of h OR ucast (status_to_bits st) \<and> hart_xregs h' = hart_xregs h"
  using assms by (simp add: f_arith_3_def Let_def raise_status_flags)

lemma f_arith_error:
  assumes "f_rounding_mode h rm = Inl e"
  shows "f_arith_2 F rs1 rs2 rm rd f h = (Inl e, h)" "f_arith_3 F rs1 rs2 rs3 rm rd g h = (Inl e, h)"
  using assms by (simp_all add: f_arith_2_def f_arith_3_def Let_def)

section \<open>Classification\<close>

lemma run_fclass_one_bit:
  assumes "rd \<noteq> X0"
  shows "\<exists>i < 10. xr_read (hart_xregs (run_fclass F rs1 rd h)) rd = 2 ^ i"
proof -
  have r: "xr_read (xr_write x rd v) rd = v" for x v
    using assms by (simp add: xr_read_def xr_write_def is_zero_def)
  have "\<exists>i < 10. (if c0 then 1 else if c1 then push_bit 1 1 else if c2 then push_bit 2 1
     else if c3 then push_bit 3 1 else if c4 then push_bit 4 1 else if c5 then push_bit 5 1
     else if c6 then push_bit 6 1 else if c7 then push_bit 7 1 else if c8 then push_bit 8 1
     else push_bit 9 (1 :: u64)) = 2 ^ i" for c0 c1 c2 c3 c4 c5 c6 c7 c8
    unfolding push_bit_of_1
    by (intro exI [of _ "if c0 then 0 else if c1 then 1 else if c2 then 2 else if c3 then 3
      else if c4 then 4 else if c5 then 5 else if c6 then 6 else if c7 then 7 else if c8 then 8 else 9"])
      auto
  then show ?thesis unfolding run_fclass_def Let_def hart_put_simps r by blast
qed

section \<open>Sign injection\<close>

lemma f_sign_injection_sign:
  assumes "\<And>x. af_is_negative (fe_float F) (af_neg (fe_float F) x) = (\<not> af_is_negative (fe_float F) x)"
    and "\<And>x. fe_from F (fe_into F x) = x"
  shows "af_is_negative (fe_float F) (hart_read_f F (f_sign_injection F rs1 rs2 rd p h) rd)
    = p (af_is_negative (fe_float F) (hart_read_f F h rs1)) (af_is_negative (fe_float F) (hart_read_f F h rs2))"
  using assms by (simp add: f_sign_injection_def Let_def)

section \<open>Arithmetic as the instruction set defines it\<close>

text \<open>The encodings of the rounding modes; 5 to 7 are reserved.\<close>

definition spec_round :: "nat \<Rightarrow> Round option" where
  "spec_round n =
     (if n = 0 then Some NearestTiesToEven else if n = 1 then Some TowardZero
      else if n = 2 then Some TowardNegative else if n = 3 then Some TowardPositive
      else if n = 4 then Some NearestTiesToAway else None)"

text \<open>The mode of an instruction is its static one, or bits 5 to 7 of \<^verbatim>\<open>fcsr\<close>.\<close>

definition spec_rm :: "HartState \<Rightarrow> InstrRoundingMode \<Rightarrow> nat" where
  "spec_rm h rm =
     (case rm of
        Static r \<Rightarrow> (case r of RNE \<Rightarrow> 0 | RTZ \<Rightarrow> 1 | RDN \<Rightarrow> 2 | RUP \<Rightarrow> 3 | RMM \<Rightarrow> 4)
      | Dynamic \<Rightarrow> unat (csr_read (hart_csrs h) CSR_fcsr) div 2 ^ 5 mod 2 ^ 3)"

lemma frm_field: "unat (csr_read s CSR_frm) = unat (csr_read s CSR_fcsr) div 2 ^ 5 mod 2 ^ 3"
proof -
  have m: "FRM_MASK = push_bit 5 (mask 3)" "FCSR_MASK = mask 8"
    by (simp_all add: FRM_MASK_def FRM_SHIFT_def FCSR_MASK_def FFLAGS_MASK_def mask_eq_exp_minus_1)
  have "drop_bit 5 (v AND push_bit 5 (mask 3)) = take_bit 3 (drop_bit 5 (v AND mask 8))" for v :: u64
    by (rule word_bits_eqI) (auto simp: bit_simps)
  then have "csr_read s CSR_frm = take_bit 3 (drop_bit 5 (csr_read s CSR_fcsr))"
    by (simp only: csr_read_def transform_read_def root_of_def m FRM_SHIFT_def Let_def) simp
  then have "unat (csr_read s CSR_frm) = take_bit 3 (drop_bit 5 (unat (csr_read s CSR_fcsr)))"
    by (simp only: unsigned_take_bit_eq unat_drop_bit_eq)
  then show ?thesis by (simp only: take_bit_eq_mod drop_bit_eq_div)
qed

lemma f_rounding_mode_spec:
  "f_rounding_mode h rm =
   (case spec_round (spec_rm h rm) of None \<Rightarrow> Inl IllegalInstruction | Some r \<Rightarrow> Inr r)"
proof (cases rm)
  case (Static r)
  then show ?thesis by (cases r) (simp_all add: f_rounding_mode_cases spec_rm_def spec_round_def)
next
  case Dynamic
  have n: "w = of_nat n \<longleftrightarrow> unat w = n" if "n < 5" for w :: u64 and n
    using that by (auto simp: unat_of_nat word_unat_eq_iff)
  have "spec_rm h rm = unat (csr_read (hart_csrs h) CSR_frm)"
    unfolding frm_field by (simp add: Dynamic spec_rm_def)
  then show ?thesis
    using n [of 0] n [of 1] n [of 2] n [of 3] n [of 4] by (simp add: Dynamic f_rounding_mode_cases spec_round_def)
qed

lemma raise_status_frm:
  "csr_read (hart_csrs (raise_status st h)) CSR_frm = csr_read (hart_csrs h) CSR_frm"
  by (simp add: raise_status_def hart_upd_csrs_def set_exception_flag_status_def csr_set_bits_def
      csr_write_fflags_keeps_frm [simplified] Let_def)

lemma raise_status_bits:
  "i < 5 \<Longrightarrow> bit (fflags_of (raise_status st h)) i \<longleftrightarrow> bit (fflags_of h) i \<or> bit st (4 - i)"
  by (simp add: raise_status_flags bit_or_iff bit_ucast_iff status_to_bits_bit)

lemma f_arith_2_spec:
  "case spec_round (spec_rm h rm) of
     None \<Rightarrow> f_arith_2 F rs1 rs2 rm rd f h = (Inl IllegalInstruction, h)
   | Some r \<Rightarrow>
       let (st, v) = f (hart_read_f F h rs1) (hart_read_f F h rs2) r;
           res = (if af_is_nan (fe_float F) v then fe_canonical_nan F else v)
       in \<exists>h'. f_arith_2 F rs1 rs2 rm rd f h = (Inr (), h')
         \<and> hart_fregs h' = fr_write (hart_fregs h) rd (fe_into F res)
         \<and> (\<forall>i \<in> {0..<5}. bit (fflags_of h') i = (bit (fflags_of h) i \<or> bit st (4 - i)))
         \<and> csr_read (hart_csrs h') CSR_frm = csr_read (hart_csrs h) CSR_frm
         \<and> hart_xregs h' = hart_xregs h"
proof (cases "spec_round (spec_rm h rm)")
  case None
  then show ?thesis by (simp add: f_arith_error f_rounding_mode_spec)
next
  case (Some r)
  obtain st v where f: "f (hart_read_f F h rs1) (hart_read_f F h rs2) r = (st, v)" by fastforce
  have "f_arith_2 F rs1 rs2 rm rd f h
      = (Inr (), hart_put_f rd (fe_into F (canonicalise F v)) (raise_status st h))"
    using Some f by (simp add: f_arith_2_def f_rounding_mode_spec)
  then show ?thesis
    by (simp add: Some f canonicalise_def raise_status_frm raise_status_bits)
qed

end
