(* ===== verification/Float_SD.thy ===== *)
theory Float_SD
  imports Float
begin

text \<open>
  The floating-point instructions of both formats: interpreter/rv64f.rs, interpreter/rv64d.rs and
  interpreter/rv64dc.rs.  \<^verbatim>\<open>FloatLib\<close> collects what the libraries rustc_apfloat and ieee_apsqrt
  provide: the two formats, the conversions between them and the square roots.
\<close>

section \<open>Formats\<close>

record ('s, 'd) FloatLib =
  lib_single :: "'s Apfloat"
  lib_double :: "'d Apfloat"
  lib_s_to_d :: "'s \<Rightarrow> Round \<Rightarrow> Status \<times> 'd"
  lib_d_to_s :: "'d \<Rightarrow> Round \<Rightarrow> Status \<times> 's"
  lib_sqrt_s :: "u32 \<Rightarrow> Round \<Rightarrow> Status \<times> u32"
  lib_sqrt_d :: "u64 \<Rightarrow> Round \<Rightarrow> Status \<times> u64"

definition f32_to_fvalue :: "u32 \<Rightarrow> FValue" where
  "f32_to_fvalue val = ucast val OR 0xffffffff00000000"

definition CANONICAL_NAN_BITS_S :: u32 where
  "CANONICAL_NAN_BITS_S = 0x7fc00000"

definition CANONICAL_NAN_BITS_D :: u64 where
  "CANONICAL_NAN_BITS_D = 0x7ff8000000000000"

definition fvalue_to_f32_bits :: "FValue \<Rightarrow> u32" where
  "fvalue_to_f32_bits val = (if drop_bit 32 val \<noteq> 0xffffffff then CANONICAL_NAN_BITS_S else ucast val)"

definition single_canonical_nan :: "'s Apfloat \<Rightarrow> 's" where
  "single_canonical_nan ap = af_from_bits ap (ucast CANONICAL_NAN_BITS_S)"

definition fvalue_from_single :: "'s Apfloat \<Rightarrow> 's \<Rightarrow> FValue" where
  "fvalue_from_single ap f = (let val = af_to_bits ap f in f32_to_fvalue (ucast val))"

definition single_from_fvalue :: "'s Apfloat \<Rightarrow> FValue \<Rightarrow> 's" where
  "single_from_fvalue ap val =
     (if drop_bit 32 val \<noteq> 0xffffffff then single_canonical_nan ap
      else af_from_bits ap (ucast (ucast val :: u32)))"

definition double_canonical_nan :: "'d Apfloat \<Rightarrow> 'd" where
  "double_canonical_nan ap = af_from_bits ap (ucast CANONICAL_NAN_BITS_D)"

definition fvalue_from_double :: "'d Apfloat \<Rightarrow> 'd \<Rightarrow> FValue" where
  "fvalue_from_double ap f = ucast (af_to_bits ap f)"

definition double_from_fvalue :: "'d Apfloat \<Rightarrow> FValue \<Rightarrow> 'd" where
  "double_from_fvalue ap val = af_from_bits ap (ucast val)"

definition Single :: "('s, 'd) FloatLib \<Rightarrow> 's FloatExt" where
  "Single lib =
     \<lparr>fe_float = lib_single lib, fe_into = fvalue_from_single (lib_single lib),
      fe_from = single_from_fvalue (lib_single lib),
      fe_canonical_nan = single_canonical_nan (lib_single lib)\<rparr>"

definition Double :: "('s, 'd) FloatLib \<Rightarrow> 'd FloatExt" where
  "Double lib =
     \<lparr>fe_float = lib_double lib, fe_into = fvalue_from_double (lib_double lib),
      fe_from = double_from_fvalue (lib_double lib),
      fe_canonical_nan = double_canonical_nan (lib_double lib)\<rparr>"

text \<open>\<^verbatim>\<open>self.check_fs_on()?\<close> before an instruction, and before one that cannot fail.\<close>

definition when_fs_on :: "(HartState, unit) exec \<Rightarrow> (HartState, unit) exec" where
  "when_fs_on m h = (case check_fs_on h of Inl e \<Rightarrow> (Inl e, h) | Inr _ \<Rightarrow> m h)"

definition pure_exec :: "(HartState \<Rightarrow> HartState) \<Rightarrow> (HartState, unit) exec" where
  "pure_exec f h = (Inr (), f h)"

section \<open>Single precision\<close>

definition run_fclass_s :: "('s, 'd) FloatLib \<Rightarrow> FRegister \<Rightarrow> XRegister \<Rightarrow> (HartState, unit) exec" where
  "run_fclass_s lib rs1 rd =
     when_fs_on (pure_exec (run_fclass (Single lib) rs1 rd))"

definition run_feq_s :: "('s, 'd) FloatLib \<Rightarrow> FRegister \<Rightarrow> FRegister \<Rightarrow> XRegister \<Rightarrow> (HartState, unit) exec" where
  "run_feq_s lib rs1 rs2 rd =
     when_fs_on (pure_exec (run_feq (Single lib) rs1 rs2 rd))"

definition run_fle_s :: "('s, 'd) FloatLib \<Rightarrow> FRegister \<Rightarrow> FRegister \<Rightarrow> XRegister \<Rightarrow> (HartState, unit) exec" where
  "run_fle_s lib rs1 rs2 rd =
     when_fs_on (pure_exec (run_fle (Single lib) rs1 rs2 rd))"

definition run_flt_s :: "('s, 'd) FloatLib \<Rightarrow> FRegister \<Rightarrow> FRegister \<Rightarrow> XRegister \<Rightarrow> (HartState, unit) exec" where
  "run_flt_s lib rs1 rs2 rd =
     when_fs_on (pure_exec (run_flt (Single lib) rs1 rs2 rd))"

definition run_fadd_s :: "('s, 'd) FloatLib \<Rightarrow> FRegister \<Rightarrow> FRegister \<Rightarrow> InstrRoundingMode \<Rightarrow> FRegister \<Rightarrow> (HartState, unit) exec" where
  "run_fadd_s lib rs1 rs2 rm rd =
     when_fs_on (run_fadd (Single lib) rs1 rs2 rm rd)"

definition run_fsub_s :: "('s, 'd) FloatLib \<Rightarrow> FRegister \<Rightarrow> FRegister \<Rightarrow> InstrRoundingMode \<Rightarrow> FRegister \<Rightarrow> (HartState, unit) exec" where
  "run_fsub_s lib rs1 rs2 rm rd =
     when_fs_on (run_fsub (Single lib) rs1 rs2 rm rd)"

definition run_fmul_s :: "('s, 'd) FloatLib \<Rightarrow> FRegister \<Rightarrow> FRegister \<Rightarrow> InstrRoundingMode \<Rightarrow> FRegister \<Rightarrow> (HartState, unit) exec" where
  "run_fmul_s lib rs1 rs2 rm rd =
     when_fs_on (run_fmul (Single lib) rs1 rs2 rm rd)"

definition run_fdiv_s :: "('s, 'd) FloatLib \<Rightarrow> FRegister \<Rightarrow> FRegister \<Rightarrow> InstrRoundingMode \<Rightarrow> FRegister \<Rightarrow> (HartState, unit) exec" where
  "run_fdiv_s lib rs1 rs2 rm rd =
     when_fs_on (run_fdiv (Single lib) rs1 rs2 rm rd)"

definition run_fsqrt_s :: "('s, 'd) FloatLib \<Rightarrow> FRegister \<Rightarrow> InstrRoundingMode \<Rightarrow> FRegister \<Rightarrow> (HartState, unit) exec" where
  "run_fsqrt_s lib rs1 rm rd = when_fs_on (\<lambda>h.
     let rval = fr_read (hart_fregs h) rs1 in
     case f_rounding_mode h rm of
       Inl e \<Rightarrow> (Inl e, h)
     | Inr rm \<Rightarrow>
         (let rval = fvalue_to_f32_bits rval;
              (status, value) = lib_sqrt_s lib rval rm;
              h = raise_status status h
          in (Inr (), hart_put_f rd (f32_to_fvalue value) h)))"

definition run_fmin_s :: "('s, 'd) FloatLib \<Rightarrow> FRegister \<Rightarrow> FRegister \<Rightarrow> FRegister \<Rightarrow> (HartState, unit) exec" where
  "run_fmin_s lib rs1 rs2 rd =
     when_fs_on (pure_exec (run_fmin (Single lib) rs1 rs2 rd))"

definition run_fmax_s :: "('s, 'd) FloatLib \<Rightarrow> FRegister \<Rightarrow> FRegister \<Rightarrow> FRegister \<Rightarrow> (HartState, unit) exec" where
  "run_fmax_s lib rs1 rs2 rd =
     when_fs_on (pure_exec (run_fmax (Single lib) rs1 rs2 rd))"

definition run_fmadd_s :: "('s, 'd) FloatLib \<Rightarrow> FRegister \<Rightarrow> FRegister \<Rightarrow> FRegister \<Rightarrow> InstrRoundingMode \<Rightarrow> FRegister \<Rightarrow> (HartState, unit) exec" where
  "run_fmadd_s lib rs1 rs2 rs3 rm rd =
     when_fs_on (run_fmadd (Single lib) rs1 rs2 rs3 rm rd)"

definition run_fmsub_s :: "('s, 'd) FloatLib \<Rightarrow> FRegister \<Rightarrow> FRegister \<Rightarrow> FRegister \<Rightarrow> InstrRoundingMode \<Rightarrow> FRegister \<Rightarrow> (HartState, unit) exec" where
  "run_fmsub_s lib rs1 rs2 rs3 rm rd =
     when_fs_on (run_fmsub (Single lib) rs1 rs2 rs3 rm rd)"

definition run_fnmsub_s :: "('s, 'd) FloatLib \<Rightarrow> FRegister \<Rightarrow> FRegister \<Rightarrow> FRegister \<Rightarrow> InstrRoundingMode \<Rightarrow> FRegister \<Rightarrow> (HartState, unit) exec" where
  "run_fnmsub_s lib rs1 rs2 rs3 rm rd =
     when_fs_on (run_fnmsub (Single lib) rs1 rs2 rs3 rm rd)"

definition run_fnmadd_s :: "('s, 'd) FloatLib \<Rightarrow> FRegister \<Rightarrow> FRegister \<Rightarrow> FRegister \<Rightarrow> InstrRoundingMode \<Rightarrow> FRegister \<Rightarrow> (HartState, unit) exec" where
  "run_fnmadd_s lib rs1 rs2 rs3 rm rd =
     when_fs_on (run_fnmadd (Single lib) rs1 rs2 rs3 rm rd)"

definition run_fcvt_s_w :: "('s, 'd) FloatLib \<Rightarrow> XRegister \<Rightarrow> InstrRoundingMode \<Rightarrow> FRegister \<Rightarrow> (HartState, unit) exec" where
  "run_fcvt_s_w lib rs1 rm rd =
     when_fs_on (run_fcvt_int_fmt (Single lib) rs1 rm rd (\<lambda>u. scast (ucast u :: i32))
       (af_from_i128_r (lib_single lib)))"

definition run_fcvt_s_wu :: "('s, 'd) FloatLib \<Rightarrow> XRegister \<Rightarrow> InstrRoundingMode \<Rightarrow> FRegister \<Rightarrow> (HartState, unit) exec" where
  "run_fcvt_s_wu lib rs1 rm rd =
     when_fs_on (run_fcvt_int_fmt (Single lib) rs1 rm rd (\<lambda>u. ucast (ucast u :: u32))
       (af_from_u128_r (lib_single lib)))"

definition run_fcvt_s_l :: "('s, 'd) FloatLib \<Rightarrow> XRegister \<Rightarrow> InstrRoundingMode \<Rightarrow> FRegister \<Rightarrow> (HartState, unit) exec" where
  "run_fcvt_s_l lib rs1 rm rd =
     when_fs_on (run_fcvt_int_fmt (Single lib) rs1 rm rd (\<lambda>u. scast u)
       (af_from_i128_r (lib_single lib)))"

definition run_fcvt_s_lu :: "('s, 'd) FloatLib \<Rightarrow> XRegister \<Rightarrow> InstrRoundingMode \<Rightarrow> FRegister \<Rightarrow> (HartState, unit) exec" where
  "run_fcvt_s_lu lib rs1 rm rd =
     when_fs_on (run_fcvt_int_fmt (Single lib) rs1 rm rd (\<lambda>u. ucast u)
       (af_from_u128_r (lib_single lib)))"

definition run_fcvt_w_s :: "('s, 'd) FloatLib \<Rightarrow> FRegister \<Rightarrow> InstrRoundingMode \<Rightarrow> XRegister \<Rightarrow> (HartState, unit) exec" where
  "run_fcvt_w_s lib rs1 rm rd =
     when_fs_on (run_fcvt_fmt_int (Single lib) rs1 rm rd (\<lambda>u. scast (ucast u :: i32))
       (\<lambda>f rm. af_to_i128_r (lib_single lib) f 32 rm))"

definition run_fcvt_wu_s :: "('s, 'd) FloatLib \<Rightarrow> FRegister \<Rightarrow> InstrRoundingMode \<Rightarrow> XRegister \<Rightarrow> (HartState, unit) exec" where
  "run_fcvt_wu_s lib rs1 rm rd =
     when_fs_on (run_fcvt_fmt_int (Single lib) rs1 rm rd (\<lambda>u. scast (ucast u :: i32))
       (\<lambda>f rm. af_to_u128_r (lib_single lib) f 32 rm))"

definition run_fcvt_l_s :: "('s, 'd) FloatLib \<Rightarrow> FRegister \<Rightarrow> InstrRoundingMode \<Rightarrow> XRegister \<Rightarrow> (HartState, unit) exec" where
  "run_fcvt_l_s lib rs1 rm rd =
     when_fs_on (run_fcvt_fmt_int (Single lib) rs1 rm rd (\<lambda>u. ucast u)
       (\<lambda>f rm. af_to_i128_r (lib_single lib) f 64 rm))"

definition run_fcvt_lu_s :: "('s, 'd) FloatLib \<Rightarrow> FRegister \<Rightarrow> InstrRoundingMode \<Rightarrow> XRegister \<Rightarrow> (HartState, unit) exec" where
  "run_fcvt_lu_s lib rs1 rm rd =
     when_fs_on (run_fcvt_fmt_int (Single lib) rs1 rm rd (\<lambda>u. ucast u)
       (\<lambda>f rm. af_to_u128_r (lib_single lib) f 64 rm))"

definition run_fsgnj_s :: "('s, 'd) FloatLib \<Rightarrow> FRegister \<Rightarrow> FRegister \<Rightarrow> FRegister \<Rightarrow> (HartState, unit) exec" where
  "run_fsgnj_s lib rs1 rs2 rd =
     when_fs_on (pure_exec (run_fsgnj (Single lib) rs1 rs2 rd))"

definition run_fsgnjn_s :: "('s, 'd) FloatLib \<Rightarrow> FRegister \<Rightarrow> FRegister \<Rightarrow> FRegister \<Rightarrow> (HartState, unit) exec" where
  "run_fsgnjn_s lib rs1 rs2 rd =
     when_fs_on (pure_exec (run_fsgnjn (Single lib) rs1 rs2 rd))"

definition run_fsgnjx_s :: "('s, 'd) FloatLib \<Rightarrow> FRegister \<Rightarrow> FRegister \<Rightarrow> FRegister \<Rightarrow> (HartState, unit) exec" where
  "run_fsgnjx_s lib rs1 rs2 rd =
     when_fs_on (pure_exec (run_fsgnjx (Single lib) rs1 rs2 rd))"

definition run_fmv_x_w :: "FRegister \<Rightarrow> XRegister \<Rightarrow> (HartState, unit) exec" where
  "run_fmv_x_w rs1 rd = when_fs_on (\<lambda>h.
     let rval = fr_read (hart_fregs h) rs1;
         rval = scast (ucast rval :: i32)
     in (Inr (), hart_put_x rd rval h))"

definition run_fmv_w_x :: "XRegister \<Rightarrow> FRegister \<Rightarrow> (HartState, unit) exec" where
  "run_fmv_w_x rs1 rd = when_fs_on (\<lambda>h.
     let rval = ucast (xr_read (hart_xregs h) rs1) :: u32;
         rval = f32_to_fvalue rval
     in (Inr (), hart_put_f rd rval h))"

section \<open>Double precision\<close>

definition run_fclass_d :: "('s, 'd) FloatLib \<Rightarrow> FRegister \<Rightarrow> XRegister \<Rightarrow> (HartState, unit) exec" where
  "run_fclass_d lib rs1 rd =
     when_fs_on (pure_exec (run_fclass (Double lib) rs1 rd))"

definition run_feq_d :: "('s, 'd) FloatLib \<Rightarrow> FRegister \<Rightarrow> FRegister \<Rightarrow> XRegister \<Rightarrow> (HartState, unit) exec" where
  "run_feq_d lib rs1 rs2 rd =
     when_fs_on (pure_exec (run_feq (Double lib) rs1 rs2 rd))"

definition run_fle_d :: "('s, 'd) FloatLib \<Rightarrow> FRegister \<Rightarrow> FRegister \<Rightarrow> XRegister \<Rightarrow> (HartState, unit) exec" where
  "run_fle_d lib rs1 rs2 rd =
     when_fs_on (pure_exec (run_fle (Double lib) rs1 rs2 rd))"

definition run_flt_d :: "('s, 'd) FloatLib \<Rightarrow> FRegister \<Rightarrow> FRegister \<Rightarrow> XRegister \<Rightarrow> (HartState, unit) exec" where
  "run_flt_d lib rs1 rs2 rd =
     when_fs_on (pure_exec (run_flt (Double lib) rs1 rs2 rd))"

definition run_fadd_d :: "('s, 'd) FloatLib \<Rightarrow> FRegister \<Rightarrow> FRegister \<Rightarrow> InstrRoundingMode \<Rightarrow> FRegister \<Rightarrow> (HartState, unit) exec" where
  "run_fadd_d lib rs1 rs2 rm rd =
     when_fs_on (run_fadd (Double lib) rs1 rs2 rm rd)"

definition run_fsub_d :: "('s, 'd) FloatLib \<Rightarrow> FRegister \<Rightarrow> FRegister \<Rightarrow> InstrRoundingMode \<Rightarrow> FRegister \<Rightarrow> (HartState, unit) exec" where
  "run_fsub_d lib rs1 rs2 rm rd =
     when_fs_on (run_fsub (Double lib) rs1 rs2 rm rd)"

definition run_fmul_d :: "('s, 'd) FloatLib \<Rightarrow> FRegister \<Rightarrow> FRegister \<Rightarrow> InstrRoundingMode \<Rightarrow> FRegister \<Rightarrow> (HartState, unit) exec" where
  "run_fmul_d lib rs1 rs2 rm rd =
     when_fs_on (run_fmul (Double lib) rs1 rs2 rm rd)"

definition run_fdiv_d :: "('s, 'd) FloatLib \<Rightarrow> FRegister \<Rightarrow> FRegister \<Rightarrow> InstrRoundingMode \<Rightarrow> FRegister \<Rightarrow> (HartState, unit) exec" where
  "run_fdiv_d lib rs1 rs2 rm rd =
     when_fs_on (run_fdiv (Double lib) rs1 rs2 rm rd)"

definition run_fsqrt_d :: "('s, 'd) FloatLib \<Rightarrow> FRegister \<Rightarrow> InstrRoundingMode \<Rightarrow> FRegister \<Rightarrow> (HartState, unit) exec" where
  "run_fsqrt_d lib rs1 rm rd = when_fs_on (\<lambda>h.
     let rval = fr_read (hart_fregs h) rs1 in
     case f_rounding_mode h rm of
       Inl e \<Rightarrow> (Inl e, h)
     | Inr rm \<Rightarrow>
         (let (status, value) = lib_sqrt_d lib rval rm;
              h = raise_status status h
          in (Inr (), hart_put_f rd value h)))"

definition run_fmin_d :: "('s, 'd) FloatLib \<Rightarrow> FRegister \<Rightarrow> FRegister \<Rightarrow> FRegister \<Rightarrow> (HartState, unit) exec" where
  "run_fmin_d lib rs1 rs2 rd =
     when_fs_on (pure_exec (run_fmin (Double lib) rs1 rs2 rd))"

definition run_fmax_d :: "('s, 'd) FloatLib \<Rightarrow> FRegister \<Rightarrow> FRegister \<Rightarrow> FRegister \<Rightarrow> (HartState, unit) exec" where
  "run_fmax_d lib rs1 rs2 rd =
     when_fs_on (pure_exec (run_fmax (Double lib) rs1 rs2 rd))"

definition run_fmadd_d :: "('s, 'd) FloatLib \<Rightarrow> FRegister \<Rightarrow> FRegister \<Rightarrow> FRegister \<Rightarrow> InstrRoundingMode \<Rightarrow> FRegister \<Rightarrow> (HartState, unit) exec" where
  "run_fmadd_d lib rs1 rs2 rs3 rm rd =
     when_fs_on (run_fmadd (Double lib) rs1 rs2 rs3 rm rd)"

definition run_fmsub_d :: "('s, 'd) FloatLib \<Rightarrow> FRegister \<Rightarrow> FRegister \<Rightarrow> FRegister \<Rightarrow> InstrRoundingMode \<Rightarrow> FRegister \<Rightarrow> (HartState, unit) exec" where
  "run_fmsub_d lib rs1 rs2 rs3 rm rd =
     when_fs_on (run_fmsub (Double lib) rs1 rs2 rs3 rm rd)"

definition run_fnmsub_d :: "('s, 'd) FloatLib \<Rightarrow> FRegister \<Rightarrow> FRegister \<Rightarrow> FRegister \<Rightarrow> InstrRoundingMode \<Rightarrow> FRegister \<Rightarrow> (HartState, unit) exec" where
  "run_fnmsub_d lib rs1 rs2 rs3 rm rd =
     when_fs_on (run_fnmsub (Double lib) rs1 rs2 rs3 rm rd)"

definition run_fnmadd_d :: "('s, 'd) FloatLib \<Rightarrow> FRegister \<Rightarrow> FRegister \<Rightarrow> FRegister \<Rightarrow> InstrRoundingMode \<Rightarrow> FRegister \<Rightarrow> (HartState, unit) exec" where
  "run_fnmadd_d lib rs1 rs2 rs3 rm rd =
     when_fs_on (run_fnmadd (Double lib) rs1 rs2 rs3 rm rd)"

definition run_fcvt_d_w :: "('s, 'd) FloatLib \<Rightarrow> XRegister \<Rightarrow> InstrRoundingMode \<Rightarrow> FRegister \<Rightarrow> (HartState, unit) exec" where
  "run_fcvt_d_w lib rs1 rm rd =
     when_fs_on (run_fcvt_int_fmt (Double lib) rs1 rm rd (\<lambda>u. scast (ucast u :: i32))
       (af_from_i128_r (lib_double lib)))"

definition run_fcvt_d_wu :: "('s, 'd) FloatLib \<Rightarrow> XRegister \<Rightarrow> InstrRoundingMode \<Rightarrow> FRegister \<Rightarrow> (HartState, unit) exec" where
  "run_fcvt_d_wu lib rs1 rm rd =
     when_fs_on (run_fcvt_int_fmt (Double lib) rs1 rm rd (\<lambda>u. ucast (ucast u :: u32))
       (af_from_u128_r (lib_double lib)))"

definition run_fcvt_d_l :: "('s, 'd) FloatLib \<Rightarrow> XRegister \<Rightarrow> InstrRoundingMode \<Rightarrow> FRegister \<Rightarrow> (HartState, unit) exec" where
  "run_fcvt_d_l lib rs1 rm rd =
     when_fs_on (run_fcvt_int_fmt (Double lib) rs1 rm rd (\<lambda>u. scast u)
       (af_from_i128_r (lib_double lib)))"

definition run_fcvt_d_lu :: "('s, 'd) FloatLib \<Rightarrow> XRegister \<Rightarrow> InstrRoundingMode \<Rightarrow> FRegister \<Rightarrow> (HartState, unit) exec" where
  "run_fcvt_d_lu lib rs1 rm rd =
     when_fs_on (run_fcvt_int_fmt (Double lib) rs1 rm rd (\<lambda>u. ucast u)
       (af_from_u128_r (lib_double lib)))"

definition run_fcvt_d_s :: "('s, 'd) FloatLib \<Rightarrow> FRegister \<Rightarrow> InstrRoundingMode \<Rightarrow> FRegister \<Rightarrow> (HartState, unit) exec" where
  "run_fcvt_d_s lib rs1 rm rd =
     when_fs_on (run_fcvt_fmt_fmt (Single lib) (Double lib) (lib_s_to_d lib) rs1 rm rd)"

definition run_fcvt_s_d :: "('s, 'd) FloatLib \<Rightarrow> FRegister \<Rightarrow> InstrRoundingMode \<Rightarrow> FRegister \<Rightarrow> (HartState, unit) exec" where
  "run_fcvt_s_d lib rs1 rm rd =
     when_fs_on (run_fcvt_fmt_fmt (Double lib) (Single lib) (lib_d_to_s lib) rs1 rm rd)"

definition run_fcvt_w_d :: "('s, 'd) FloatLib \<Rightarrow> FRegister \<Rightarrow> InstrRoundingMode \<Rightarrow> XRegister \<Rightarrow> (HartState, unit) exec" where
  "run_fcvt_w_d lib rs1 rm rd =
     when_fs_on (run_fcvt_fmt_int (Double lib) rs1 rm rd (\<lambda>u. scast (ucast u :: i32))
       (\<lambda>f rm. af_to_i128_r (lib_double lib) f 32 rm))"

definition run_fcvt_wu_d :: "('s, 'd) FloatLib \<Rightarrow> FRegister \<Rightarrow> InstrRoundingMode \<Rightarrow> XRegister \<Rightarrow> (HartState, unit) exec" where
  "run_fcvt_wu_d lib rs1 rm rd =
     when_fs_on (run_fcvt_fmt_int (Double lib) rs1 rm rd (\<lambda>u. scast (ucast u :: i32))
       (\<lambda>f rm. af_to_u128_r (lib_double lib) f 32 rm))"

definition run_fcvt_l_d :: "('s, 'd) FloatLib \<Rightarrow> FRegister \<Rightarrow> InstrRoundingMode \<Rightarrow> XRegister \<Rightarrow> (HartState, unit) exec" where
  "run_fcvt_l_d lib rs1 rm rd =
     when_fs_on (run_fcvt_fmt_int (Double lib) rs1 rm rd (\<lambda>u. ucast u)
       (\<lambda>f rm. af_to_i128_r (lib_double lib) f 64 rm))"

definition run_fcvt_lu_d :: "('s, 'd) FloatLib \<Rightarrow> FRegister \<Rightarrow> InstrRoundingMode \<Rightarrow> XRegister \<Rightarrow> (HartState, unit) exec" where
  "run_fcvt_lu_d lib rs1 rm rd =
     when_fs_on (run_fcvt_fmt_int (Double lib) rs1 rm rd (\<lambda>u. ucast u)
       (\<lambda>f rm. af_to_u128_r (lib_double lib) f 64 rm))"

definition run_fsgnj_d :: "('s, 'd) FloatLib \<Rightarrow> FRegister \<Rightarrow> FRegister \<Rightarrow> FRegister \<Rightarrow> (HartState, unit) exec" where
  "run_fsgnj_d lib rs1 rs2 rd =
     when_fs_on (pure_exec (run_fsgnj (Double lib) rs1 rs2 rd))"

definition run_fsgnjn_d :: "('s, 'd) FloatLib \<Rightarrow> FRegister \<Rightarrow> FRegister \<Rightarrow> FRegister \<Rightarrow> (HartState, unit) exec" where
  "run_fsgnjn_d lib rs1 rs2 rd =
     when_fs_on (pure_exec (run_fsgnjn (Double lib) rs1 rs2 rd))"

definition run_fsgnjx_d :: "('s, 'd) FloatLib \<Rightarrow> FRegister \<Rightarrow> FRegister \<Rightarrow> FRegister \<Rightarrow> (HartState, unit) exec" where
  "run_fsgnjx_d lib rs1 rs2 rd =
     when_fs_on (pure_exec (run_fsgnjx (Double lib) rs1 rs2 rd))"

definition run_fmv_d_x :: "XRegister \<Rightarrow> FRegister \<Rightarrow> (HartState, unit) exec" where
  "run_fmv_d_x rs1 rd = when_fs_on (\<lambda>h.
     let rval = xr_read (hart_xregs h) rs1 in (Inr (), hart_put_f rd rval h))"

definition run_fmv_x_d :: "FRegister \<Rightarrow> XRegister \<Rightarrow> (HartState, unit) exec" where
  "run_fmv_x_d rs1 rd = when_fs_on (\<lambda>h.
     let rval = fr_read (hart_fregs h) rs1 in (Inr (), hart_put_x rd rval h))"

section \<open>Loads and stores\<close>

definition core_when_fs_on :: "(MachineCoreState, unit) exec \<Rightarrow> (MachineCoreState, unit) exec" where
  "core_when_fs_on m s = (case check_fs_on (core_hart s) of Inl e \<Rightarrow> (Inl e, s) | Inr _ \<Rightarrow> m s)"

definition core_put_f :: "FRegister \<Rightarrow> FValue \<Rightarrow> MachineCoreState \<Rightarrow> MachineCoreState" where
  "core_put_f rd v s = s\<lparr>core_hart := hart_put_f rd v (core_hart s)\<rparr>"

definition run_flw :: "i64 \<Rightarrow> XRegister \<Rightarrow> FRegister \<Rightarrow> (MachineCoreState, unit) exec" where
  "run_flw imm rs1 rd = core_when_fs_on (and_then (read_from_bus imm rs1) (\<lambda>val :: u32. \<lambda>s.
     let val = f32_to_fvalue val in (Inr (), core_put_f rd val s)))"

definition run_fsw :: "i64 \<Rightarrow> XRegister \<Rightarrow> FRegister \<Rightarrow> (MachineCoreState, unit) exec" where
  "run_fsw imm rs1 rs2 = core_when_fs_on (\<lambda>s.
     let val = fr_read (hart_fregs (core_hart s)) rs2 in write_to_bus imm rs1 (ucast val :: u32) s)"

definition run_fld :: "i64 \<Rightarrow> XRegister \<Rightarrow> FRegister \<Rightarrow> (MachineCoreState, unit) exec" where
  "run_fld imm rs1 rd = core_when_fs_on (and_then (read_from_bus imm rs1) (\<lambda>val :: u64. \<lambda>s.
     (Inr (), core_put_f rd val s)))"

definition run_fsd :: "i64 \<Rightarrow> XRegister \<Rightarrow> FRegister \<Rightarrow> (MachineCoreState, unit) exec" where
  "run_fsd imm rs1 rs2 = core_when_fs_on (\<lambda>s.
     let val = fr_read (hart_fregs (core_hart s)) rs2 in write_to_bus imm rs1 val s)"

section \<open>Compressed loads and stores\<close>

definition run_cfld :: "i64 \<Rightarrow> XRegister \<Rightarrow> FRegister \<Rightarrow> (MachineCoreState, unit) exec" where
  "run_cfld imm rs1 rd = run_fld imm rs1 rd"

definition run_cfldsp :: "i64 \<Rightarrow> FRegister \<Rightarrow> (MachineCoreState, unit) exec" where
  "run_cfldsp imm rd_rs1 = run_fld imm reg_sp rd_rs1"

definition run_cfsd :: "i64 \<Rightarrow> XRegister \<Rightarrow> FRegister \<Rightarrow> (MachineCoreState, unit) exec" where
  "run_cfsd imm rs1 rs2 = run_fsd imm rs1 rs2"

definition run_cfsdsp :: "i64 \<Rightarrow> FRegister \<Rightarrow> (MachineCoreState, unit) exec" where
  "run_cfsdsp imm rs2 = run_fsd imm reg_sp rs2"

section \<open>NaN boxing\<close>

lemma ucast_f32_to_fvalue [simp]: "ucast (f32_to_fvalue v) = v"
proof -
  have m: "(0xffffffff00000000 :: u64) = NOT (mask 32)" by (simp add: mask_eq_exp_minus_1)
  show ?thesis unfolding f32_to_fvalue_def m
    by (rule word_bits_eqI) (simp add: bit_ucast_iff bit_or_iff bit_not_iff bit_mask_iff)
qed

lemma upper_f32_to_fvalue [simp]: "drop_bit 32 (f32_to_fvalue v) = 0xffffffff"
proof -
  have m: "(0xffffffff00000000 :: u64) = NOT (mask 32)" "(0xffffffff :: u64) = mask 32"
    by (simp_all add: mask_eq_exp_minus_1)
  show ?thesis unfolding f32_to_fvalue_def m
    by (rule word_bits_eqI)
      (auto simp: bit_ucast_iff bit_or_iff bit_not_iff bit_mask_iff bit_drop_bit_eq dest: bit_word_lt)
qed

lemma fvalue_f32_roundtrip [simp]: "fvalue_to_f32_bits (f32_to_fvalue v) = v"
  by (simp add: fvalue_to_f32_bits_def del: drop_bit_numeral_bit0)

lemma ucast_ucast_fits:
  fixes w :: "128 word"
  assumes "w < 2 ^ LENGTH('b::len)" "LENGTH('b) < 128"
  shows "ucast (ucast w :: 'b word) = w"
proof -
  have "take_bit LENGTH('b) w = w" using assms less_exp_iff_take_bit [of "LENGTH('b)" w] by simp
  then have "i < LENGTH('b)" if "bit w i" for i
    using that unfolding take_bit_eq_iff_bits by (meson not_le)
  then show ?thesis by (intro word_bits_eqI) (auto simp: bit_ucast_iff)
qed

text \<open>The bits of a format determine its values: what \<^verbatim>\<open>to_bits\<close> and \<^verbatim>\<open>from_bits\<close> of the library
  document.\<close>

definition bits_format :: "nat \<Rightarrow> 'f Apfloat \<Rightarrow> bool" where
  "bits_format n ap \<longleftrightarrow>
     (\<forall>x. af_from_bits ap (af_to_bits ap x) = x \<and> af_to_bits ap x < 2 ^ n)"

lemma single_roundtrip:
  assumes "bits_format 32 (lib_single lib)"
  shows "fe_from (Single lib) (fe_into (Single lib) x) = x"
proof -
  let ?b = "af_to_bits (lib_single lib) x"
  have "?b < 2 ^ 32" "af_from_bits (lib_single lib) ?b = x"
    using assms by (simp_all add: bits_format_def)
  then have "ucast (ucast ?b :: u32) = ?b" by (intro ucast_ucast_fits) simp_all
  then show ?thesis
    using \<open>af_from_bits (lib_single lib) ?b = x\<close>
    by (simp add: Single_def fvalue_from_single_def single_from_fvalue_def Let_def)
qed

lemma double_roundtrip:
  assumes "bits_format 64 (lib_double lib)"
  shows "fe_from (Double lib) (fe_into (Double lib) x) = x"
proof -
  let ?b = "af_to_bits (lib_double lib) x"
  have "?b < 2 ^ 64" "af_from_bits (lib_double lib) ?b = x"
    using assms by (simp_all add: bits_format_def)
  then have "ucast (ucast ?b :: u64) = ?b" by (intro ucast_ucast_fits) simp_all
  then show ?thesis
    using \<open>af_from_bits (lib_double lib) ?b = x\<close>
    by (simp add: Double_def fvalue_from_double_def double_from_fvalue_def)
qed

section \<open>The unit is off when mstatus.FS is off\<close>

lemma when_fs_off: "floating_disabled (hart_csrs h) \<Longrightarrow> when_fs_on m h = (Inl IllegalInstruction, h)"
  by (simp add: when_fs_on_def check_fs_on_def)

lemma core_when_fs_off:
  "floating_disabled (hart_csrs (core_hart s)) \<Longrightarrow> core_when_fs_on m s = (Inl IllegalInstruction, s)"
  by (simp add: core_when_fs_on_def check_fs_on_def)

lemma when_fs_on_enabled: "\<not> floating_disabled (hart_csrs h) \<Longrightarrow> when_fs_on m h = m h"
  by (simp add: when_fs_on_def check_fs_on_def)

lemma canonical_nan_bits:
  assumes "af_to_bits (lib_single lib) (af_from_bits (lib_single lib) 0x7fc00000) = 0x7fc00000"
    and "af_to_bits (lib_double lib) (af_from_bits (lib_double lib) 0x7ff8000000000000) = 0x7ff8000000000000"
  shows "fe_into (Single lib) (fe_canonical_nan (Single lib)) = 0xffffffff7fc00000"
    "fe_into (Double lib) (fe_canonical_nan (Double lib)) = 0x7ff8000000000000"
  using assms
  by (simp_all add: Single_def Double_def single_canonical_nan_def double_canonical_nan_def fvalue_from_single_def
      fvalue_from_double_def f32_to_fvalue_def CANONICAL_NAN_BITS_S_def CANONICAL_NAN_BITS_D_def)

end
