(* ===== verification/Instruction_Cache.thy ===== *)
theory Instruction_Cache
  imports Fence_Cache Parser_C Sv_Walk
begin

text \<open>
  The cache of decoded instructions (machine_state/instruction_cache.rs), in its default layout.  The
  closure \<^verbatim>\<open>push_to_block\<close> that the caller passes is a function on the caller's state \<^verbatim>\<open>'b\<close>,
  applied to the validated entry.
\<close>

section \<open>Entries\<close>

definition ICACHE_BITS :: nat where
  "ICACHE_BITS = 16"

text \<open>\<^verbatim>\<open>ValidatedCacheEntry\<close>.\<close>

type_synonym ValidatedCacheEntry = "Address \<times> InstrCacheable"

record ICached =
  ic_fence :: FenceCounter
  ic_phys_addr :: Address
  ic_instr :: InstrCacheable

definition ic_cached_reset :: "ICached \<Rightarrow> ICached" where
  "ic_cached_reset c = c\<lparr>ic_fence := FenceCounter_INITIAL, ic_phys_addr := 0, ic_instr := Unknown 0\<rparr>"

definition ic_cached_invalidate :: "ICached \<Rightarrow> ICached" where
  "ic_cached_invalidate c = c\<lparr>ic_phys_addr := NOT 0\<rparr>"

section \<open>The cache\<close>

record InstructionCache =
  icache_fence :: FenceCounter
  icache_entries :: "nat \<Rightarrow> ICached"

definition icache_reset :: "InstructionCache \<Rightarrow> InstructionCache" where
  "icache_reset c =
     c\<lparr>icache_fence := FenceCounter_INITIAL,
       icache_entries := (\<lambda>i. ic_cached_reset (icache_entries c i))\<rparr>"

definition icache_invalidate :: "InstructionCache \<Rightarrow> InstructionCache" where
  "icache_invalidate c =
     (let counter = icache_fence c;
          i = cache_index ICACHE_BITS (ucast counter) in
      c\<lparr>icache_fence := fence_next counter,
        icache_entries := (icache_entries c)(i := ic_cached_invalidate (icache_entries c i))\<rparr>)"

definition icache_fetch_instr :: "InstructionCache \<Rightarrow> Address \<Rightarrow> InstrCacheable option" where
  "icache_fetch_instr c phys_addr =
     (if phys_addr = 0 then None
      else
        (let cached = icache_entries c (cache_index ICACHE_BITS phys_addr) in
         if ic_phys_addr cached = phys_addr \<and> ic_fence cached = icache_fence c
         then Some (ic_instr cached) else None))"

definition icache_cache_inner :: "Address \<Rightarrow> InstrCacheable \<Rightarrow> InstructionCache \<Rightarrow> InstructionCache" where
  "icache_cache_inner phys_addr instr c =
     (let fence_counter = icache_fence c;
          i = cache_index ICACHE_BITS phys_addr in
      c\<lparr>icache_entries := (icache_entries c)
          (i := (icache_entries c i)\<lparr>ic_instr := instr, ic_phys_addr := phys_addr,
                                     ic_fence := fence_counter\<rparr>)\<rparr>)"

definition cacheable_uncompressed :: "Address \<Rightarrow> bool" where
  "cacheable_uncompressed phys_addr = (phys_addr mod PAGE_SIZE \<noteq> PAGE_SIZE - 2)"

definition cache_compressed ::
  "(ValidatedCacheEntry \<Rightarrow> 'b \<Rightarrow> 'b) \<Rightarrow> Address \<Rightarrow> u16 \<Rightarrow> InstructionCache \<Rightarrow> 'b
     \<Rightarrow> Instr \<times> InstructionCache \<times> 'b" where
  "cache_compressed push_to_block phys_addr raw c b =
     (let instr = parse_compressed_instruction raw in
      case instr of
        Cacheable i \<Rightarrow> (instr, icache_cache_inner phys_addr i c, push_to_block (phys_addr, i) b)
      | Uncacheable _ \<Rightarrow> (instr, c, b))"

definition cache_uncompressed ::
  "(ValidatedCacheEntry \<Rightarrow> 'b \<Rightarrow> 'b) \<Rightarrow> Address \<Rightarrow> u32 \<Rightarrow> InstructionCache \<Rightarrow> 'b
     \<Rightarrow> Instr \<times> InstructionCache \<times> 'b" where
  "cache_uncompressed push_to_block phys_addr raw c b =
     (let instr = parse_uncompressed_instruction raw in
      case instr of
        Cacheable i \<Rightarrow>
          if cacheable_uncompressed phys_addr
          then (instr, icache_cache_inner phys_addr i c, push_to_block (phys_addr, i) b)
          else (instr, c, b)
      | Uncacheable _ \<Rightarrow> (instr, c, b))"

section \<open>Invalidation\<close>

definition ic_live :: "ICached \<Rightarrow> bool" where
  "ic_live c \<longleftrightarrow> ic_phys_addr c \<noteq> 0 \<and> ic_phys_addr c \<noteq> - 1"

interpretation icf: fence_cache ic_live ic_fence ic_cached_invalidate ICACHE_BITS "Suc 0"
  by unfold_locales (simp_all add: ic_live_def ic_cached_invalidate_def ICACHE_BITS_def)

lemma cache_index_counter: "cache_index n (ucast (c :: FenceCounter)) = unat c div 2 mod 2 ^ n"
proof -
  have "unat (drop_bit 1 (ucast c :: Address)) = unat c div 2"
    using unat_ucast_up [of c, where ?'b = 64] by (simp add: drop_bit_eq_div unat_div)
  then show ?thesis by (simp add: cache_index_def)
qed

lemma icache_invalidate_entries:
  "icache_fence (icache_invalidate c) = fence_next (icache_fence c)"
  "icache_entries (icache_invalidate c) =
   (icache_entries c)(icf.due (icache_fence c) :=
      ic_cached_invalidate (icache_entries c (icf.due (icache_fence c))))"
  by (simp_all add: icache_invalidate_def Let_def cache_index_counter icf.due_def)

lemma cache_index_bound: "cache_index n a < 2 ^ n"
  by (simp add: cache_index_def)

abbreviation icache_fresh :: "InstructionCache \<Rightarrow> bool" where
  "icache_fresh c \<equiv> icf.fresh (icache_fence c) (icache_entries c)"

lemma icache_fresh_reset: "icache_fresh (icache_reset c)"
  by (rule icf.fresh_reset) (simp add: icache_reset_def ic_cached_reset_def ic_live_def)

lemma icache_fresh_invalidate: "icache_fresh c \<Longrightarrow> icache_fresh (icache_invalidate c)"
  by (simp add: icache_invalidate_entries icf.fresh_invalidate)

lemma icache_fresh_cache: "icache_fresh c \<Longrightarrow> icache_fresh (icache_cache_inner a i c)"
  by (auto simp: icache_cache_inner_def Let_def intro: icf.fresh_insert)

lemma icache_invalidate_miss:
  assumes "icache_fresh c" "a \<noteq> - 1"
  shows "icache_fetch_instr (icache_invalidate c) a = None"
proof (rule ccontr)
  let ?e = "icache_entries (icache_invalidate c) (cache_index ICACHE_BITS a)"
  assume "\<not> ?thesis"
  then have h: "a \<noteq> 0" "ic_phys_addr ?e = a" "ic_fence ?e = fence_next (icache_fence c)"
    by (auto simp: icache_fetch_instr_def Let_def icache_invalidate_entries(1) split: if_splits)
  then have "ic_live ?e" using assms(2) by (simp add: ic_live_def)
  with icf.invalidate_no_hit [OF assms(1) cache_index_bound] h(3) show False
    by (simp add: icache_invalidate_entries(2))
qed

section \<open>Hits\<close>

text \<open>A hit returns what was cached last at that address.\<close>

lemma icache_fetch_cached [simp]:
  "a \<noteq> 0 \<Longrightarrow> icache_fetch_instr (icache_cache_inner a i c) a = Some i"
  by (simp add: icache_fetch_instr_def icache_cache_inner_def Let_def)

lemma icache_fetch_after_cache:
  assumes "icache_fetch_instr (icache_cache_inner a i c) b = Some j"
  shows "(b = a \<and> j = i) \<or> (b \<noteq> a \<and> icache_fetch_instr c b = Some j)"
  using assms
  by (auto simp: icache_fetch_instr_def icache_cache_inner_def Let_def split: if_splits)

text \<open>What the cache holds was decoded and does not cross a page boundary.\<close>

definition validated :: "Address \<Rightarrow> InstrCacheable \<Rightarrow> bool" where
  "validated a i \<longleftrightarrow>
     (\<exists>raw. parse_compressed_instruction raw = Cacheable i)
     \<or> (\<exists>raw. parse_uncompressed_instruction raw = Cacheable i) \<and> cacheable_uncompressed a"

lemma validatedI:
  "parse_compressed_instruction raw = Cacheable i \<Longrightarrow> validated a i"
  "parse_uncompressed_instruction raw' = Cacheable i \<Longrightarrow> cacheable_uncompressed a \<Longrightarrow> validated a i"
  by (auto simp: validated_def)

definition icache_valid :: "InstructionCache \<Rightarrow> bool" where
  "icache_valid c \<longleftrightarrow> (\<forall>a i. a \<noteq> - 1 \<longrightarrow> icache_fetch_instr c a = Some i \<longrightarrow> validated a i)"

lemma icache_valid_inner: "icache_valid c \<Longrightarrow> validated a i \<Longrightarrow> icache_valid (icache_cache_inner a i c)"
  unfolding icache_valid_def using icache_fetch_after_cache by blast

lemma icache_valid_cache_compressed:
  "icache_valid c \<Longrightarrow> icache_valid (fst (snd (cache_compressed p a raw c b)))"
  by (auto simp: cache_compressed_def Let_def split: Instr.splits
      intro!: icache_valid_inner validatedI)

lemma icache_valid_cache_uncompressed:
  "icache_valid c \<Longrightarrow> icache_valid (fst (snd (cache_uncompressed p a raw c b)))"
  by (auto simp: cache_uncompressed_def Let_def split: Instr.splits
      intro!: icache_valid_inner validatedI(2))

lemma icache_valid_invalidate: "icache_fresh c \<Longrightarrow> icache_valid (icache_invalidate c)"
  by (simp add: icache_valid_def icache_invalidate_miss)

lemma icache_valid_reset: "icache_valid (icache_reset c)"
  by (auto simp: icache_valid_def icache_fetch_instr_def icache_reset_def ic_cached_reset_def)

lemma validated_width:
  assumes "validated a i" "cacheable_width i = Uncompressed"
  shows "cacheable_uncompressed a"
  using assms parse_compressed_width by (auto simp: validated_def) (metis InstrWidth.distinct(1) instr_width.simps(1))

end
