(* ===== verification/Dispatch.thy ===== *)
theory Dispatch
  imports Interp_I Interp_M Interp_A Interp_C Zicsr_Priv Float_SD
begin

text \<open>
  Running one instruction: the macros, \<^verbatim>\<open>run_instr_cacheable\<close> and the handling of its result in
  machine_state.rs.  The match of \<^verbatim>\<open>run_instr_cacheable\<close> is one function per group of
  instructions, in the order of the source; a group function takes the width of the instruction, which
  the macros read from it.
\<close>

section \<open>Macros\<close>

datatype ProgramCounterUpdate = Set Address | Next InstrWidth

definition core_upd_x :: "(XRegisters \<Rightarrow> XRegisters) \<Rightarrow> MachineCoreState \<Rightarrow> MachineCoreState" where
  "core_upd_x f s = s\<lparr>core_hart := (core_hart s)\<lparr>hart_xregs := f (core_xregs s)\<rparr>\<rparr>"

definition run_r_type_instr ::
  "InstrWidth \<Rightarrow> (XRegister \<Rightarrow> XRegister \<Rightarrow> XRegister \<Rightarrow> XRegisters \<Rightarrow> XRegisters) \<Rightarrow> RTypeArgs
     \<Rightarrow> (MachineCoreState, ProgramCounterUpdate) exec" where
  "run_r_type_instr w run_fn a s = (Inr (Next w), core_upd_x (run_fn (r_rs1 a) (r_rs2 a) (r_rd a)) s)"

definition run_i_type_instr ::
  "InstrWidth \<Rightarrow> (i64 \<Rightarrow> XRegister \<Rightarrow> XRegister \<Rightarrow> XRegisters \<Rightarrow> XRegisters) \<Rightarrow> ITypeArgs
     \<Rightarrow> (MachineCoreState, ProgramCounterUpdate) exec" where
  "run_i_type_instr w run_fn a s = (Inr (Next w), core_upd_x (run_fn (it_imm a) (it_rs1 a) (it_rd a)) s)"

definition run_b_type_instr ::
  "(i64 \<Rightarrow> XRegister \<Rightarrow> XRegister \<Rightarrow> HartState \<Rightarrow> Address) \<Rightarrow> SBTypeArgs
     \<Rightarrow> (MachineCoreState, ProgramCounterUpdate) exec" where
  "run_b_type_instr run_fn a s =
     (Inr (Set (run_fn (sb_imm a) (sb_rs1 a) (sb_rs2 a) (core_hart s))), s)"

definition run_u_type_instr ::
  "InstrWidth \<Rightarrow> (i64 \<Rightarrow> XRegister \<Rightarrow> HartState \<Rightarrow> HartState) \<Rightarrow> UJTypeArgs
     \<Rightarrow> (MachineCoreState, ProgramCounterUpdate) exec" where
  "run_u_type_instr w run_fn a s =
     (Inr (Next w), s\<lparr>core_hart := run_fn (uj_imm a) (uj_rd a) (core_hart s)\<rparr>)"

definition run_cr_type_instr ::
  "InstrWidth \<Rightarrow> (XRegister \<Rightarrow> XRegister \<Rightarrow> XRegisters \<Rightarrow> XRegisters) \<Rightarrow> CRTypeArgs
     \<Rightarrow> (MachineCoreState, ProgramCounterUpdate) exec" where
  "run_cr_type_instr w run_fn a s = (Inr (Next w), core_upd_x (run_fn (cr_rd_rs1 a) (cr_rs2 a)) s)"

definition run_ci_type_instr ::
  "InstrWidth \<Rightarrow> (i64 \<Rightarrow> XRegister \<Rightarrow> XRegisters \<Rightarrow> XRegisters) \<Rightarrow> CIBTypeArgs
     \<Rightarrow> (MachineCoreState, ProgramCounterUpdate) exec" where
  "run_ci_type_instr w run_fn a s = (Inr (Next w), core_upd_x (run_fn (cib_imm a) (cib_rd_rs1 a)) s)"

definition run_cb_type_instr ::
  "(i64 \<Rightarrow> XRegister \<Rightarrow> HartState \<Rightarrow> Address) \<Rightarrow> CIBTypeArgs
     \<Rightarrow> (MachineCoreState, ProgramCounterUpdate) exec" where
  "run_cb_type_instr run_fn a s = (Inr (Set (run_fn (cib_imm a) (cib_rd_rs1 a) (core_hart s))), s)"

text \<open>\<^verbatim>\<open>.map(|_| Next(instr.width()))\<close> on a fallible instruction, a method of the hart called
  from the core state, and a jump.\<close>

definition then_next ::
  "InstrWidth \<Rightarrow> (MachineCoreState, unit) exec \<Rightarrow> (MachineCoreState, ProgramCounterUpdate) exec" where
  "then_next w m = and_then m (\<lambda>_ s. (Inr (Next w), s))"

definition on_hart :: "(HartState, 'a) exec \<Rightarrow> (MachineCoreState, 'a) exec" where
  "on_hart m s = (let (r, h) = m (core_hart s) in (r, s\<lparr>core_hart := h\<rparr>))"

definition hart_jump ::
  "(HartState \<Rightarrow> Address \<times> HartState) \<Rightarrow> (MachineCoreState, ProgramCounterUpdate) exec" where
  "hart_jump m s = (let (a, h) = m (core_hart s) in (Inr (Set a), s\<lparr>core_hart := h\<rparr>))"

section \<open>Cacheable instructions\<close>

fun run_instr_R ::
  "InstrWidth \<Rightarrow> InstrR \<Rightarrow> (MachineCoreState, ProgramCounterUpdate) exec" where
  "run_instr_R w (Add a) = run_r_type_instr w run_add a"
| "run_instr_R w (Sub a) = run_r_type_instr w run_sub a"
| "run_instr_R w (Xor a) = run_r_type_instr w run_xor a"
| "run_instr_R w (Or a) = run_r_type_instr w run_or a"
| "run_instr_R w (And a) = run_r_type_instr w run_and a"
| "run_instr_R w (Sll a) = run_r_type_instr w run_sll a"
| "run_instr_R w (Srl a) = run_r_type_instr w run_srl a"
| "run_instr_R w (Sra a) = run_r_type_instr w run_sra a"
| "run_instr_R w (Slt a) = run_r_type_instr w run_slt a"
| "run_instr_R w (Sltu a) = run_r_type_instr w run_sltu a"
| "run_instr_R w (Addw a) = run_r_type_instr w run_addw a"
| "run_instr_R w (Subw a) = run_r_type_instr w run_subw a"
| "run_instr_R w (Sllw a) = run_r_type_instr w run_sllw a"
| "run_instr_R w (Srlw a) = run_r_type_instr w run_srlw a"
| "run_instr_R w (Sraw a) = run_r_type_instr w run_sraw a"

fun run_instr_I ::
  "InstrWidth \<Rightarrow> InstrI \<Rightarrow> (MachineCoreState, ProgramCounterUpdate) exec" where
  "run_instr_I w (Addi a) = run_i_type_instr w run_addi a"
| "run_instr_I w (Addiw a) = run_i_type_instr w run_addiw a"
| "run_instr_I w (Xori a) = run_i_type_instr w run_xori a"
| "run_instr_I w (Ori a) = run_i_type_instr w run_ori a"
| "run_instr_I w (Andi a) = run_i_type_instr w run_andi a"
| "run_instr_I w (Slli a) = run_i_type_instr w run_slli a"
| "run_instr_I w (Srli a) = run_i_type_instr w run_srli a"
| "run_instr_I w (Srai a) = run_i_type_instr w run_srai a"
| "run_instr_I w (Slliw a) = run_i_type_instr w run_slliw a"
| "run_instr_I w (Srliw a) = run_i_type_instr w run_srliw a"
| "run_instr_I w (Sraiw a) = run_i_type_instr w run_sraiw a"
| "run_instr_I w (Slti a) = run_i_type_instr w run_slti a"
| "run_instr_I w (Sltiu a) = run_i_type_instr w run_sltiu a"
| "run_instr_I w (Lb a) = then_next w (run_lb (it_imm a) (it_rs1 a) (it_rd a))"
| "run_instr_I w (Lh a) = then_next w (run_lh (it_imm a) (it_rs1 a) (it_rd a))"
| "run_instr_I w (Lw a) = then_next w (run_lw (it_imm a) (it_rs1 a) (it_rd a))"
| "run_instr_I w (Lbu a) = then_next w (run_lbu (it_imm a) (it_rs1 a) (it_rd a))"
| "run_instr_I w (Lhu a) = then_next w (run_lhu (it_imm a) (it_rs1 a) (it_rd a))"
| "run_instr_I w (Lwu a) = then_next w (run_lwu (it_imm a) (it_rs1 a) (it_rd a))"
| "run_instr_I w (Ld a) = then_next w (run_ld (it_imm a) (it_rs1 a) (it_rd a))"

fun run_instr_S ::
  "InstrWidth \<Rightarrow> InstrS \<Rightarrow> (MachineCoreState, ProgramCounterUpdate) exec" where
  "run_instr_S w (Sb a) = then_next w (run_sb (sb_imm a) (sb_rs1 a) (sb_rs2 a))"
| "run_instr_S w (Sh a) = then_next w (run_sh (sb_imm a) (sb_rs1 a) (sb_rs2 a))"
| "run_instr_S w (Sw a) = then_next w (run_sw (sb_imm a) (sb_rs1 a) (sb_rs2 a))"
| "run_instr_S w (Sd a) = then_next w (run_sd (sb_imm a) (sb_rs1 a) (sb_rs2 a))"

fun run_instr_B ::
  "InstrB \<Rightarrow> (MachineCoreState, ProgramCounterUpdate) exec" where
  "run_instr_B (Beq a) = run_b_type_instr run_beq a"
| "run_instr_B (Bne a) = run_b_type_instr run_bne a"
| "run_instr_B (Blt a) = run_b_type_instr run_blt a"
| "run_instr_B (Bge a) = run_b_type_instr run_bge a"
| "run_instr_B (Bltu a) = run_b_type_instr run_bltu a"
| "run_instr_B (Bgeu a) = run_b_type_instr run_bgeu a"

fun run_instr_U ::
  "InstrWidth \<Rightarrow> InstrU \<Rightarrow> (MachineCoreState, ProgramCounterUpdate) exec" where
  "run_instr_U w (Lui a) = run_u_type_instr w (\<lambda>imm rd h. h\<lparr>hart_xregs := run_lui imm rd (hart_xregs h)\<rparr>) a"
| "run_instr_U w (Auipc a) = run_u_type_instr w run_auipc a"

fun run_instr_J ::
  "InstrJ \<Rightarrow> (MachineCoreState, ProgramCounterUpdate) exec" where
  "run_instr_J (Jal a) = hart_jump (run_jal (uj_imm a) (uj_rd a))"
| "run_instr_J (Jalr a) = hart_jump (run_jalr (it_imm a) (it_rs1 a) (it_rd a))"

fun run_instr_A ::
  "InstrWidth \<Rightarrow> InstrA \<Rightarrow> (MachineCoreState, ProgramCounterUpdate) exec" where
  "run_instr_A w (Lrw a) = then_next w (run_lrw (am_rs1 a) (am_rs2 a) (am_rd a) (am_rl a) (am_aq a))"
| "run_instr_A w (Scw a) = then_next w (run_scw (am_rs1 a) (am_rs2 a) (am_rd a) (am_rl a) (am_aq a))"
| "run_instr_A w (Amoswapw a) = then_next w (run_amoswapw (am_rs1 a) (am_rs2 a) (am_rd a) (am_rl a) (am_aq a))"
| "run_instr_A w (Amoaddw a) = then_next w (run_amoaddw (am_rs1 a) (am_rs2 a) (am_rd a) (am_rl a) (am_aq a))"
| "run_instr_A w (Amoxorw a) = then_next w (run_amoxorw (am_rs1 a) (am_rs2 a) (am_rd a) (am_rl a) (am_aq a))"
| "run_instr_A w (Amoandw a) = then_next w (run_amoandw (am_rs1 a) (am_rs2 a) (am_rd a) (am_rl a) (am_aq a))"
| "run_instr_A w (Amoorw a) = then_next w (run_amoorw (am_rs1 a) (am_rs2 a) (am_rd a) (am_rl a) (am_aq a))"
| "run_instr_A w (Amominw a) = then_next w (run_amominw (am_rs1 a) (am_rs2 a) (am_rd a) (am_rl a) (am_aq a))"
| "run_instr_A w (Amomaxw a) = then_next w (run_amomaxw (am_rs1 a) (am_rs2 a) (am_rd a) (am_rl a) (am_aq a))"
| "run_instr_A w (Amominuw a) = then_next w (run_amominuw (am_rs1 a) (am_rs2 a) (am_rd a) (am_rl a) (am_aq a))"
| "run_instr_A w (Amomaxuw a) = then_next w (run_amomaxuw (am_rs1 a) (am_rs2 a) (am_rd a) (am_rl a) (am_aq a))"
| "run_instr_A w (Lrd a) = then_next w (run_lrd (am_rs1 a) (am_rs2 a) (am_rd a) (am_rl a) (am_aq a))"
| "run_instr_A w (Scd a) = then_next w (run_scd (am_rs1 a) (am_rs2 a) (am_rd a) (am_rl a) (am_aq a))"
| "run_instr_A w (Amoswapd a) = then_next w (run_amoswapd (am_rs1 a) (am_rs2 a) (am_rd a) (am_rl a) (am_aq a))"
| "run_instr_A w (Amoaddd a) = then_next w (run_amoaddd (am_rs1 a) (am_rs2 a) (am_rd a) (am_rl a) (am_aq a))"
| "run_instr_A w (Amoxord a) = then_next w (run_amoxord (am_rs1 a) (am_rs2 a) (am_rd a) (am_rl a) (am_aq a))"
| "run_instr_A w (Amoandd a) = then_next w (run_amoandd (am_rs1 a) (am_rs2 a) (am_rd a) (am_rl a) (am_aq a))"
| "run_instr_A w (Amoord a) = then_next w (run_amoord (am_rs1 a) (am_rs2 a) (am_rd a) (am_rl a) (am_aq a))"
| "run_instr_A w (Amomind a) = then_next w (run_amomind (am_rs1 a) (am_rs2 a) (am_rd a) (am_rl a) (am_aq a))"
| "run_instr_A w (Amomaxd a) = then_next w (run_amomaxd (am_rs1 a) (am_rs2 a) (am_rd a) (am_rl a) (am_aq a))"
| "run_instr_A w (Amominud a) = then_next w (run_amominud (am_rs1 a) (am_rs2 a) (am_rd a) (am_rl a) (am_aq a))"
| "run_instr_A w (Amomaxud a) = then_next w (run_amomaxud (am_rs1 a) (am_rs2 a) (am_rd a) (am_rl a) (am_aq a))"

fun run_instr_M ::
  "InstrWidth \<Rightarrow> InstrM \<Rightarrow> (MachineCoreState, ProgramCounterUpdate) exec" where
  "run_instr_M w (Rem a) = run_r_type_instr w run_rem a"
| "run_instr_M w (Remu a) = run_r_type_instr w run_remu a"
| "run_instr_M w (Remw a) = run_r_type_instr w run_remw a"
| "run_instr_M w (Remuw a) = run_r_type_instr w run_remuw a"
| "run_instr_M w (Div a) = run_r_type_instr w run_div a"
| "run_instr_M w (Divu a) = run_r_type_instr w run_divu a"
| "run_instr_M w (Divw a) = run_r_type_instr w run_divw a"
| "run_instr_M w (Divuw a) = run_r_type_instr w run_divuw a"
| "run_instr_M w (Mul a) = run_r_type_instr w run_mul a"
| "run_instr_M w (Mulh a) = run_r_type_instr w run_mulh a"
| "run_instr_M w (Mulhsu a) = run_r_type_instr w run_mulhsu a"
| "run_instr_M w (Mulhu a) = run_r_type_instr w run_mulhu a"
| "run_instr_M w (Mulw a) = run_r_type_instr w run_mulw a"

fun run_instr_F ::
  "('s, 'd) FloatLib \<Rightarrow> InstrWidth \<Rightarrow> InstrF \<Rightarrow> (MachineCoreState, ProgramCounterUpdate) exec" where
  "run_instr_F lib w (FclassS a) = then_next w (on_hart (run_fclass_s lib (fx_rs1 a) (fx_rd a)))"
| "run_instr_F lib w (Feqs a) = then_next w (on_hart (run_feq_s lib (fc_rs1 a) (fc_rs2 a) (fc_rd a)))"
| "run_instr_F lib w (Fles a) = then_next w (on_hart (run_fle_s lib (fc_rs1 a) (fc_rs2 a) (fc_rd a)))"
| "run_instr_F lib w (Flts a) = then_next w (on_hart (run_flt_s lib (fc_rs1 a) (fc_rs2 a) (fc_rd a)))"
| "run_instr_F lib w (Fadds a) = then_next w (on_hart (run_fadd_s lib (fr2_rs1 a) (fr2_rs2 a) (fr2_rm a) (fr2_rd a)))"
| "run_instr_F lib w (Fsubs a) = then_next w (on_hart (run_fsub_s lib (fr2_rs1 a) (fr2_rs2 a) (fr2_rm a) (fr2_rd a)))"
| "run_instr_F lib w (Fmuls a) = then_next w (on_hart (run_fmul_s lib (fr2_rs1 a) (fr2_rs2 a) (fr2_rm a) (fr2_rd a)))"
| "run_instr_F lib w (Fdivs a) = then_next w (on_hart (run_fdiv_s lib (fr2_rs1 a) (fr2_rs2 a) (fr2_rm a) (fr2_rd a)))"
| "run_instr_F lib w (Fsqrts a) = then_next w (on_hart (run_fsqrt_s lib (fr1_rs1 a) (fr1_rm a) (fr1_rd a)))"
| "run_instr_F lib w (Fmins a) = then_next w (on_hart (run_fmin_s lib (fra_rs1 a) (fra_rs2 a) (fra_rd a)))"
| "run_instr_F lib w (Fmaxs a) = then_next w (on_hart (run_fmax_s lib (fra_rs1 a) (fra_rs2 a) (fra_rd a)))"
| "run_instr_F lib w (Fmadds a) = then_next w (on_hart (run_fmadd_s lib (fr3_rs1 a) (fr3_rs2 a) (fr3_rs3 a) (fr3_rm a) (fr3_rd a)))"
| "run_instr_F lib w (Fmsubs a) = then_next w (on_hart (run_fmsub_s lib (fr3_rs1 a) (fr3_rs2 a) (fr3_rs3 a) (fr3_rm a) (fr3_rd a)))"
| "run_instr_F lib w (Fnmsubs a) = then_next w (on_hart (run_fnmsub_s lib (fr3_rs1 a) (fr3_rs2 a) (fr3_rs3 a) (fr3_rm a) (fr3_rd a)))"
| "run_instr_F lib w (Fnmadds a) = then_next w (on_hart (run_fnmadd_s lib (fr3_rs1 a) (fr3_rs2 a) (fr3_rs3 a) (fr3_rm a) (fr3_rd a)))"
| "run_instr_F lib w (Flw a) = then_next w (run_flw (fl_imm a) (fl_rs1 a) (fl_rd a))"
| "run_instr_F lib w (Fsw a) = then_next w (run_fsw (fs_imm a) (fs_rs1 a) (fs_rs2 a))"
| "run_instr_F lib w (Fcvtsw a) = then_next w (on_hart (run_fcvt_s_w lib (xfr_rs1 a) (xfr_rm a) (xfr_rd a)))"
| "run_instr_F lib w (Fcvtswu a) = then_next w (on_hart (run_fcvt_s_wu lib (xfr_rs1 a) (xfr_rm a) (xfr_rd a)))"
| "run_instr_F lib w (Fcvtsl a) = then_next w (on_hart (run_fcvt_s_l lib (xfr_rs1 a) (xfr_rm a) (xfr_rd a)))"
| "run_instr_F lib w (Fcvtslu a) = then_next w (on_hart (run_fcvt_s_lu lib (xfr_rs1 a) (xfr_rm a) (xfr_rd a)))"
| "run_instr_F lib w (Fcvtws a) = then_next w (on_hart (run_fcvt_w_s lib (fxr_rs1 a) (fxr_rm a) (fxr_rd a)))"
| "run_instr_F lib w (Fcvtwus a) = then_next w (on_hart (run_fcvt_wu_s lib (fxr_rs1 a) (fxr_rm a) (fxr_rd a)))"
| "run_instr_F lib w (Fcvtls a) = then_next w (on_hart (run_fcvt_l_s lib (fxr_rs1 a) (fxr_rm a) (fxr_rd a)))"
| "run_instr_F lib w (Fcvtlus a) = then_next w (on_hart (run_fcvt_lu_s lib (fxr_rs1 a) (fxr_rm a) (fxr_rd a)))"
| "run_instr_F lib w (Fsgnjs a) = then_next w (on_hart (run_fsgnj_s lib (fra_rs1 a) (fra_rs2 a) (fra_rd a)))"
| "run_instr_F lib w (Fsgnjns a) = then_next w (on_hart (run_fsgnjn_s lib (fra_rs1 a) (fra_rs2 a) (fra_rd a)))"
| "run_instr_F lib w (Fsgnjxs a) = then_next w (on_hart (run_fsgnjx_s lib (fra_rs1 a) (fra_rs2 a) (fra_rd a)))"
| "run_instr_F lib w (FmvXW a) = then_next w (on_hart (run_fmv_x_w (fx_rs1 a) (fx_rd a)))"
| "run_instr_F lib w (FmvWX a) = then_next w (on_hart (run_fmv_w_x (xf_rs1 a) (xf_rd a)))"

fun run_instr_D ::
  "('s, 'd) FloatLib \<Rightarrow> InstrWidth \<Rightarrow> InstrD \<Rightarrow> (MachineCoreState, ProgramCounterUpdate) exec" where
  "run_instr_D lib w (FclassD a) = then_next w (on_hart (run_fclass_d lib (fx_rs1 a) (fx_rd a)))"
| "run_instr_D lib w (Feqd a) = then_next w (on_hart (run_feq_d lib (fc_rs1 a) (fc_rs2 a) (fc_rd a)))"
| "run_instr_D lib w (Fled a) = then_next w (on_hart (run_fle_d lib (fc_rs1 a) (fc_rs2 a) (fc_rd a)))"
| "run_instr_D lib w (Fltd a) = then_next w (on_hart (run_flt_d lib (fc_rs1 a) (fc_rs2 a) (fc_rd a)))"
| "run_instr_D lib w (Faddd a) = then_next w (on_hart (run_fadd_d lib (fr2_rs1 a) (fr2_rs2 a) (fr2_rm a) (fr2_rd a)))"
| "run_instr_D lib w (Fsubd a) = then_next w (on_hart (run_fsub_d lib (fr2_rs1 a) (fr2_rs2 a) (fr2_rm a) (fr2_rd a)))"
| "run_instr_D lib w (Fmuld a) = then_next w (on_hart (run_fmul_d lib (fr2_rs1 a) (fr2_rs2 a) (fr2_rm a) (fr2_rd a)))"
| "run_instr_D lib w (Fdivd a) = then_next w (on_hart (run_fdiv_d lib (fr2_rs1 a) (fr2_rs2 a) (fr2_rm a) (fr2_rd a)))"
| "run_instr_D lib w (Fsqrtd a) = then_next w (on_hart (run_fsqrt_d lib (fr1_rs1 a) (fr1_rm a) (fr1_rd a)))"
| "run_instr_D lib w (Fmind a) = then_next w (on_hart (run_fmin_d lib (fra_rs1 a) (fra_rs2 a) (fra_rd a)))"
| "run_instr_D lib w (Fmaxd a) = then_next w (on_hart (run_fmax_d lib (fra_rs1 a) (fra_rs2 a) (fra_rd a)))"
| "run_instr_D lib w (Fmaddd a) = then_next w (on_hart (run_fmadd_d lib (fr3_rs1 a) (fr3_rs2 a) (fr3_rs3 a) (fr3_rm a) (fr3_rd a)))"
| "run_instr_D lib w (Fmsubd a) = then_next w (on_hart (run_fmsub_d lib (fr3_rs1 a) (fr3_rs2 a) (fr3_rs3 a) (fr3_rm a) (fr3_rd a)))"
| "run_instr_D lib w (Fnmsubd a) = then_next w (on_hart (run_fnmsub_d lib (fr3_rs1 a) (fr3_rs2 a) (fr3_rs3 a) (fr3_rm a) (fr3_rd a)))"
| "run_instr_D lib w (Fnmaddd a) = then_next w (on_hart (run_fnmadd_d lib (fr3_rs1 a) (fr3_rs2 a) (fr3_rs3 a) (fr3_rm a) (fr3_rd a)))"
| "run_instr_D lib w (Fld a) = then_next w (run_fld (fl_imm a) (fl_rs1 a) (fl_rd a))"
| "run_instr_D lib w (Fsd a) = then_next w (run_fsd (fs_imm a) (fs_rs1 a) (fs_rs2 a))"
| "run_instr_D lib w (Fcvtdw a) = then_next w (on_hart (run_fcvt_d_w lib (xfr_rs1 a) (xfr_rm a) (xfr_rd a)))"
| "run_instr_D lib w (Fcvtdwu a) = then_next w (on_hart (run_fcvt_d_wu lib (xfr_rs1 a) (xfr_rm a) (xfr_rd a)))"
| "run_instr_D lib w (Fcvtdl a) = then_next w (on_hart (run_fcvt_d_l lib (xfr_rs1 a) (xfr_rm a) (xfr_rd a)))"
| "run_instr_D lib w (Fcvtdlu a) = then_next w (on_hart (run_fcvt_d_lu lib (xfr_rs1 a) (xfr_rm a) (xfr_rd a)))"
| "run_instr_D lib w (Fcvtds a) = then_next w (on_hart (run_fcvt_d_s lib (fr1_rs1 a) (fr1_rm a) (fr1_rd a)))"
| "run_instr_D lib w (Fcvtsd a) = then_next w (on_hart (run_fcvt_s_d lib (fr1_rs1 a) (fr1_rm a) (fr1_rd a)))"
| "run_instr_D lib w (Fcvtwd a) = then_next w (on_hart (run_fcvt_w_d lib (fxr_rs1 a) (fxr_rm a) (fxr_rd a)))"
| "run_instr_D lib w (Fcvtwud a) = then_next w (on_hart (run_fcvt_wu_d lib (fxr_rs1 a) (fxr_rm a) (fxr_rd a)))"
| "run_instr_D lib w (Fcvtld a) = then_next w (on_hart (run_fcvt_l_d lib (fxr_rs1 a) (fxr_rm a) (fxr_rd a)))"
| "run_instr_D lib w (Fcvtlud a) = then_next w (on_hart (run_fcvt_lu_d lib (fxr_rs1 a) (fxr_rm a) (fxr_rd a)))"
| "run_instr_D lib w (Fsgnjd a) = then_next w (on_hart (run_fsgnj_d lib (fra_rs1 a) (fra_rs2 a) (fra_rd a)))"
| "run_instr_D lib w (Fsgnjnd a) = then_next w (on_hart (run_fsgnjn_d lib (fra_rs1 a) (fra_rs2 a) (fra_rd a)))"
| "run_instr_D lib w (Fsgnjxd a) = then_next w (on_hart (run_fsgnjx_d lib (fra_rs1 a) (fra_rs2 a) (fra_rd a)))"
| "run_instr_D lib w (FmvXD a) = then_next w (on_hart (run_fmv_x_d (fx_rs1 a) (fx_rd a)))"
| "run_instr_D lib w (FmvDX a) = then_next w (on_hart (run_fmv_d_x (xf_rs1 a) (xf_rd a)))"

fun run_instr_Csr ::
  "InstrWidth \<Rightarrow> InstrCsr \<Rightarrow> (MachineCoreState, ProgramCounterUpdate) exec" where
  "run_instr_Csr w (Csrrw a) = then_next w (on_hart (run_csrrw (ca_csr a) (ca_rs1 a) (ca_rd a)))"
| "run_instr_Csr w (Csrrs a) = then_next w (on_hart (run_csrrs (ca_csr a) (ca_rs1 a) (ca_rd a)))"
| "run_instr_Csr w (Csrrc a) = then_next w (on_hart (run_csrrc (ca_csr a) (ca_rs1 a) (ca_rd a)))"
| "run_instr_Csr w (Csrrwi a) = then_next w (on_hart (run_csrrwi (ci_csr a) (ci_imm a) (ci_rd a)))"
| "run_instr_Csr w (Csrrsi a) = then_next w (on_hart (run_csrrsi (ci_csr a) (ci_imm a) (ci_rd a)))"
| "run_instr_Csr w (Csrrci a) = then_next w (on_hart (run_csrrci (ci_csr a) (ci_imm a) (ci_rd a)))"

fun run_instr_C32 ::
  "InstrWidth \<Rightarrow> InstrC32 \<Rightarrow> (MachineCoreState, ProgramCounterUpdate) exec" where
  "run_instr_C32 w (CLw a) = then_next w (run_clw (it_imm a) (it_rs1 a) (it_rd a))"
| "run_instr_C32 w (CLwsp a) = then_next w (run_clwsp (cib_imm a) (cib_rd_rs1 a))"
| "run_instr_C32 w (CSw a) = then_next w (run_csw (sb_imm a) (sb_rs1 a) (sb_rs2 a))"
| "run_instr_C32 w (CSwsp a) = then_next w (run_cswsp (css_imm a) (css_rs2 a))"
| "run_instr_C32 w (CJ a) = hart_jump (run_cj (cj_imm a))"
| "run_instr_C32 w (CJr a) = hart_jump (run_cjr (crj_rs1 a))"
| "run_instr_C32 w (CJalr a) = hart_jump (run_cjalr (crj_rs1 a))"
| "run_instr_C32 w (CBeqz a) = run_cb_type_instr run_cbeqz a"
| "run_instr_C32 w (CBnez a) = run_cb_type_instr run_cbnez a"
| "run_instr_C32 w (CLi a) = run_ci_type_instr w run_cli a"
| "run_instr_C32 w (CLui a) = run_ci_type_instr w run_clui a"
| "run_instr_C32 w (CAddi a) = run_ci_type_instr w run_caddi a"
| "run_instr_C32 w (CAddi16sp a) = (\<lambda>s. (Inr (Next w), core_upd_x (run_caddi16sp (cj_imm a)) s))"
| "run_instr_C32 w (CAddi4spn a) = run_ci_type_instr w run_caddi4spn a"
| "run_instr_C32 w (CSlli a) = run_ci_type_instr w run_cslli a"
| "run_instr_C32 w (CSrli a) = run_ci_type_instr w run_csrli a"
| "run_instr_C32 w (CSrai a) = run_ci_type_instr w run_csrai a"
| "run_instr_C32 w (CAndi a) = run_ci_type_instr w run_candi a"
| "run_instr_C32 w (CMv a) = run_cr_type_instr w run_cmv a"
| "run_instr_C32 w (CAdd a) = run_cr_type_instr w run_cadd a"
| "run_instr_C32 w (CAnd a) = run_cr_type_instr w run_cand a"
| "run_instr_C32 w (COr a) = run_cr_type_instr w run_cor a"
| "run_instr_C32 w (CXor a) = run_cr_type_instr w run_cxor a"
| "run_instr_C32 w (CSub a) = run_cr_type_instr w run_csub a"
| "run_instr_C32 w (CAddw a) = run_cr_type_instr w run_caddw a"
| "run_instr_C32 w (CSubw a) = run_cr_type_instr w run_csubw a"
| "run_instr_C32 w CNop = (\<lambda>s. (Inr (Next w), run_cnop s))"

fun run_instr_C64 ::
  "InstrWidth \<Rightarrow> InstrC64 \<Rightarrow> (MachineCoreState, ProgramCounterUpdate) exec" where
  "run_instr_C64 w (CLd a) = then_next w (run_cld (it_imm a) (it_rs1 a) (it_rd a))"
| "run_instr_C64 w (CLdsp a) = then_next w (run_cldsp (cib_imm a) (cib_rd_rs1 a))"
| "run_instr_C64 w (CSd a) = then_next w (run_csd (sb_imm a) (sb_rs1 a) (sb_rs2 a))"
| "run_instr_C64 w (CSdsp a) = then_next w (run_csdsp (css_imm a) (css_rs2 a))"
| "run_instr_C64 w (CAddiw a) = run_ci_type_instr w run_caddiw a"

fun run_instr_DC ::
  "InstrWidth \<Rightarrow> InstrDC \<Rightarrow> (MachineCoreState, ProgramCounterUpdate) exec" where
  "run_instr_DC w (CFld a) = then_next w (run_cfld (fl_imm a) (fl_rs1 a) (fl_rd a))"
| "run_instr_DC w (CFldsp a) = then_next w (run_cfldsp (cibd_imm a) (cibd_rd_rs1 a))"
| "run_instr_DC w (CFsd a) = then_next w (run_cfsd (fs_imm a) (fs_rs1 a) (fs_rs2 a))"
| "run_instr_DC w (CFsdsp a) = then_next w (run_cfsdsp (cssd_imm a) (cssd_rs2 a))"

fun run_instr_cacheable ::
  "('s, 'd) FloatLib \<Rightarrow> InstrCacheable \<Rightarrow> (MachineCoreState, ProgramCounterUpdate) exec" where
  "run_instr_cacheable lib (RV64I_R i) = run_instr_R (cacheable_width (RV64I_R i)) i"
| "run_instr_cacheable lib (RV64I_I i) = run_instr_I (cacheable_width (RV64I_I i)) i"
| "run_instr_cacheable lib (RV64I_S i) = run_instr_S (cacheable_width (RV64I_S i)) i"
| "run_instr_cacheable lib (RV64I_B i) = run_instr_B i"
| "run_instr_cacheable lib (RV64I_U i) = run_instr_U (cacheable_width (RV64I_U i)) i"
| "run_instr_cacheable lib (RV64I_J i) = run_instr_J i"
| "run_instr_cacheable lib (RV64A i) = run_instr_A (cacheable_width (RV64A i)) i"
| "run_instr_cacheable lib (RV64M i) = run_instr_M (cacheable_width (RV64M i)) i"
| "run_instr_cacheable lib (RV64F i) = run_instr_F lib (cacheable_width (RV64F i)) i"
| "run_instr_cacheable lib (RV64D i) = run_instr_D lib (cacheable_width (RV64D i)) i"
| "run_instr_cacheable lib (Zicsr i) = run_instr_Csr (cacheable_width (Zicsr i)) i"
| "run_instr_cacheable lib (RV32C i) = run_instr_C32 (cacheable_width (RV32C i)) i"
| "run_instr_cacheable lib (RV64C i) = run_instr_C64 (cacheable_width (RV64C i)) i"
| "run_instr_cacheable lib (RV64DC i) = run_instr_DC (cacheable_width (RV64DC i)) i"
| "run_instr_cacheable lib (Unknown i) = (\<lambda>s. (Inl IllegalInstruction, s))"
| "run_instr_cacheable lib (UnknownCompressed i) = (\<lambda>s. (Inl IllegalInstruction, s))"

section \<open>The result of a step\<close>

definition core_write_pc :: "Address \<Rightarrow> MachineCoreState \<Rightarrow> MachineCoreState" where
  "core_write_pc pc s = s\<lparr>core_hart := (core_hart s)\<lparr>hart_pc := pc\<rparr>\<rparr>"

definition address_on_exception ::
  "Exception \<Rightarrow> Address \<Rightarrow> MachineCoreState \<Rightarrow> (EnvironException, Address) result \<times> MachineCoreState" where
  "address_on_exception exception current_pc s =
     (case environ_try_from exception of
        Inr exc \<Rightarrow> (Inl exc, core_write_pc current_pc s)
      | Inl _ \<Rightarrow>
          (let (address, h) = take_trap (TrapExc exception) current_pc (core_hart s)
           in (Inr address, s\<lparr>core_hart := h\<rparr>)))"

definition handle_step_result ::
  "Address \<Rightarrow> (Exception, ProgramCounterUpdate) result \<Rightarrow> MachineCoreState
     \<Rightarrow> (EnvironException, Address) result \<times> MachineCoreState" where
  "handle_step_result instr_pc result s =
     (let finish = (\<lambda>pc_update s.
            let pc = (case pc_update of Set address \<Rightarrow> address
                      | Next width \<Rightarrow> instr_pc + width_u64 width)
            in (Inr pc, core_write_pc pc s))
      in case result of
           Inl exc \<Rightarrow>
             (case address_on_exception exc instr_pc s of
                (Inl e, s) \<Rightarrow> (Inl e, s)
              | (Inr address, s) \<Rightarrow> finish (Set address) s)
         | Inr upd \<Rightarrow> finish upd s)"

section \<open>Results of arithmetic instructions\<close>

text \<open>The operands and the destination of an instruction over three registers, and its result as the
  instruction set defines it on integers.\<close>

fun args_R :: "InstrR \<Rightarrow> RTypeArgs" where
  "args_R (Add a) = a" | "args_R (Sub a) = a" | "args_R (Xor a) = a" | "args_R (Or a) = a"
| "args_R (And a) = a" | "args_R (Sll a) = a" | "args_R (Srl a) = a" | "args_R (Sra a) = a"
| "args_R (Slt a) = a" | "args_R (Sltu a) = a" | "args_R (Addw a) = a" | "args_R (Subw a) = a"
| "args_R (Sllw a) = a" | "args_R (Srlw a) = a" | "args_R (Sraw a) = a"

fun args_M :: "InstrM \<Rightarrow> RTypeArgs" where
  "args_M (Rem a) = a" | "args_M (Remu a) = a" | "args_M (Remw a) = a" | "args_M (Remuw a) = a"
| "args_M (Div a) = a" | "args_M (Divu a) = a" | "args_M (Divw a) = a" | "args_M (Divuw a) = a"
| "args_M (Mul a) = a" | "args_M (Mulh a) = a" | "args_M (Mulhsu a) = a" | "args_M (Mulhu a) = a"
| "args_M (Mulw a) = a"

abbreviation wi64 :: "int \<Rightarrow> u64" where "wi64 \<equiv> word_of_int"
abbreviation wi32 :: "int \<Rightarrow> u64" where "wi32 k \<equiv> scast (word_of_int k :: i32)"
abbreviation lo32 :: "u64 \<Rightarrow> u32" where "lo32 x \<equiv> ucast x"

fun isa_R :: "InstrR \<Rightarrow> u64 \<Rightarrow> u64 \<Rightarrow> u64" where
  "isa_R (Add a) x y = wi64 (uint x + uint y)"
| "isa_R (Sub a) x y = wi64 (uint x - uint y)"
| "isa_R (Xor a) x y = x XOR y"
| "isa_R (Or a) x y = x OR y"
| "isa_R (And a) x y = x AND y"
| "isa_R (Sll a) x y = wi64 (uint x * 2 ^ (unat y mod 64))"
| "isa_R (Srl a) x y = wi64 (uint x div 2 ^ (unat y mod 64))"
| "isa_R (Sra a) x y = wi64 (sint x div 2 ^ (unat y mod 64))"
| "isa_R (Slt a) x y = of_bool (sint x < sint y)"
| "isa_R (Sltu a) x y = of_bool (uint x < uint y)"
| "isa_R (Addw a) x y = wi32 (uint x + uint y)"
| "isa_R (Subw a) x y = wi32 (uint x - uint y)"
| "isa_R (Sllw a) x y = wi32 (uint (lo32 x) * 2 ^ (unat y mod 32))"
| "isa_R (Srlw a) x y = wi32 (uint (lo32 x) div 2 ^ (unat y mod 32))"
| "isa_R (Sraw a) x y = wi32 (sint (lo32 x) div 2 ^ (unat y mod 32))"

fun isa_M :: "InstrM \<Rightarrow> u64 \<Rightarrow> u64 \<Rightarrow> u64" where
  "isa_M (Rem a) x y = wi64 (sint x smod sint y)"
| "isa_M (Remu a) x y = wi64 (uint x mod uint y)"
| "isa_M (Remw a) x y = wi32 (sint (lo32 x) smod sint (lo32 y))"
| "isa_M (Remuw a) x y = wi32 (uint (lo32 x) mod uint (lo32 y))"
| "isa_M (Div a) x y = (if y = 0 then - 1 else wi64 (sint x sdiv sint y))"
| "isa_M (Divu a) x y = (if y = 0 then - 1 else wi64 (uint x div uint y))"
| "isa_M (Divw a) x y = (if lo32 y = 0 then - 1 else wi32 (sint (lo32 x) sdiv sint (lo32 y)))"
| "isa_M (Divuw a) x y = (if lo32 y = 0 then - 1 else wi32 (uint (lo32 x) div uint (lo32 y)))"
| "isa_M (Mul a) x y = wi64 (uint x * uint y)"
| "isa_M (Mulh a) x y = wi64 (sint x * sint y div 2 ^ 64)"
| "isa_M (Mulhsu a) x y = wi64 (sint x * uint y div 2 ^ 64)"
| "isa_M (Mulhu a) x y = wi64 (uint x * uint y div 2 ^ 64)"
| "isa_M (Mulw a) x y = wi32 (sint (lo32 x) * sint (lo32 y))"

lemma core_upd_x_write: "core_upd_x (\<lambda>x. xr_write x rd (f x)) s = core_write_x rd (f (core_xregs s)) s"
  by (simp add: core_upd_x_def core_write_x_def)

lemma shift_amount:
  "unat (y AND 63 :: u64) = unat y mod 64" "unat (y AND 31 :: u64) = unat y mod 32"
proof -
  have "(63 :: u64) = mask 6" "(31 :: u64) = mask 5" by (simp_all add: mask_eq_exp_minus_1)
  then show "unat (y AND 63 :: u64) = unat y mod 64" "unat (y AND 31 :: u64) = unat y mod 32"
    by (simp_all only: take_bit_eq_mask [symmetric] unsigned_take_bit_eq take_bit_eq_mod) (simp_all add: unat_mod)
qed

lemma rust_shl_wi:
  fixes v :: "'a::len word"
  assumes "unat n < LENGTH('a)"
  shows "rust_shl v n = word_of_int (uint v * 2 ^ unat n)"
  using assms by (simp add: rust_shl_def push_bit_eq_mult)

lemma rust_shr_wi:
  fixes v :: "'a::len word"
  assumes "unat n < LENGTH('a)"
  shows "rust_shr v n = word_of_int (uint v div 2 ^ unat n)"
  by (simp add: uint_rust_shr [OF assms, symmetric])

lemma rust_sar_wi:
  fixes v :: "'a::len word"
  assumes "unat n < LENGTH('a)"
  shows "rust_sar v n = word_of_int (sint v div 2 ^ unat n)"
  by (simp add: sint_rust_sar [OF assms, symmetric])

lemma ucast_word_of_int_down:
  "(ucast (word_of_int k :: u64) :: u32) = word_of_int k"
  by (rule word_bits_eqI) (simp add: bit_ucast_iff bit_word_of_int_iff)

lemma ucast_shl32:
  "(ucast (x :: u64) :: u32) * 2 ^ n = ucast (x * 2 ^ n)"
  by (rule word_bits_eqI)
    (auto simp: bit_ucast_iff bit_push_bit_iff simp flip: push_bit_eq_mult)

lemma shift_unat_lt: "unat (y AND 63 :: u64) < 64" "unat (y AND 31 :: u64) < 32"
  by (simp_all add: shift_amount)

lemma lo32_arith [simp]: "lo32 (x + y) = lo32 x + lo32 y" "lo32 (x - y) = lo32 x - lo32 y"
  using ucast_word_of_int_down [of "uint x + uint y"] ucast_word_of_int_down [of "uint x - uint y"]
  by simp_all

lemma sint_eq_wi: "sint (a :: 'a::len word) = k \<Longrightarrow> a = word_of_int k"
  by auto

lemma uint_eq_wi: "uint (a :: 'a::len word) = k \<Longrightarrow> a = word_of_int k"
  by auto

lemma run_R_eq:
  "run_instr_R w i s =
   (Inr (Next w), core_write_x (r_rd (args_R i))
      (isa_R i (xr_read (core_xregs s) (r_rs1 (args_R i))) (xr_read (core_xregs s) (r_rs2 (args_R i)))) s)"
proof -
  note [simp] = run_r_type_instr_def core_upd_x_def core_write_x_def Let_def shift_unat_lt shift_amount
    rust_shl_wi rust_shr_wi rust_sar_wi
  show ?thesis
    by (cases i)
      (simp_all add: run_add_def run_sub_def run_xor_def run_or_def run_and_def run_sll_def run_srl_def
        run_sra_def run_slt_def run_sltu_def run_addw_def run_subw_def run_sllw_def run_srlw_def
        run_sraw_def word_sless_alt word_less_def ucast_word_of_int_down ucast_shl32)
qed

lemma mulh_wi:
  "(ucast (signed_drop_bit 64 (scast x * scast y :: 128 word)) :: u64) = word_of_int (sint x * sint y div 2 ^ 64)"
  "(ucast (drop_bit 64 (scast x * ucast y :: 128 word)) :: u64) = word_of_int (sint x * uint y div 2 ^ 64)"
  "(ucast (drop_bit 64 (ucast x * ucast y :: 128 word)) :: u64) = word_of_int (uint x * uint y div 2 ^ 64)"
  for x y :: u64
proof -
  have s: "sint (word_of_int p :: 128 word) = p" if "- (2 ^ 127) \<le> p" "p < 2 ^ 127" for p
    using that by (intro sint_word_of_int_range) simp_all
  show "(ucast (signed_drop_bit 64 (scast x * scast y :: 128 word)) :: u64) = word_of_int (sint x * sint y div 2 ^ 64)"
    unfolding scast_wide_mult(1)
    by (rule sint_eq_wi) (simp only: high_word_signed(1) s product_bounds)
  show "(ucast (drop_bit 64 (scast x * ucast y :: 128 word)) :: u64) = word_of_int (sint x * uint y div 2 ^ 64)"
    unfolding scast_wide_mult(2) high_word_signed(2)
    by (rule sint_eq_wi) (simp only: high_word_signed(1) s product_bounds)
  have "0 \<le> uint (x * y)" "uint (x * y) < 2 ^ 64" using uint_lt2p [of "x * y"] by simp_all
  then have "uint (ucast (drop_bit 64 (ucast x * ucast y :: 128 word)) :: u64) = uint x * uint y div 2 ^ 64"
    unfolding high_low_unsigned [of x y, symmetric] by (simp only: div_mult_self3 div_pos_pos_trivial)
  then show "(ucast (drop_bit 64 (ucast x * ucast y :: 128 word)) :: u64) = word_of_int (uint x * uint y div 2 ^ 64)"
    by (rule uint_eq_wi)
qed

lemma div_result_wi:
  fixes a b :: "'a::len word"
  shows "div_result a b = (if b = 0 then - 1 else word_of_int (sint a sdiv sint b))"
    "rem_result a b = word_of_int (sint a smod sint b)"
proof -
  have m: "sint a = - (2 ^ (LENGTH('a) - 1))" if "a = 2 ^ (LENGTH('a) - 1)"
    using that sint_min_word [of a] by simp
  have "(- (2 ^ (LENGTH('a) - 1)) :: int) smod - 1 = 0" by (simp add: signed_modulo_int_def)
  with m show "div_result a b = (if b = 0 then - 1 else word_of_int (sint a sdiv sint b))"
    "rem_result a b = word_of_int (sint a smod sint b)"
    by (auto simp: div_result_def rem_result_def rust_sdiv_def rust_srem_def)
qed

lemma run_M_eq:
  "run_instr_M w i s =
   (Inr (Next w), core_write_x (r_rd (args_M i))
      (isa_M i (xr_read (core_xregs s) (r_rs1 (args_M i))) (xr_read (core_xregs s) (r_rs2 (args_M i)))) s)"
proof -
  note [simp] = run_r_type_instr_def core_upd_x_def core_write_x_def Let_def
  have mul: "run_mulh a b d x = xr_write x d (wi64 (sint (xr_read x a) * sint (xr_read x b) div 2 ^ 64))"
    "run_mulhsu a b d x = xr_write x d (wi64 (sint (xr_read x a) * uint (xr_read x b) div 2 ^ 64))"
    "run_mulhu a b d x = xr_write x d (wi64 (uint (xr_read x a) * uint (xr_read x b) div 2 ^ 64))" for a b d x
    unfolding run_mulh_def run_mulhsu_def run_mulhu_def Let_def mulh_wi by (rule refl)+
  show ?thesis
    by (cases i)
      (simp_all add: run_div_eq run_rem_eq run_divw_eq run_remw_eq run_mul_def run_mulw_def mul div_result_wi
        run_divu_def run_remu_def run_divuw_def run_remuw_def word_div_def word_mod_def)
qed

section \<open>What a cacheable instruction leaves alone\<close>

definition core_frame :: "MachineCoreState \<Rightarrow> MachineCoreState \<Rightarrow> bool" where
  "core_frame s s' \<longleftrightarrow>
     hart_mode (core_hart s') = hart_mode (core_hart s) \<and> hart_pc (core_hart s') = hart_pc (core_hart s)
     \<and> bus_BYTES (core_bus s') = bus_BYTES (core_bus s)
     \<and> (tcache_wf (core_tcache s) \<longrightarrow> tcache_wf (core_tcache s'))
     \<and> (\<forall>misa. csr_wf misa (hart_csrs (core_hart s)) \<longrightarrow> csr_wf misa (hart_csrs (core_hart s')))"

definition frames :: "(MachineCoreState, 'a) exec \<Rightarrow> bool" where
  "frames m \<longleftrightarrow> (\<forall>s. core_frame s (snd (m s)))"

lemma core_frame_refl: "core_frame s s"
  by (simp add: core_frame_def)

lemma core_frame_trans: "core_frame s t \<Longrightarrow> core_frame t u \<Longrightarrow> core_frame s u"
  by (simp add: core_frame_def)

lemma frames_pair: "frames m \<Longrightarrow> m s = (r, t) \<Longrightarrow> core_frame s t"
  by (metis frames_def snd_conv)

lemma framesI: "(\<And>s. core_frame s (snd (m s))) \<Longrightarrow> frames m"
  by (simp add: frames_def)

lemma frames_at: "frames m \<Longrightarrow> core_frame s (snd (m s))"
  by (simp add: frames_def)

named_theorems frame_intros

lemma frames_and_then [frame_intros]:
  "frames m \<Longrightarrow> (\<And>a. frames (f a)) \<Longrightarrow> frames (and_then m f)"
  unfolding frames_def and_then_def
  by (auto split: prod.splits sum.splits intro: core_frame_trans) (metis core_frame_trans snd_conv)+

lemma frames_pure [frame_intros]:
  "(\<And>s. core_frame s (g s)) \<Longrightarrow> frames (\<lambda>s. (r s, g s))"
  by (simp add: frames_def)

lemma frames_then_next [frame_intros]: "frames m \<Longrightarrow> frames (then_next w m)"
  unfolding then_next_def by (intro frames_and_then frames_pure core_frame_refl)

lemma frames_translate [frame_intros]: "frames (translate va t)"
  unfolding frames_def core_frame_def
  using translate_frame [of va t] translate_wf [of _ va t] by (metis surjective_pairing)

lemma core_write_x_frame: "core_frame s (core_write_x rd v s)" "core_frame s (core_upd_x f s)"
  by (simp_all add: core_frame_def core_upd_x_def)

lemma frames_read [frame_intros]: "frames (read_from_address a)" "frames (read_from_bus imm rs1)"
proof -
  show r: "frames (read_from_address a)" for a
    unfolding read_from_address_def by (intro frames_and_then frames_translate frames_pure core_frame_refl)
  show "frames (read_from_bus imm rs1)"
    by (rule framesI) (simp add: read_from_bus_def frames_at r)
qed

lemma frames_write [frame_intros]: "frames (write_to_address a v)" "frames (write_to_bus imm rs1 v)"
proof -
  show r: "frames (write_to_address a v)" for a
    unfolding write_to_address_def
  proof (intro frames_and_then frames_translate)
    fix pa
    show "frames (\<lambda>s. case bus_write (core_bus s) pa v of Inl OutOfBounds \<Rightarrow> (Inl (StoreAMOAccessFault pa), s)
      | Inr bus \<Rightarrow> (Inr (), s\<lparr>core_bus := bus\<rparr>))"
      using bus_write_layout(1)
      by (auto simp: frames_def core_frame_def split: sum.splits OutOfBounds.splits)
  qed
  show "frames (write_to_bus imm rs1 v)"
    by (rule framesI) (simp add: write_to_bus_def frames_at r)
qed

lemma frames_loads [frame_intros]:
  "frames (run_ld imm rs1 rd)" "frames (run_lw imm rs1 rd)" "frames (run_lh imm rs1 rd)"
  "frames (run_lb imm rs1 rd)" "frames (run_lwu imm rs1 rd)" "frames (run_lhu imm rs1 rd)"
  "frames (run_lbu imm rs1 rd)"
  unfolding run_ld_def run_lw_def run_lh_def run_lb_def run_lwu_def run_lhu_def run_lbu_def
  by (intro frame_intros core_write_x_frame)+

lemma frames_stores [frame_intros]:
  "frames (run_sd imm rs1 rs2)" "frames (run_sw imm rs1 rs2)" "frames (run_sh imm rs1 rs2)"
  "frames (run_sb imm rs1 rs2)"
  by (rule framesI, simp add: run_sd_def run_sw_def run_sh_def run_sb_def frames_at frames_write)+

lemma frames_if: "frames m \<Longrightarrow> frames n \<Longrightarrow> frames (\<lambda>s. if P s then m s else n s)"
  by (simp add: frames_def)

lemma core_frame_set_reservation: "core_frame s (core_set_reservation r s)"
  by (simp add: core_frame_def)

lemma core_frame_steps:
  "core_frame s t \<Longrightarrow> core_frame s (core_write_x rd v t)"
  "core_frame s t \<Longrightarrow> core_frame s (core_set_reservation r t)"
  "core_frame s t \<Longrightarrow> core_frame s (snd (write_to_address a u t))"
  using core_frame_trans [OF _ frames_at [OF frames_write(1)]] by (simp_all add: core_frame_def)

lemma frames_atomics [frame_intros]:
  "frames (run_lr rs1 rd from)" "frames (run_sc rs1 rs2 rd to)" "frames (run_amo rs1 rs2 rd f to' from')"
proof -
  show "frames (run_lr rs1 rd from)"
  proof (rule framesI)
    fix s
    obtain r t where rt: "read_from_address (xr_read (core_xregs s) rs1) s = (r :: (Exception, 'a word) result, t)"
      by (metis surjective_pairing)
    then have "core_frame s t" by (rule frames_pair [OF frames_read(1)])
    then show "core_frame s (snd (run_lr rs1 rd from s))"
      by (auto simp: run_lr_def Let_def core_frame_refl and_then_def rt split: sum.split
          intro: core_frame_steps)
  qed
  show "frames (run_sc rs1 rs2 rd to)"
    by (rule framesI)
      (auto simp: run_sc_def Let_def split: prod.split intro!: core_frame_steps core_frame_refl)
  show "frames (run_amo rs1 rs2 rd f to' from')"
  proof (rule framesI)
    fix s
    obtain r t where rt: "read_from_address (xr_read (core_xregs s) rs1) s = (r :: (Exception, 'c word) result, t)"
      by (metis surjective_pairing)
    then have "core_frame s t" by (rule frames_pair [OF frames_read(1)])
    then show "core_frame s (snd (run_amo rs1 rs2 rd f to' from' s))"
      by (auto simp: run_amo_def Let_def core_frame_refl and_then_def rt split: sum.split
          intro: core_frame_steps)
  qed
qed

lemma frames_on_hart:
  assumes "\<And>h. hart_mode (snd (m h)) = hart_mode h \<and> hart_pc (snd (m h)) = hart_pc h
    \<and> (\<forall>misa. csr_wf misa (hart_csrs h) \<longrightarrow> csr_wf misa (hart_csrs (snd (m h))))"
  shows "frames (on_hart m)"
  using assms by (intro framesI) (simp add: on_hart_def Let_def core_frame_def case_prod_beta)

lemma hart_put_mode [simp]:
  "hart_mode (hart_put_f rd v h) = hart_mode h" "hart_mode (hart_put_x rx w h) = hart_mode h"
  "hart_mode (hart_upd_csrs f h) = hart_mode h" "hart_pc (hart_upd_csrs f h) = hart_pc h"
  "hart_csrs (hart_upd_csrs f h) = f (hart_csrs h)"
  "hart_csrs (hart_put_f rd v h) = hart_csrs h" "hart_csrs (hart_put_x rx w h) = hart_csrs h"
  by (simp_all add: hart_put_f_def hart_put_x_def hart_upd_csrs_def)

lemma csr_wf_flags:
  "csr_wf misa c \<Longrightarrow> csr_wf misa (snd (csr_set_bits c r b))" "csr_wf misa c \<Longrightarrow> csr_wf misa (set_exception_flag fl c)"
  "csr_wf misa c \<Longrightarrow> csr_wf misa (set_exception_flag_status st c)"
  "csr_wf misa (hart_csrs h) \<Longrightarrow> csr_wf misa (hart_csrs (raise_status st h))"
  by (simp_all add: csr_set_bits_def set_exception_flag_def set_exception_flag_status_def raise_status_def
      csr_wf_write Let_def)

text \<open>Instructions over the hart that keep its mode and its program counter, and the legality of its
  control and status registers.\<close>

definition hart_frames :: "(HartState, 'a) exec \<Rightarrow> bool" where
  "hart_frames m \<longleftrightarrow> (\<forall>h. hart_mode (snd (m h)) = hart_mode h \<and> hart_pc (snd (m h)) = hart_pc h
       \<and> (\<forall>misa. csr_wf misa (hart_csrs h) \<longrightarrow> csr_wf misa (hart_csrs (snd (m h)))))"

lemma frames_on_hart_frames [frame_intros]: "hart_frames m \<Longrightarrow> frames (on_hart m)"
  by (rule frames_on_hart) (simp add: hart_frames_def)

lemma hart_frames_csr [frame_intros]:
  "hart_frames (run_csrrw csr rs1 rd)" "hart_frames (run_csrrwi csr imm rd)"
  "hart_frames (run_csrrs csr rs1 rd)" "hart_frames (run_csrrsi csr imm rd)"
  "hart_frames (run_csrrc csr rs1 rd)" "hart_frames (run_csrrci csr imm rd)"
  by (simp_all add: hart_frames_def csr_instr_rmw csr_rmw_def Let_def csr_wf_write)

lemma hart_frames_when [frame_intros]: "hart_frames m \<Longrightarrow> hart_frames (when_fs_on m)"
  by (simp add: hart_frames_def when_fs_on_def split: sum.split)

lemma hart_frames_generic [frame_intros]:
  "hart_frames (f_arith_2 F rs1 rs2 rm rd f)" "hart_frames (f_arith_3 F rs1 rs2 rs3 rm rd g)"
  "hart_frames (run_fcvt_int_fmt F xs rm rd cast cvt)" "hart_frames (run_fcvt_fmt_fmt F T conv rs1 rm rd)"
  "hart_frames (run_fcvt_fmt_int F rs1 rm xd cast' cvt')"
  "hart_frames (pure_exec (run_fclass F rs1 xd))" "hart_frames (pure_exec (run_feq F rs1 rs2 xd))"
  "hart_frames (pure_exec (run_flt F rs1 rs2 xd))" "hart_frames (pure_exec (run_fle F rs1 rs2 xd))"
  "hart_frames (pure_exec (min_max F rs1 rs2 rd cmp))"
  "hart_frames (pure_exec (f_sign_injection F rs1 rs2 rd p))"
  by (auto simp: hart_frames_def f_arith_2_def f_arith_3_def run_fcvt_int_fmt_def run_fcvt_fmt_fmt_def
      run_fcvt_fmt_int_def pure_exec_def run_fclass_def run_feq_def run_flt_def run_fle_def min_max_def
      f_sign_injection_def Let_def csr_wf_flags split: sum.split prod.split)

lemmas float_arith_defs =
  run_fadd_def run_fsub_def run_fmul_def run_fdiv_def run_fmadd_def run_fmsub_def run_fnmsub_def
  run_fnmadd_def run_fmin_def run_fmax_def run_fsgnj_def run_fsgnjn_def run_fsgnjx_def

lemmas float_s_defs =
  run_fclass_s_def run_feq_s_def run_fle_s_def run_flt_s_def run_fadd_s_def run_fsub_s_def run_fmul_s_def
  run_fdiv_s_def run_fmin_s_def run_fmax_s_def run_fmadd_s_def run_fmsub_s_def run_fnmsub_s_def
  run_fnmadd_s_def run_fcvt_s_w_def run_fcvt_s_wu_def run_fcvt_s_l_def run_fcvt_s_lu_def run_fcvt_w_s_def
  run_fcvt_wu_s_def run_fcvt_l_s_def run_fcvt_lu_s_def run_fsgnj_s_def run_fsgnjn_s_def run_fsgnjx_s_def

lemmas float_d_defs =
  run_fclass_d_def run_feq_d_def run_fle_d_def run_flt_d_def run_fadd_d_def run_fsub_d_def run_fmul_d_def
  run_fdiv_d_def run_fmin_d_def run_fmax_d_def run_fmadd_d_def run_fmsub_d_def run_fnmsub_d_def
  run_fnmadd_d_def run_fcvt_d_w_def run_fcvt_d_wu_def run_fcvt_d_l_def run_fcvt_d_lu_def run_fcvt_w_d_def
  run_fcvt_wu_d_def run_fcvt_l_d_def run_fcvt_lu_d_def run_fsgnj_d_def run_fsgnjn_d_def run_fsgnjx_d_def
  run_fcvt_d_s_def run_fcvt_s_d_def

lemma hart_frames_direct [frame_intros]:
  "hart_frames (run_fsqrt_s lib rs1 rm rd)" "hart_frames (run_fsqrt_d lib rs1 rm rd)"
  "hart_frames (run_fmv_x_w rs1 xd)" "hart_frames (run_fmv_w_x xs rd)"
  "hart_frames (run_fmv_x_d rs1 xd)" "hart_frames (run_fmv_d_x xs rd)"
  by (auto simp: hart_frames_def run_fsqrt_s_def run_fsqrt_d_def run_fmv_x_w_def run_fmv_w_x_def
      run_fmv_x_d_def run_fmv_d_x_def when_fs_on_def Let_def csr_wf_flags split: sum.split prod.split)

lemma frames_core_when [frame_intros]: "frames m \<Longrightarrow> frames (core_when_fs_on m)"
  by (simp add: frames_def core_when_fs_on_def core_frame_refl split: sum.split)

lemma core_put_f_frame: "core_frame s (core_put_f rd v s)"
  by (simp add: core_frame_def core_put_f_def)

lemma frames_float_mem [frame_intros]:
  "frames (run_flw imm rs1 fd)" "frames (run_fld imm rs1 fd)"
  "frames (run_fsw imm rs1 fd)" "frames (run_fsd imm rs1 fd)"
proof -
  show "frames (run_flw imm rs1 fd)" "frames (run_fld imm rs1 fd)"
    unfolding run_flw_def run_fld_def Let_def by (intro frame_intros core_put_f_frame)+
  show "frames (run_fsw imm rs1 fd)" "frames (run_fsd imm rs1 fd)"
    unfolding run_fsw_def run_fsd_def Let_def
    by (intro frame_intros framesI; simp add: frames_at frames_write)+
qed

lemma frames_groups:
  "frames (run_instr_R w ir)" "frames (run_instr_I w ii)" "frames (run_instr_S w ist)" "frames (run_instr_B ib)"
  "frames (run_instr_U w iu)" "frames (run_instr_J ij)" "frames (run_instr_M w im)"
  "frames (run_instr_A w ia)" "frames (run_instr_Csr w icsr)"
proof -
  note [simp] = run_r_type_instr_def run_i_type_instr_def run_b_type_instr_def run_u_type_instr_def
    core_write_x_frame core_frame_refl
  show "frames (run_instr_R w ir)" "frames (run_instr_M w im)"
    by (rule framesI, simp add: run_R_eq run_M_eq)+
  show "frames (run_instr_B ib)" by (cases ib; simp add: frames_def)
  show "frames (run_instr_U w iu)"
    by (cases iu; simp add: frames_def core_frame_def run_auipc_def)
  show "frames (run_instr_J ij)"
    by (cases ij; simp add: frames_def core_frame_def hart_jump_def run_jal_def run_jal_impl_def
        run_jalr_def run_jalr_impl_def Let_def)
  show "frames (run_instr_I w ii)"
    by (cases ii; (simp; intro frame_intros)?; simp add: frames_def)
  show "frames (run_instr_S w ist)" by (cases ist; simp; intro frame_intros)
  show "frames (run_instr_A w ia)"
    by (cases ia; simp add: run_lrw_def run_lrd_def run_scw_def run_scd_def run_amoswapw_def run_amoaddw_def
        run_amoxorw_def run_amoandw_def run_amoorw_def run_amominw_def run_amomaxw_def run_amominuw_def
        run_amomaxuw_def run_amoswapd_def run_amoaddd_def run_amoxord_def run_amoandd_def run_amoord_def
        run_amomind_def run_amomaxd_def run_amominud_def run_amomaxud_def run_amo_w_def run_amo_d_def;
        intro frame_intros)
  show "frames (run_instr_Csr w icsr)" by (cases icsr; simp; intro frame_intros)
qed

lemma frames_groups_float:
  "frames (run_instr_F lib w if')" "frames (run_instr_D lib w id')"
proof -
  show "frames (run_instr_F lib w if')"
    by (cases if'; simp only: run_instr_F.simps float_s_defs float_arith_defs; intro frame_intros)
  show "frames (run_instr_D lib w id')"
    by (cases id'; simp only: run_instr_D.simps float_d_defs float_arith_defs; intro frame_intros)
qed

lemma frames_groups_compressed:
  "frames (run_instr_C32 w ic)" "frames (run_instr_C64 w ic')" "frames (run_instr_DC w ic'')"
proof -
  note [simp] = run_cr_type_instr_def run_ci_type_instr_def run_cb_type_instr_def core_write_x_frame core_frame_refl
  show "frames (run_instr_C32 w ic)"
    by (cases ic; simp add: run_clw_def run_clwsp_def run_csw_def run_cswsp_def;
        (intro frame_intros)?;
        simp add: frames_def core_frame_def hart_jump_def run_cj_def run_cjr_def run_cjalr_def run_jal_def
          run_jal_impl_def run_jalr_impl_def run_cnop_def core_upd_x_def Let_def)
  show "frames (run_instr_C64 w ic')"
    by (cases ic'; simp add: run_cld_def run_cldsp_def run_csd_def run_csdsp_def;
        (intro frame_intros)?; simp add: frames_def)
  show "frames (run_instr_DC w ic'')"
    by (cases ic''; simp add: run_cfld_def run_cfldsp_def run_cfsd_def run_cfsdsp_def; intro frame_intros)
qed

lemma run_instr_cacheable_frames: "frames (run_instr_cacheable lib i)"
  by (cases i) (simp_all add: frames_groups frames_groups_float frames_groups_compressed,
      simp_all add: frames_def core_frame_refl)

section \<open>Disabled floating point\<close>

fun is_float :: "InstrCacheable \<Rightarrow> bool" where
  "is_float (RV64F _) = True"
| "is_float (RV64D _) = True"
| "is_float (RV64DC _) = True"
| "is_float _ = False"

lemmas fs_guarded =
  run_fclass_s_def run_feq_s_def run_fle_s_def run_flt_s_def run_fadd_s_def run_fsub_s_def
  run_fmul_s_def run_fdiv_s_def run_fsqrt_s_def run_fmin_s_def run_fmax_s_def run_fmadd_s_def
  run_fmsub_s_def run_fnmsub_s_def run_fnmadd_s_def run_fcvt_s_w_def run_fcvt_s_wu_def
  run_fcvt_s_l_def run_fcvt_s_lu_def run_fcvt_w_s_def run_fcvt_wu_s_def run_fcvt_l_s_def
  run_fcvt_lu_s_def run_fsgnj_s_def run_fsgnjn_s_def run_fsgnjx_s_def run_fmv_x_w_def
  run_fmv_w_x_def run_fclass_d_def run_feq_d_def run_fle_d_def run_flt_d_def run_fadd_d_def
  run_fsub_d_def run_fmul_d_def run_fdiv_d_def run_fsqrt_d_def run_fmin_d_def run_fmax_d_def
  run_fmadd_d_def run_fmsub_d_def run_fnmsub_d_def run_fnmadd_d_def run_fcvt_d_w_def
  run_fcvt_d_wu_def run_fcvt_d_l_def run_fcvt_d_lu_def run_fcvt_d_s_def run_fcvt_s_d_def
  run_fcvt_w_d_def run_fcvt_wu_d_def run_fcvt_l_d_def run_fcvt_lu_d_def run_fsgnj_d_def
  run_fsgnjn_d_def run_fsgnjx_d_def run_fmv_d_x_def run_fmv_x_d_def run_flw_def run_fsw_def
  run_fld_def run_fsd_def run_cfld_def run_cfldsp_def run_cfsd_def run_cfsdsp_def

lemma on_hart_fs_off:
  "floating_disabled (hart_csrs (core_hart s)) \<Longrightarrow> on_hart (when_fs_on m) s = (Inl IllegalInstruction, s)"
  by (simp add: on_hart_def when_fs_off)

lemma then_next_error: "m s = (Inl e, s) \<Longrightarrow> then_next w m s = (Inl e, s)"
  by (simp add: then_next_def and_then_def)

lemma run_float_off:
  assumes "floating_disabled (hart_csrs (core_hart s))"
  shows "run_instr_F lib w i s = (Inl IllegalInstruction, s)"
    "run_instr_D lib w j s = (Inl IllegalInstruction, s)"
    "run_instr_DC w k s = (Inl IllegalInstruction, s)"
  subgoal by (cases i) (simp_all add: fs_guarded then_next_error on_hart_fs_off core_when_fs_off assms)
  subgoal by (cases j) (simp_all add: fs_guarded then_next_error on_hart_fs_off core_when_fs_off assms)
  subgoal by (cases k) (simp_all add: fs_guarded then_next_error on_hart_fs_off core_when_fs_off assms)
  done

section \<open>Atomic memory operations of the instruction set\<close>

datatype AmoOp = AmoSwap | AmoAdd | AmoXor | AmoAnd | AmoOr | AmoMin | AmoMax | AmoMinu | AmoMaxu

text \<open>The combination of the value in memory with the second operand.\<close>

fun isa_amo :: "AmoOp \<Rightarrow> 'a::len word \<Rightarrow> 'a word \<Rightarrow> 'a word" where
  "isa_amo AmoSwap x y = y"
| "isa_amo AmoAdd x y = word_of_int (uint x + uint y)"
| "isa_amo AmoXor x y = x XOR y"
| "isa_amo AmoAnd x y = x AND y"
| "isa_amo AmoOr x y = x OR y"
| "isa_amo AmoMin x y = word_of_int (min (sint x) (sint y))"
| "isa_amo AmoMax x y = word_of_int (max (sint x) (sint y))"
| "isa_amo AmoMinu x y = word_of_int (min (uint x) (uint y))"
| "isa_amo AmoMaxu x y = word_of_int (max (uint x) (uint y))"

fun amo_w :: "InstrA \<Rightarrow> (AmoOp \<times> AmoArgs) option" where
  "amo_w (Amoswapw a) = Some (AmoSwap, a)" | "amo_w (Amoaddw a) = Some (AmoAdd, a)"
| "amo_w (Amoxorw a) = Some (AmoXor, a)" | "amo_w (Amoandw a) = Some (AmoAnd, a)"
| "amo_w (Amoorw a) = Some (AmoOr, a)" | "amo_w (Amominw a) = Some (AmoMin, a)"
| "amo_w (Amomaxw a) = Some (AmoMax, a)" | "amo_w (Amominuw a) = Some (AmoMinu, a)"
| "amo_w (Amomaxuw a) = Some (AmoMaxu, a)" | "amo_w _ = None"

fun amo_d :: "InstrA \<Rightarrow> (AmoOp \<times> AmoArgs) option" where
  "amo_d (Amoswapd a) = Some (AmoSwap, a)" | "amo_d (Amoaddd a) = Some (AmoAdd, a)"
| "amo_d (Amoxord a) = Some (AmoXor, a)" | "amo_d (Amoandd a) = Some (AmoAnd, a)"
| "amo_d (Amoord a) = Some (AmoOr, a)" | "amo_d (Amomind a) = Some (AmoMin, a)"
| "amo_d (Amomaxd a) = Some (AmoMax, a)" | "amo_d (Amominud a) = Some (AmoMinu, a)"
| "amo_d (Amomaxud a) = Some (AmoMaxu, a)" | "amo_d _ = None"

lemma isa_amo_fun:
  "isa_amo AmoSwap = (\<lambda>_ y. y)" "isa_amo AmoAdd = (+)" "isa_amo AmoXor = (XOR)" "isa_amo AmoAnd = (AND)"
  "isa_amo AmoOr = (OR)" "isa_amo AmoMin = smin" "isa_amo AmoMax = smax" "isa_amo AmoMinu = min"
  "isa_amo AmoMaxu = max"
  by (intro ext; simp add: smin_def smax_def min_def max_def word_sle_eq word_le_def)+

lemma run_amo_w_isa:
  assumes "amo_w i = Some (op, a)"
  shows "run_instr_A w i = then_next w (run_amo_w (am_rs1 a) (am_rs2 a) (am_rd a) (isa_amo op))"
  using assms
  by (cases i)
    (auto simp: run_amoswapw_def run_amoaddw_def run_amoxorw_def run_amoandw_def run_amoorw_def run_amominw_def
      run_amomaxw_def run_amominuw_def run_amomaxuw_def isa_amo_fun)

lemma run_amo_d_isa:
  assumes "amo_d i = Some (op, a)"
  shows "run_instr_A w i = then_next w (run_amo_d (am_rs1 a) (am_rs2 a) (am_rd a) (isa_amo op))"
  using assms
  by (cases i)
    (auto simp: run_amoswapd_def run_amoaddd_def run_amoxord_def run_amoandd_def run_amoord_def run_amomind_def
      run_amomaxd_def run_amominud_def run_amomaxud_def isa_amo_fun)

text \<open>Every atomic memory operation at an aligned address in memory, and at a misaligned one.\<close>

lemma amo_misaligned:
  "amo_w i = Some (op, a) \<Longrightarrow> xr_read (core_xregs s) (am_rs1 a) mod 4 \<noteq> 0 \<Longrightarrow>
   run_instr_A w i s = (Inl (StoreAMOAccessFault (xr_read (core_xregs s) (am_rs1 a))), s)"
  "amo_d i = Some (op, a) \<Longrightarrow> xr_read (core_xregs s) (am_rs1 a) mod 8 \<noteq> 0 \<Longrightarrow>
   run_instr_A w i s = (Inl (StoreAMOAccessFault (xr_read (core_xregs s) (am_rs1 a))), s)"
  by (simp_all add: run_amo_w_isa run_amo_d_isa then_next_def run_amo_w_def run_amo_d_def run_amo_misaligned
      elem_size_def)

lemma amo_w_effect:
  fixes v :: u32
  assumes "flat s" "amo_w i = Some (op, a)" "xr_read (core_xregs s) (am_rs1 a) = addr" "addr mod 4 = 0"
    "bus_read (core_bus s) addr = Inr v"
    "bus_write (core_bus s) addr (isa_amo op v (ucast (xr_read (core_xregs s) (am_rs2 a)))) = Inr b"
  shows "\<exists>s'. run_instr_A w i s = (Inr (Next w), s') \<and> core_bus s' = b
    \<and> core_xregs s' = xr_write (core_xregs s) (am_rd a) (scast v)"
proof -
  have "addr mod of_nat (elem_size TYPE(u32)) = 0" using assms(4) by (simp add: elem_size_def)
  from run_amo_flat [OF assms(1,3) this assms(5), of "isa_amo op" "\<lambda>x. ucast x" "am_rs2 a" b "am_rd a" "\<lambda>x. scast x"]
    assms(6) show ?thesis
    by (auto simp: run_amo_w_isa [OF assms(2)] run_amo_w_def then_next_def)
qed

lemma amo_d_effect:
  fixes v :: u64
  assumes "flat s" "amo_d i = Some (op, a)" "xr_read (core_xregs s) (am_rs1 a) = addr" "addr mod 8 = 0"
    "bus_read (core_bus s) addr = Inr v"
    "bus_write (core_bus s) addr (isa_amo op v (xr_read (core_xregs s) (am_rs2 a))) = Inr b"
  shows "\<exists>s'. run_instr_A w i s = (Inr (Next w), s') \<and> core_bus s' = b
    \<and> core_xregs s' = xr_write (core_xregs s) (am_rd a) v"
proof -
  have "addr mod of_nat (elem_size TYPE(u64)) = 0" using assms(4) by (simp add: elem_size_def)
  from run_amo_flat [OF assms(1,3) this assms(5), of "isa_amo op" "\<lambda>x. x" "am_rs2 a" b "am_rd a" "\<lambda>x. x"]
    assms(6) show ?thesis
    by (auto simp: run_amo_d_isa [OF assms(2)] run_amo_d_def then_next_def)
qed

lemma amo_w_case:
  assumes "flat s" "amo_w i = Some (op, a)" "xr_read (core_xregs s) (am_rs1 a) = addr" "addr mod 4 = 0"
  shows "case bus_read (core_bus s) addr of
      Inl _ \<Rightarrow> \<exists>s'. run_instr_A w i s = (Inl (LoadAccessFault addr), s')
        \<and> core_hart s' = core_hart s \<and> core_bus s' = core_bus s
    | Inr v \<Rightarrow> \<exists>s' b. run_instr_A w i s = (Inr (Next w), s') \<and> core_bus s' = b
        \<and> bus_write (core_bus s) addr (isa_amo op (v :: u32) (ucast (xr_read (core_xregs s) (am_rs2 a)))) = Inr b
        \<and> core_xregs s' = xr_write (core_xregs s) (am_rd a) (scast v)"
proof (cases "bus_read (core_bus s) addr :: (OutOfBounds, u32) result")
  case (Inl e)
  have "addr mod of_nat (elem_size TYPE(u32)) = 0" using assms(4) by (simp add: elem_size_def)
  from run_amo_unmapped [OF assms(1,3) this Inl, of "am_rs2 a" "am_rd a" "isa_amo op" "\<lambda>x. ucast x" "\<lambda>x. scast x"] Inl show ?thesis
    by (auto simp: run_amo_w_isa [OF assms(2)] run_amo_w_def then_next_def)
next
  case (Inr v)
  then show ?thesis using amo_w_effect [OF assms Inr] bus_read_write_ok [OF Inr] by fastforce
qed

lemma amo_d_case:
  assumes "flat s" "amo_d i = Some (op, a)" "xr_read (core_xregs s) (am_rs1 a) = addr" "addr mod 8 = 0"
  shows "case bus_read (core_bus s) addr of
      Inl _ \<Rightarrow> \<exists>s'. run_instr_A w i s = (Inl (LoadAccessFault addr), s')
        \<and> core_hart s' = core_hart s \<and> core_bus s' = core_bus s
    | Inr v \<Rightarrow> \<exists>s' b. run_instr_A w i s = (Inr (Next w), s') \<and> core_bus s' = b
        \<and> bus_write (core_bus s) addr (isa_amo op (v :: u64) (xr_read (core_xregs s) (am_rs2 a))) = Inr b
        \<and> core_xregs s' = xr_write (core_xregs s) (am_rd a) v"
proof (cases "bus_read (core_bus s) addr :: (OutOfBounds, u64) result")
  case (Inl e)
  have "addr mod of_nat (elem_size TYPE(u64)) = 0" using assms(4) by (simp add: elem_size_def)
  from run_amo_unmapped [OF assms(1,3) this Inl, of "am_rs2 a" "am_rd a" "isa_amo op" "\<lambda>x. x" "\<lambda>x. x"] Inl show ?thesis
    by (auto simp: run_amo_d_isa [OF assms(2)] run_amo_d_def then_next_def)
next
  case (Inr v)
  then show ?thesis using amo_d_effect [OF assms Inr] bus_read_write_ok [OF Inr] by fastforce
qed

end
