(* ===== verification/Block_Cache.thy ===== *)
theory Block_Cache
  imports Instruction_Cache Dispatch
begin

text \<open>
  The cache of instruction blocks (machine_state/block_cache.rs), in its default layout: building
  blocks from decoded instructions, looking them up, and running them whole or step by step.  Lengths
  and progress within a block are natural numbers: they never exceed \<^verbatim>\<open>CACHE_INSTR\<close> = 20 (lemma
  \<^verbatim>\<open>bcache_inv\<close>), so the \<^verbatim>\<open>u8\<close> of the source does not wrap.
\<close>

section \<open>Entries\<close>

definition PAGE_OFFSET_MASK :: u64 where
  "PAGE_OFFSET_MASK = push_bit PAGE_OFFSET_WIDTH 1 - 1"

definition CACHE_INSTR :: nat where
  "CACHE_INSTR = 20"

definition BCACHE_BITS :: nat where
  "BCACHE_BITS = 20"

record BCached =
  bc_address :: Address
  bc_fence :: FenceCounter
  bc_len_instr :: nat
  bc_instr :: "nat \<Rightarrow> InstrCacheable"

definition bc_invalidate :: "BCached \<Rightarrow> BCached" where
  "bc_invalidate c = c\<lparr>bc_address := 0, bc_len_instr := 0\<rparr>"

definition bc_reset :: "BCached \<Rightarrow> BCached" where
  "bc_reset c = c\<lparr>bc_address := 0, bc_fence := FenceCounter_INITIAL, bc_len_instr := 0,
                  bc_instr := (\<lambda>_. Unknown 0)\<rparr>"

definition bc_start_block :: "Address \<Rightarrow> FenceCounter \<Rightarrow> BCached \<Rightarrow> BCached" where
  "bc_start_block block_addr fence_counter c =
     c\<lparr>bc_address := block_addr, bc_len_instr := 0, bc_fence := fence_counter\<rparr>"

definition bc_block :: "BCached \<Rightarrow> InstrCacheable list" where
  "bc_block c = map (bc_instr c) [0..<bc_len_instr c]"

record PartialBlock =
  pb_phys_addr :: Address
  pb_in_progress :: bool
  pb_progress :: nat

definition partial_reset :: "PartialBlock \<Rightarrow> PartialBlock" where
  "partial_reset p = p\<lparr>pb_in_progress := False, pb_phys_addr := 0, pb_progress := 0\<rparr>"

section \<open>The cache\<close>

record BlockCache =
  bc_current_block_addr :: Address
  bc_next_instr_addr :: Address
  bc_fence_counter :: FenceCounter
  bc_partial_block :: PartialBlock
  bc_entries :: "nat \<Rightarrow> BCached"

abbreviation bc_index :: "Address \<Rightarrow> nat" where
  "bc_index a \<equiv> cache_index BCACHE_BITS a"

abbreviation bc_entry :: "BlockCache \<Rightarrow> Address \<Rightarrow> BCached" where
  "bc_entry b a \<equiv> bc_entries b (bc_index a)"

definition bc_upd_entry :: "Address \<Rightarrow> (BCached \<Rightarrow> BCached) \<Rightarrow> BlockCache \<Rightarrow> BlockCache" where
  "bc_upd_entry a f b = b\<lparr>bc_entries := (bc_entries b)(bc_index a := f (bc_entry b a))\<rparr>"

definition reset_to :: "Address \<Rightarrow> BlockCache \<Rightarrow> BlockCache" where
  "reset_to phys_addr b = b\<lparr>bc_current_block_addr := phys_addr, bc_next_instr_addr := 0\<rparr>"

definition bcache_invalidate :: "BlockCache \<Rightarrow> BlockCache" where
  "bcache_invalidate b =
     (let counter = bc_fence_counter b;
          b = b\<lparr>bc_fence_counter := fence_next counter\<rparr>;
          b = reset_to 0 b
      in bc_upd_entry (ucast counter) bc_invalidate b)"

definition bcache_reset :: "BlockCache \<Rightarrow> BlockCache" where
  "bcache_reset b =
     (let b = b\<lparr>bc_fence_counter := FenceCounter_INITIAL\<rparr>;
          b = reset_to 0 b;
          b = b\<lparr>bc_entries := (\<lambda>i. bc_reset (bc_entries b i))\<rparr>
      in b\<lparr>bc_partial_block := partial_reset (bc_partial_block b)\<rparr>)"

definition bc_push :: "InstrCacheable \<Rightarrow> nat \<Rightarrow> BCached \<Rightarrow> BCached" where
  "bc_push instr len_instr c =
     c\<lparr>bc_instr := (bc_instr c)(len_instr := instr), bc_len_instr := len_instr + 1\<rparr>"

definition bc_cache_inner :: "u64 \<Rightarrow> Address \<Rightarrow> InstrCacheable \<Rightarrow> BlockCache \<Rightarrow> BlockCache" where
  "bc_cache_inner WIDTH phys_addr instr b =
     (let block_addr = bc_current_block_addr b;
          fence_counter = bc_fence_counter b;
          entry = bc_entry b block_addr;
          start = bc_address entry;
          len_instr = bc_len_instr entry;
          (b, block_addr, len_instr) =
            (if start \<noteq> block_addr \<or> bc_address entry = phys_addr
             then (bc_upd_entry block_addr (bc_start_block block_addr fence_counter) b, block_addr, 0)
             else if len_instr = CACHE_INSTR
             then (bc_upd_entry phys_addr (bc_start_block phys_addr fence_counter) (reset_to phys_addr b),
                   phys_addr, 0)
             else (b, block_addr, len_instr));
          b = bc_upd_entry block_addr (bc_push instr len_instr) b
      in b\<lparr>bc_next_instr_addr := phys_addr + WIDTH\<rparr>)"

definition push_instr :: "u64 \<Rightarrow> ValidatedCacheEntry \<Rightarrow> BlockCache \<Rightarrow> BlockCache" where
  "push_instr WIDTH entry b =
     (let (phys_addr, instr) = entry;
          next_addr = bc_next_instr_addr b;
          b = (if phys_addr AND PAGE_OFFSET_MASK = 0 \<or> phys_addr \<noteq> next_addr
               then reset_to phys_addr b else b)
      in bc_cache_inner WIDTH phys_addr instr b)"

definition get_block :: "BlockCache \<Rightarrow> Address \<Rightarrow> InstrCacheable list option" where
  "get_block b phys_addr =
     (let entry = bc_entry b phys_addr in
      if bc_address entry = phys_addr \<and> bc_fence_counter b = bc_fence entry
      then Some (bc_block entry) else None)"

section \<open>Running a block\<close>

text \<open>The loop over the instructions: the result, the program counter of the instruction that stopped
  the loop, the number of steps and the state.\<close>

fun run_block_inner ::
  "('s, 'd) FloatLib \<Rightarrow> InstrCacheable list \<Rightarrow> Address \<Rightarrow> nat \<Rightarrow> MachineCoreState
     \<Rightarrow> (Exception, unit) result \<times> Address \<times> nat \<times> MachineCoreState" where
  "run_block_inner lib [] instr_pc steps core = (Inr (), instr_pc, steps, core)"
| "run_block_inner lib (i # is) instr_pc steps core =
     (case run_instr_cacheable lib i core of
        (Inr (Next width), core) \<Rightarrow>
          (let instr_pc = instr_pc + width_u64 width in
           run_block_inner lib is instr_pc (steps + 1) (core_write_pc instr_pc core))
      | (Inr (Set pc), core) \<Rightarrow> (Inr (), instr_pc, steps + 1, core_write_pc pc core)
      | (Inl e, core) \<Rightarrow> (Inl e, instr_pc, steps, core))"

definition run_block ::
  "('s, 'd) FloatLib \<Rightarrow> InstrCacheable list \<Rightarrow> Address \<Rightarrow> nat \<Rightarrow> MachineCoreState
     \<Rightarrow> (EnvironException, unit) result \<times> nat \<times> MachineCoreState" where
  "run_block lib instrs instr_pc steps core =
     (case run_block_inner lib instrs instr_pc steps core of
        (Inr _, _, steps, core) \<Rightarrow> (Inr (), steps, core)
      | (Inl e, instr_pc, steps, core) \<Rightarrow>
          (case handle_step_result instr_pc (Inl e) core of
             (Inl exc, core) \<Rightarrow> (Inl exc, steps, core)
           | (Inr _, core) \<Rightarrow> (Inr (), steps + 1, core)))"

text \<open>The loop of \<^verbatim>\<open>run_partial_inner\<close>: \<^verbatim>\<open>Some r\<close> when it returned from the function
  with the partial block reset, \<^verbatim>\<open>None\<close> when it left the loop with the progress made.\<close>

fun run_partial_loop ::
  "('s, 'd) FloatLib \<Rightarrow> InstrCacheable list \<Rightarrow> Address \<Rightarrow> nat \<Rightarrow> nat \<Rightarrow> nat \<Rightarrow> MachineCoreState
     \<Rightarrow> (EnvironException, unit) result option \<times> nat \<times> nat \<times> MachineCoreState" where
  "run_partial_loop lib [] instr_pc steps max_steps progress core = (None, progress, steps, core)"
| "run_partial_loop lib (i # is) instr_pc steps max_steps progress core =
     (case run_instr_cacheable lib i core of
        (Inr (Next width), core) \<Rightarrow>
          (let instr_pc = instr_pc + width_u64 width;
               core = core_write_pc instr_pc core;
               steps = steps + 1;
               progress = progress + 1 in
           if steps \<ge> max_steps then (None, progress, steps, core)
           else run_partial_loop lib is instr_pc steps max_steps progress core)
      | (Inr (Set pc), core) \<Rightarrow> (Some (Inr ()), progress, steps + 1, core_write_pc pc core)
      | (Inl e, core) \<Rightarrow>
          (case handle_step_result instr_pc (Inl e) core of
             (Inl exc, core) \<Rightarrow> (Some (Inl exc), progress, steps, core)
           | (Inr _, core) \<Rightarrow> (Some (Inr ()), progress, steps + 1, core)))"

definition run_partial_inner ::
  "('s, 'd) FloatLib \<Rightarrow> BlockCache \<Rightarrow> MachineCoreState \<Rightarrow> nat \<Rightarrow> nat
     \<Rightarrow> (EnvironException, unit) result \<times> BlockCache \<times> MachineCoreState \<times> nat" where
  "run_partial_inner lib b core steps max_steps =
     (if steps \<ge> max_steps then (Inr (), b, core, steps)
      else
        (let progress = pb_progress (bc_partial_block b);
             address = pb_phys_addr (bc_partial_block b);
             entry = bc_entry b address;
             instr_pc = hart_pc (core_hart core);
             reset = b\<lparr>bc_partial_block := partial_reset (bc_partial_block b)\<rparr> in
         case run_partial_loop lib (drop progress (bc_block entry)) instr_pc steps max_steps progress core of
           (Some r, _, steps, core) \<Rightarrow> (r, reset, core, steps)
         | (None, progress, steps, core) \<Rightarrow>
             if progress = bc_len_instr entry then (Inr (), reset, core, steps)
             else (Inr (), b\<lparr>bc_partial_block := (bc_partial_block b)\<lparr>pb_progress := progress\<rparr>\<rparr>, core, steps)))"

definition complete_current_block ::
  "('s, 'd) FloatLib \<Rightarrow> BlockCache \<Rightarrow> MachineCoreState \<Rightarrow> nat \<Rightarrow> nat
     \<Rightarrow> (EnvironException, unit) result \<times> BlockCache \<times> MachineCoreState \<times> nat" where
  "complete_current_block lib b core steps max_steps =
     (if \<not> pb_in_progress (bc_partial_block b) then (Inr (), b, core, steps)
      else run_partial_inner lib b core steps max_steps)"

definition run_block_partial ::
  "('s, 'd) FloatLib \<Rightarrow> Address \<Rightarrow> BlockCache \<Rightarrow> MachineCoreState \<Rightarrow> nat \<Rightarrow> nat
     \<Rightarrow> (EnvironException, unit) result \<times> BlockCache \<times> MachineCoreState \<times> nat" where
  "run_block_partial lib block_addr b core steps max_steps =
     (let b = b\<lparr>bc_partial_block := (bc_partial_block b)
                  \<lparr>pb_in_progress := True, pb_progress := 0, pb_phys_addr := block_addr\<rparr>\<rparr>
      in run_partial_inner lib b core steps max_steps)"

section \<open>What a block holds\<close>

definition instr_bytes :: "InstrCacheable \<Rightarrow> u64" where
  "instr_bytes i = width_u64 (cacheable_width i)"

lemma instr_bytes_cases: "instr_bytes i = 2 \<or> instr_bytes i = 4"
  unfolding instr_bytes_def by (rule width_u64_cases)

lemma unat_instr_bytes: "2 \<le> unat (instr_bytes i)" "unat (instr_bytes i) \<le> 4"
  using instr_bytes_cases [of i] by auto

text \<open>Instructions from address \<^verbatim>\<open>a\<close> on, each of them satisfying \<^verbatim>\<open>P\<close> at its address.\<close>

fun block_at :: "(Address \<Rightarrow> InstrCacheable \<Rightarrow> bool) \<Rightarrow> Address \<Rightarrow> InstrCacheable list \<Rightarrow> bool" where
  "block_at P a [] = True"
| "block_at P a (i # is) = (P a i \<and> block_at P (a + instr_bytes i) is)"

definition block_bytes :: "InstrCacheable list \<Rightarrow> nat" where
  "block_bytes is = (\<Sum>i\<leftarrow>is. unat (instr_bytes i))"

lemma block_bytes_simps [simp]:
  "block_bytes [] = 0"
  "block_bytes (i # is) = unat (instr_bytes i) + block_bytes is"
  "block_bytes (is @ js) = block_bytes is + block_bytes js"
  by (simp_all add: block_bytes_def)

lemma block_at_append [simp]:
  "block_at P a (is @ js) \<longleftrightarrow> block_at P a is \<and> block_at P (a + of_nat (block_bytes is)) js"
  by (induction "is" arbitrary: a) (simp_all add: add.assoc)

lemma block_bytes_bounds: "2 * length is \<le> block_bytes is" "block_bytes is \<le> 4 * length is"
proof (induction "is")
  case (Cons i "is")
  { case 1 show ?case using Cons(1) unat_instr_bytes(1) [of i] by simp }
  { case 2 show ?case using Cons(2) unat_instr_bytes(2) [of i] by simp }
qed simp_all

definition in_page :: "Address \<Rightarrow> InstrCacheable list \<Rightarrow> bool" where
  "in_page a is \<longleftrightarrow> unat a mod 4096 + block_bytes is \<le> 4096"

text \<open>An entry that may be cached at \<^verbatim>\<open>a\<close>: aligned, and not crossing a page.\<close>

definition placed :: "Address \<Rightarrow> InstrCacheable \<Rightarrow> bool" where
  "placed a i \<longleftrightarrow> even (unat a) \<and> (cacheable_width i = Uncompressed \<longrightarrow> cacheable_uncompressed a)"

lemma placed_validated: "validated a i \<Longrightarrow> even (unat a) \<Longrightarrow> placed a i"
  by (simp add: placed_def validated_width)

lemma placed_in_page:
  assumes "placed a i"
  shows "unat a mod 4096 + unat (instr_bytes i) \<le> 4096"
proof -
  have e: "even (unat a mod 4096)" using assms by (simp add: placed_def dvd_mod_iff)
  have lt: "unat a mod 4096 < 4096" by simp
  show ?thesis
  proof (cases "cacheable_width i")
    case Compressed
    then have "unat (instr_bytes i) = 2" by (simp add: instr_bytes_def width_u64_def)
    moreover have "unat a mod 4096 \<noteq> 4095" using e by auto
    ultimately show ?thesis using lt by linarith
  next
    case Uncompressed
    then have "unat (instr_bytes i) = 4" by (simp add: instr_bytes_def width_u64_def)
    moreover have "unat a mod 4096 \<noteq> 4095" "unat a mod 4096 \<noteq> 4093" using e by auto
    moreover have "unat a mod 4096 \<noteq> 4094"
    proof
      assume "unat a mod 4096 = 4094"
      then have "unat (a mod 4096) = unat (4094 :: u64)" by (simp add: unat_mod)
      then have "a mod 4096 = 4094" by (simp only: word_unat_eq_iff)
      then show False using assms Uncompressed
        by (simp add: placed_def cacheable_uncompressed_def PAGE_SIZE_def PAGE_OFFSET_WIDTH_def)
    qed
    ultimately show ?thesis using lt by linarith
  qed
qed

lemma page_start_iff: "a AND PAGE_OFFSET_MASK = 0 \<longleftrightarrow> unat a mod 4096 = 0"
proof -
  have "PAGE_OFFSET_MASK = mask 12"
    by (simp add: PAGE_OFFSET_MASK_def PAGE_OFFSET_WIDTH_def mask_eq_exp_minus_1)
  then have "a AND PAGE_OFFSET_MASK = take_bit 12 a" by (simp only: take_bit_eq_mask)
  then have "unat (a AND PAGE_OFFSET_MASK) = unat a mod 4096"
    by (simp add: take_bit_eq_mod unat_mod)
  then show ?thesis by (simp add: unat_eq_zero [symmetric])
qed

lemma bc_block_length [simp]: "length (bc_block e) = bc_len_instr e"
  by (simp add: bc_block_def)

lemma bc_block_push [simp]:
  "bc_block (bc_push i (bc_len_instr e) e) = bc_block e @ [i]"
  by (simp add: bc_block_def bc_push_def)

lemma bc_push_sel [simp]:
  "bc_address (bc_push i n e) = bc_address e" "bc_fence (bc_push i n e) = bc_fence e"
  "bc_len_instr (bc_push i n e) = n + 1"
  by (simp_all add: bc_push_def)

section \<open>Pushing an instruction\<close>

text \<open>The block of one instruction that a new block starts as.\<close>

definition start_with :: "Address \<Rightarrow> InstrCacheable \<Rightarrow> BlockCache \<Rightarrow> BlockCache" where
  "start_with a i b =
     bc_upd_entry a (\<lambda>e. bc_push i 0 (bc_start_block a (bc_fence_counter b) e))
       (b\<lparr>bc_current_block_addr := a, bc_next_instr_addr := a + instr_bytes i\<rparr>)"

definition extend_with :: "Address \<Rightarrow> InstrCacheable \<Rightarrow> BlockCache \<Rightarrow> BlockCache" where
  "extend_with a i b =
     bc_upd_entry (bc_current_block_addr b) (\<lambda>e. bc_push i (bc_len_instr e) e)
       (b\<lparr>bc_next_instr_addr := a + instr_bytes i\<rparr>)"

definition continues :: "Address \<Rightarrow> BlockCache \<Rightarrow> bool" where
  "continues a b \<longleftrightarrow>
     unat a mod 4096 \<noteq> 0 \<and> a = bc_next_instr_addr b \<and> a \<noteq> bc_current_block_addr b
     \<and> bc_address (bc_entry b (bc_current_block_addr b)) = bc_current_block_addr b
     \<and> bc_len_instr (bc_entry b (bc_current_block_addr b)) \<noteq> CACHE_INSTR"

definition bc_link :: "BlockCache \<Rightarrow> bool" where
  "bc_link b \<longleftrightarrow>
     (bc_next_instr_addr b \<noteq> 0 \<longrightarrow>
      (let e = bc_entry b (bc_current_block_addr b) in
       bc_address e = bc_current_block_addr b \<and> bc_fence e = bc_fence_counter b \<and> 0 < bc_len_instr e
       \<and> bc_next_instr_addr b = bc_current_block_addr b + of_nat (block_bytes (bc_block e))))"


lemma bc_linkD:
  assumes "bc_link b" "bc_next_instr_addr b \<noteq> 0"
  shows "bc_address (bc_entry b (bc_current_block_addr b)) = bc_current_block_addr b"
    "bc_fence (bc_entry b (bc_current_block_addr b)) = bc_fence_counter b"
    "0 < bc_len_instr (bc_entry b (bc_current_block_addr b))"
    "bc_next_instr_addr b =
     bc_current_block_addr b + of_nat (block_bytes (bc_block (bc_entry b (bc_current_block_addr b))))"
  using assms by (simp_all add: bc_link_def Let_def)

lemma push_instr_eq:
  assumes "bc_link b"
  shows "push_instr (instr_bytes i) (a, i) b = (if continues a b then extend_with a i b else start_with a i b)"
proof (cases "unat a mod 4096 = 0 \<or> a \<noteq> bc_next_instr_addr b")
  case True
  then show ?thesis
    by (auto simp: push_instr_def page_start_iff continues_def bc_cache_inner_def reset_to_def Let_def
        start_with_def bc_upd_entry_def)
next
  case False
  then have "bc_next_instr_addr b \<noteq> 0" by auto
  with False bc_linkD(1) [OF assms] show ?thesis
    by (auto simp: push_instr_def page_start_iff continues_def bc_cache_inner_def reset_to_def Let_def
        start_with_def extend_with_def bc_upd_entry_def)
qed

section \<open>The invariant\<close>

definition entry_ok :: "(Address \<Rightarrow> InstrCacheable \<Rightarrow> bool) \<Rightarrow> FenceCounter \<Rightarrow> BCached \<Rightarrow> bool" where
  "entry_ok P c e \<longleftrightarrow>
     bc_len_instr e \<le> CACHE_INSTR \<and> (bc_len_instr e = 0 \<longrightarrow> bc_address e = 0)
     \<and> (bc_fence e = c \<longrightarrow> block_at P (bc_address e) (bc_block e) \<and> in_page (bc_address e) (bc_block e))"

definition bcache_inv :: "(Address \<Rightarrow> InstrCacheable \<Rightarrow> bool) \<Rightarrow> BlockCache \<Rightarrow> bool" where
  "bcache_inv P b \<longleftrightarrow> bc_link b \<and> (\<forall>j < 2 ^ BCACHE_BITS. entry_ok P (bc_fence_counter b) (bc_entries b j))"

lemma entry_ok_single:
  assumes "P a i" "placed a i"
  shows "entry_ok P c (bc_push i 0 (bc_start_block a c e))"
  using assms placed_in_page [OF assms(2)]
  by (simp add: entry_ok_def bc_push_def bc_start_block_def bc_block_def in_page_def CACHE_INSTR_def)

lemma unat_page_offset_add: "unat (a + of_nat n :: u64) mod 4096 = (unat a + n) mod 4096"
proof -
  have "(4096 :: nat) dvd 2 ^ 64" by simp
  from mod_mod_cancel [OF this, of "unat a + n"] show ?thesis
    by (simp add: unat_word_ariths unat_of_nat mod_add_right_eq)
qed

lemma entry_ok_extend:
  assumes e: "entry_ok P c e" and l: "bc_len_instr e \<noteq> CACHE_INSTR"
    and a: "a = bc_address e + of_nat (block_bytes (bc_block e))"
    and p: "P a i" "placed a i" "unat a mod 4096 \<noteq> 0" "bc_fence e = c"
  shows "entry_ok P c (bc_push i (bc_len_instr e) e)"
proof -
  let ?n = "block_bytes (bc_block e)" and ?o = "unat (bc_address e) mod 4096"
  have i: "?o + ?n \<le> 4096" using e p(4) by (simp add: entry_ok_def in_page_def)
  have "unat a mod 4096 = (?o + ?n) mod 4096"
    using unat_page_offset_add [of "bc_address e" ?n] by (simp add: a mod_add_left_eq)
  moreover from this p(3) have "?o + ?n \<noteq> 4096" by auto
  ultimately have "unat a mod 4096 = ?o + ?n" using i by simp
  then have "in_page (bc_address e) (bc_block e @ [i])"
    using placed_in_page [OF p(2)] by (simp add: in_page_def)
  with e l p a show ?thesis by (simp add: entry_ok_def)
qed

lemma push_instr_inv:
  assumes "bcache_inv P b" "P a i" "placed a i"
  shows "bcache_inv P (push_instr (instr_bytes i) (a, i) b)"
proof (cases "continues a b")
  case False
  have l: "bc_link b" and ok: "\<And>j. j < 2 ^ BCACHE_BITS \<Longrightarrow> entry_ok P (bc_fence_counter b) (bc_entries b j)"
    using assms(1) by (simp_all add: bcache_inv_def)
  have "bc_link (start_with a i b)"
    by (simp add: bc_link_def start_with_def bc_upd_entry_def bc_push_def bc_start_block_def bc_block_def)
  then show ?thesis
    using False ok entry_ok_single [of P a i, OF assms(2,3)]
    by (simp add: push_instr_eq [OF l] bcache_inv_def) (simp add: start_with_def bc_upd_entry_def)
next
  case True
  let ?c = "bc_current_block_addr b" and ?e = "bc_entry b (bc_current_block_addr b)"
  have l: "bc_link b" and ok: "\<And>j. j < 2 ^ BCACHE_BITS \<Longrightarrow> entry_ok P (bc_fence_counter b) (bc_entries b j)"
    using assms(1) by (simp_all add: bcache_inv_def)
  have n: "bc_next_instr_addr b \<noteq> 0" "a = bc_next_instr_addr b"
    using True by (auto simp: continues_def)
  note d = bc_linkD [OF l n(1), folded n(2)]
  have "entry_ok P (bc_fence_counter b) (bc_push i (bc_len_instr ?e) ?e)"
  proof (rule entry_ok_extend [where a = a])
    show "a = bc_address ?e + of_nat (block_bytes (bc_block ?e))" using d(1,4) by simp
  qed (use True d(2) ok [OF cache_index_bound] assms in \<open>auto simp: continues_def\<close>)
  moreover have "bc_link (extend_with a i b)"
    using d by (simp add: bc_link_def extend_with_def bc_upd_entry_def)
  ultimately show ?thesis
    using True ok by (simp add: push_instr_eq [OF l] bcache_inv_def) (simp add: extend_with_def bc_upd_entry_def)
qed


section \<open>Lookup and invalidation\<close>

lemma get_block_inv:
  assumes "bcache_inv P b" "get_block b a = Some is"
  shows "block_at P a is" "in_page a is" "length is \<le> CACHE_INSTR" "is = [] \<Longrightarrow> a = 0"
proof -
  have e: "entry_ok P (bc_fence_counter b) (bc_entry b a)"
    using assms(1) cache_index_bound by (simp add: bcache_inv_def)
  have h: "bc_address (bc_entry b a) = a" "bc_fence (bc_entry b a) = bc_fence_counter b"
    "is = bc_block (bc_entry b a)"
    using assms(2) by (auto simp: get_block_def Let_def split: if_splits)
  then show "block_at P a is" "in_page a is" "length is \<le> CACHE_INSTR"
    using e by (simp_all add: entry_ok_def)
  show "a = 0" if "is = []"
    using e h that by (simp add: entry_ok_def bc_block_def)
qed

definition bc_live :: "BCached \<Rightarrow> bool" where
  "bc_live c \<longleftrightarrow> 0 < bc_len_instr c"

interpretation bcf: fence_cache bc_live bc_fence bc_invalidate BCACHE_BITS "Suc 0"
  by unfold_locales (simp_all add: bc_live_def bc_invalidate_def BCACHE_BITS_def)

abbreviation bcache_fresh :: "BlockCache \<Rightarrow> bool" where
  "bcache_fresh b \<equiv> bcf.fresh (bc_fence_counter b) (bc_entries b)"

lemma bcache_invalidate_entries:
  "bc_fence_counter (bcache_invalidate b) = fence_next (bc_fence_counter b)"
  "bc_entries (bcache_invalidate b) =
   (bc_entries b)(bcf.due (bc_fence_counter b) :=
      bc_invalidate (bc_entries b (bcf.due (bc_fence_counter b))))"
  "bc_next_instr_addr (bcache_invalidate b) = 0"
  by (simp_all add: bcache_invalidate_def Let_def cache_index_counter bcf.due_def bc_upd_entry_def reset_to_def)

lemma bcache_fresh_reset: "bcache_fresh (bcache_reset b)"
  by (rule bcf.fresh_reset) (simp add: bcache_reset_def bc_reset_def bc_live_def Let_def)

lemma bcache_fresh_invalidate: "bcache_fresh b \<Longrightarrow> bcache_fresh (bcache_invalidate b)"
  by (simp add: bcache_invalidate_entries bcf.fresh_invalidate)

lemma bcache_fresh_push:
  assumes "bc_link b" "bcache_fresh b"
  shows "bcache_fresh (push_instr (instr_bytes i) (a, i) b)"
proof (cases "continues a b")
  case False
  with assms show ?thesis
    by (auto simp: push_instr_eq start_with_def bc_upd_entry_def bc_push_def bc_start_block_def
        intro: bcf.fresh_insert)
next
  case True
  then have "bc_fence (bc_entry b (bc_current_block_addr b)) = bc_fence_counter b"
    using bc_linkD(2) [OF assms(1)] unfolding continues_def by (metis mod_0 unat_0)
  with True assms show ?thesis
    by (auto simp: push_instr_eq extend_with_def bc_upd_entry_def bc_push_def intro: bcf.fresh_insert)
qed

text \<open>After an invalidation every block that is found is empty, so the cache is valid for any
  contents of the memory.\<close>

lemma bcache_invalidate_empty:
  assumes "bcache_fresh b" "get_block (bcache_invalidate b) a = Some is"
  shows "is = []"
proof (rule ccontr)
  let ?e = "bc_entry (bcache_invalidate b) a"
  assume "is \<noteq> []"
  then have "bc_live ?e" "bc_fence ?e = fence_next (bc_fence_counter b)"
    using assms(2)
    by (auto simp: get_block_def Let_def bc_live_def bcache_invalidate_entries(1) bc_block_def split: if_splits)
  with bcf.invalidate_no_hit [OF assms(1) cache_index_bound] show False
    by (simp add: bcache_invalidate_entries(2))
qed

lemma entry_ok_empty: "bc_len_instr e = 0 \<Longrightarrow> bc_address e = 0 \<Longrightarrow> entry_ok P c e"
  by (simp add: entry_ok_def bc_block_def in_page_def less_imp_le)

lemma bcache_inv_invalidate:
  assumes "bcache_fresh b" "bcache_inv P b"
  shows "bcache_inv Q (bcache_invalidate b)"
proof -
  have "entry_ok Q (fence_next (bc_fence_counter b)) (bc_entries (bcache_invalidate b) j)"
    if j: "j < 2 ^ BCACHE_BITS" for j
  proof (cases "bc_live (bc_entries (bcache_invalidate b) j)")
    case True
    then have "bc_fence (bc_entries (bcache_invalidate b) j) \<noteq> fence_next (bc_fence_counter b)"
      using bcf.invalidate_no_hit [OF assms(1) j] by (simp add: bcache_invalidate_entries(2))
    moreover have "bc_len_instr (bc_entries b j) \<le> CACHE_INSTR"
      "bc_len_instr (bc_entries b j) = 0 \<longrightarrow> bc_address (bc_entries b j) = 0"
      using assms(2) j by (simp_all add: bcache_inv_def entry_ok_def)
    ultimately show ?thesis
      by (simp add: entry_ok_def bcache_invalidate_entries(2) bc_invalidate_def)
  next
    case False
    moreover have "bc_len_instr (bc_entries b j) = 0 \<longrightarrow> bc_address (bc_entries b j) = 0"
      using assms(2) j by (simp add: bcache_inv_def entry_ok_def)
    ultimately show ?thesis
      by (intro entry_ok_empty) (auto simp: bc_live_def bcache_invalidate_entries(2) bc_invalidate_def split: if_splits)
  qed
  then show ?thesis by (simp add: bcache_inv_def bc_link_def bcache_invalidate_entries(1,3))
qed

lemma bcache_inv_reset: "bcache_inv P (bcache_reset b)"
  by (simp add: bcache_inv_def bc_link_def bcache_reset_def Let_def reset_to_def bc_reset_def entry_ok_empty)

section \<open>Running a block in parts\<close>

lemma core_write_pc_pc [simp]: "hart_pc (core_hart (core_write_pc pc s)) = pc"
  by (simp add: core_write_pc_def)

lemma run_block_Nil: "run_block lib [] pc steps core = (Inr (), steps, core)"
  by (simp add: run_block_def)

lemma run_block_Cons:
  "run_block lib (i # is) pc steps core =
     (case run_instr_cacheable lib i core of
        (Inr (Next width), core) \<Rightarrow>
          run_block lib is (pc + width_u64 width) (steps + 1) (core_write_pc (pc + width_u64 width) core)
      | (Inr (Set pc), core) \<Rightarrow> (Inr (), steps + 1, core_write_pc pc core)
      | (Inl e, core) \<Rightarrow>
          (case handle_step_result pc (Inl e) core of
             (Inl exc, core) \<Rightarrow> (Inl exc, steps, core)
           | (Inr _, core) \<Rightarrow> (Inr (), steps + 1, core)))"
  by (auto simp: run_block_def Let_def split: sum.split prod.split ProgramCounterUpdate.split)

text \<open>With enough steps left, the loop that counts its progress does what the plain loop does.\<close>

lemma run_partial_loop_block:
  assumes "length is \<le> max_steps - steps" "run_partial_loop lib is pc steps max_steps p core = (r, p', steps', core')"
  shows "run_block lib is pc steps core = (case r of Some r \<Rightarrow> r | None \<Rightarrow> Inr (), steps', core')
    \<and> (r = None \<longrightarrow> p' = p + length is)"
  using assms
proof (induction "is" arbitrary: pc steps p core)
  case Nil
  then show ?case by (auto simp: run_block_Nil)
next
  case (Cons i "is")
  obtain u c where c: "run_instr_cacheable lib i core = (u, c)" by fastforce
  show ?case
  proof (cases "\<exists>w. u = Inr (Next w)")
    case True
    then obtain w where u: "u = Inr (Next w)" by blast
    show ?thesis
    proof (cases "max_steps \<le> steps + 1")
      case True
      with Cons.prems c u show ?thesis by (cases "is") (auto simp: run_block_Cons run_block_Nil Let_def)
    next
      case False
      with Cons.prems c u show ?thesis
        using Cons.IH [of "steps + 1" "pc + width_u64 w" "p + 1" "core_write_pc (pc + width_u64 w) c"]
        by (simp add: run_block_Cons Let_def)
    qed
  next
    case False
    then show ?thesis using Cons.prems c
      by (auto simp: run_block_Cons split: sum.splits prod.splits ProgramCounterUpdate.splits)
  qed
qed

lemma run_partial_loop_progress:
  "run_partial_loop lib is pc steps max_steps p core = (r, p', steps', core') \<Longrightarrow>
   p \<le> p' \<and> p' \<le> p + length is \<and> (r = None \<longrightarrow> p' = p + length is \<or> max_steps \<le> steps')"
  by (induction "is" arbitrary: pc steps p core)
    (fastforce simp: Let_def split: sum.splits prod.splits ProgramCounterUpdate.splits if_splits)+

lemma run_partial_loop_split:
  assumes "m \<le> n" "steps < m" "hart_pc (core_hart core) = pc"
  shows "run_partial_loop lib is pc steps n p core =
     (case run_partial_loop lib is pc steps m p core of
        (Some r, x) \<Rightarrow> (Some r, x)
      | (None, p', steps', core') \<Rightarrow>
          if n \<le> steps' \<or> p' = p + length is then (None, p', steps', core')
          else run_partial_loop lib (drop (p' - p) is) (hart_pc (core_hart core')) steps' n p' core')"
  using assms(2,3)
proof (induction "is" arbitrary: pc steps p core)
  case Nil
  then show ?case by simp
next
  case (Cons i "is")
  obtain u c where c: "run_instr_cacheable lib i core = (u, c)" by fastforce
  show ?case
  proof (cases "\<exists>w. u = Inr (Next w)")
    case True
    then obtain w where u: "u = Inr (Next w)" by blast
    show ?thesis
    proof (cases "m \<le> steps + 1")
      case True
      then show ?thesis using assms(1) c u Cons.prems by (cases "is") (auto simp: Let_def)
    next
      case False
      obtain r p' s' c' where l: "run_partial_loop lib is (pc + width_u64 w) (steps + 1) m (p + 1)
          (core_write_pc (pc + width_u64 w) c) = (r, p', s', c')"
        using prod_cases4 by blast
      note d = run_partial_loop_progress [OF l]
      have "drop (p' - p) (i # is) = drop (p' - (p + 1)) is" using d by (simp add: Suc_diff_le drop_Cons')
      with False assms(1) c u l show ?thesis
        using Cons.IH [of "steps + 1" "core_write_pc (pc + width_u64 w) c" "pc + width_u64 w" "p + 1"]
        by (simp add: Let_def split: option.split)
    qed
  next
    case False
    then show ?thesis using c
      by (auto split: sum.splits prod.splits ProgramCounterUpdate.splits)
  qed
qed

text \<open>No block is in progress, or one that has instructions left.\<close>

abbreviation idle_partial :: PartialBlock where
  "idle_partial \<equiv> \<lparr>pb_phys_addr = 0, pb_in_progress = False, pb_progress = 0\<rparr>"

definition idle :: "BlockCache \<Rightarrow> bool" where
  "idle b \<longleftrightarrow> bc_partial_block b = idle_partial"

definition partial_wf :: "BlockCache \<Rightarrow> bool" where
  "partial_wf b \<longleftrightarrow>
     idle b
     \<or> pb_in_progress (bc_partial_block b)
       \<and> pb_progress (bc_partial_block b) < bc_len_instr (bc_entry b (pb_phys_addr (bc_partial_block b)))"

lemma partial_reset_idle [simp]: "partial_reset p = idle_partial"
  by (simp add: partial_reset_def)

lemma idle_with_partial: "idle b \<Longrightarrow> b\<lparr>bc_partial_block := idle_partial\<rparr> = b"
  by (cases b) (simp add: idle_def)

lemma complete_current_block_idle [simp]:
  "idle b \<Longrightarrow> complete_current_block lib b core steps n = (Inr (), b, core, steps)"
  by (simp add: complete_current_block_def idle_def)

lemma run_partial_inner_only:
  assumes "run_partial_inner lib b core steps n = (r, b', core', steps')"
  shows "\<exists>p. b' = b\<lparr>bc_partial_block := p\<rparr>
    \<and> (pb_in_progress p \<longrightarrow> pb_phys_addr p = pb_phys_addr (bc_partial_block b))"
proof (cases "n \<le> steps")
  case True
  with assms have "b' = b" by (auto simp: run_partial_inner_def)
  then show ?thesis by (intro exI [of _ "bc_partial_block b"]) simp
next
  case False
  with assms show ?thesis
    by (auto simp: run_partial_inner_def Let_def split: if_splits prod.splits option.splits)
qed

lemma run_partial_inner_wf:
  assumes "pb_in_progress (bc_partial_block b)"
    and "pb_progress (bc_partial_block b) < bc_len_instr (bc_entry b (pb_phys_addr (bc_partial_block b)))"
    and r: "run_partial_inner lib b core steps n = (r, b', core', steps')"
  shows "partial_wf b' \<and> (r \<noteq> Inr () \<or> steps' < n \<longrightarrow> idle b')"
proof (cases "n \<le> steps")
  case True
  with assms show ?thesis by (auto simp: run_partial_inner_def partial_wf_def)
next
  case False
  let ?p = "pb_progress (bc_partial_block b)" and ?e = "bc_entry b (pb_phys_addr (bc_partial_block b))"
  obtain o' p' s' c' where l: "run_partial_loop lib (drop ?p (bc_block ?e)) (hart_pc (core_hart core)) steps n ?p core
      = (o', p', s', c')"
    using prod_cases4 by blast
  note d = run_partial_loop_progress [OF l]
  show ?thesis
    using False r l d assms(1,2)
    by (auto simp: run_partial_inner_def Let_def partial_wf_def idle_def split: if_splits option.splits)
qed

text \<open>Running to a bound and then on to a larger one is running to the larger one.\<close>

lemma run_partial_inner_split:
  assumes "pb_in_progress (bc_partial_block b)"
    and p: "pb_progress (bc_partial_block b) \<le> bc_len_instr (bc_entry b (pb_phys_addr (bc_partial_block b)))"
    and "m \<le> n"
  shows "run_partial_inner lib b core steps n =
     (case run_partial_inner lib b core steps m of
        (Inl e, x) \<Rightarrow> (Inl e, x)
      | (Inr _, b', core', steps') \<Rightarrow> complete_current_block lib b' core' steps' n)"
proof (cases "m \<le> steps")
  case True
  then have "run_partial_inner lib b core steps m = (Inr (), b, core, steps)"
    by (simp add: run_partial_inner_def)
  then show ?thesis using assms(1) by (simp add: complete_current_block_def)
next
  case False
  let ?p = "pb_progress (bc_partial_block b)" and ?e = "bc_entry b (pb_phys_addr (bc_partial_block b))"
  let ?is = "drop ?p (bc_block ?e)" and ?pc = "hart_pc (core_hart core)"
  obtain o' p' s' c' where l: "run_partial_loop lib ?is ?pc steps m ?p core = (o', p', s', c')"
    using prod_cases4 by blast
  note d = run_partial_loop_progress [OF l]
  have n: "run_partial_loop lib ?is ?pc steps n ?p core =
     (case o' of Some r \<Rightarrow> (Some r, p', s', c')
      | None \<Rightarrow> if n \<le> s' \<or> p' = bc_len_instr ?e then (None, p', s', c')
                else run_partial_loop lib (drop p' (bc_block ?e)) (hart_pc (core_hart c')) s' n p' c')"
    using run_partial_loop_split [of m n steps core ?pc lib ?is ?p] False assms(3) l d p
    by (simp split: option.split)
  obtain o2 p2 s2 c2 where l2: "run_partial_loop lib (drop p' (bc_block ?e)) (hart_pc (core_hart c')) s' n p' c'
      = (o2, p2, s2, c2)"
    using prod_cases4 by blast
  show ?thesis
  proof (cases o')
    case None
    then show ?thesis
      using False assms(3) n l l2 d p assms(1)
      by (cases o2) (auto simp: run_partial_inner_def complete_current_block_def Let_def)
  next
    case (Some r)
    then show ?thesis
      using False assms(3) n l assms(1)
      by (cases r) (auto simp: run_partial_inner_def complete_current_block_def Let_def)
  qed
qed

lemma run_block_partial_whole:
  assumes "idle b" "length (bc_block (bc_entry b a)) \<le> n - steps" "steps < n"
  shows "run_block_partial lib a b core steps n =
     (case run_block lib (bc_block (bc_entry b a)) (hart_pc (core_hart core)) steps core of
        (r, steps', core') \<Rightarrow> (r, b, core', steps'))"
proof -
  let ?is = "bc_block (bc_entry b a)" and ?pc = "hart_pc (core_hart core)"
  obtain o' p' s' c' where l: "run_partial_loop lib ?is ?pc steps n 0 core = (o', p', s', c')"
    using prod_cases4 by blast
  from run_partial_loop_block [OF assms(2) l] l assms(1,3) show ?thesis
    by (auto simp: run_block_partial_def run_partial_inner_def Let_def idle_with_partial split: option.splits)
qed

lemma run_block_partial_split:
  assumes "idle b" "m \<le> n"
  shows "run_block_partial lib a b core steps n =
     (case run_block_partial lib a b core steps m of
        (Inl e, x) \<Rightarrow> (Inl e, x)
      | (Inr _, b', core', steps') \<Rightarrow> complete_current_block lib b' core' steps' n)"
  unfolding run_block_partial_def Let_def
  by (rule run_partial_inner_split) (use assms in simp_all)

end
