(* ===== verification/Machine_State.thy ===== *)
theory Machine_State
  imports Block_Cache
begin

text \<open>
  The whole machine (machine_state.rs): the core state with the instruction and block caches in front
  of it, fetching, the interpreter loops, booting, and \<^verbatim>\<open>fence.i\<close>.  Step counts are natural numbers:
  they never exceed the bound \<^verbatim>\<open>max_steps\<close>, which is a \<^verbatim>\<open>usize\<close>.  The loops of the source can run
  forever (the bound may be \<^verbatim>\<open>Unbounded\<close>), so they are partial functions whose value
  \<^verbatim>\<open>None\<close> is not returning.
\<close>

section \<open>Bounds\<close>

datatype Bound = Included nat | Excluded nat | Unbounded

definition USIZE_MAX :: nat where
  "USIZE_MAX = 2 ^ 64 - 1"

definition bound_saturating_sub :: "Bound \<Rightarrow> nat \<Rightarrow> Bound" where
  "bound_saturating_sub bound shift =
     (case bound of
        Included x \<Rightarrow> Included (x - shift)
      | Excluded x \<Rightarrow> Excluded (x - shift)
      | Unbounded \<Rightarrow> Unbounded)"

definition less_than_bound :: "nat \<Rightarrow> Bound \<Rightarrow> bool" where
  "less_than_bound num bound =
     (case bound of
        Included x \<Rightarrow> num < x
      | Excluded x \<Rightarrow> num < x - 1
      | Unbounded \<Rightarrow> True)"

definition unwrap_bound :: "Bound \<Rightarrow> nat" where
  "unwrap_bound bound =
     (case bound of
        Included x \<Rightarrow> x
      | Excluded x \<Rightarrow> x - 1
      | Unbounded \<Rightarrow> USIZE_MAX)"

section \<open>State\<close>

record MachineState =
  ms_core :: MachineCoreState
  ms_icache :: InstructionCache
  ms_bcache :: BlockCache

definition machine_reset :: "MachineState \<Rightarrow> MachineState" where
  "machine_reset s =
     s\<lparr>ms_core := core_reset (ms_core s), ms_icache := icache_reset (ms_icache s),
       ms_bcache := bcache_reset (ms_bcache s)\<rparr>"

definition on_core :: "(MachineCoreState, 'a) exec \<Rightarrow> (MachineState, 'a) exec" where
  "on_core m s = (let (r, c) = m (ms_core s) in (r, s\<lparr>ms_core := c\<rparr>))"

section \<open>Fetching\<close>

definition translate_instr_address :: "Mode \<Rightarrow> CSRRepr \<Rightarrow> Address \<Rightarrow> (MachineState, Address) exec" where
  "translate_instr_address mode satp virt_addr s =
     (case tcache_try_translate (core_tcache (ms_core s)) mode satp AccInstruction virt_addr of
        Some phys_addr \<Rightarrow> (Inr phys_addr, s)
      | None \<Rightarrow>
          (case translate_with_prefetch (ms_core s) mode satp virt_addr AccInstruction of
             Inl e \<Rightarrow> (Inl e, s)
           | Inr phys_addr \<Rightarrow>
               (Inr phys_addr,
                s\<lparr>ms_core := (ms_core s)\<lparr>core_tcache :=
                    tcache_cache_translation mode satp AccInstruction virt_addr phys_addr
                      (core_tcache (ms_core s))\<rparr>\<rparr>)))"

definition fetch_instr_halfword :: "MachineState \<Rightarrow> Address \<Rightarrow> (Exception, u16) result" where
  "fetch_instr_halfword s phys_addr =
     map_err (\<lambda>_. InstructionAccessFault phys_addr) (bus_read (core_bus (ms_core s)) phys_addr)"

definition store_fetched :: "Instr \<times> InstructionCache \<times> BlockCache \<Rightarrow> MachineState
    \<Rightarrow> (Exception, Instr) result \<times> MachineState" where
  "store_fetched x s = (case x of (instr, ic, bc) \<Rightarrow> (Inr instr, s\<lparr>ms_icache := ic, ms_bcache := bc\<rparr>))"

definition fetch_instr :: "Mode \<Rightarrow> CSRRepr \<Rightarrow> Address \<Rightarrow> Address \<Rightarrow> (MachineState, Instr) exec" where
  "fetch_instr mode satp virt_addr phys_addr =
     and_then (\<lambda>s. (fetch_instr_halfword s phys_addr, s)) (\<lambda>first_halfword s.
       if is_compressed first_halfword
       then store_fetched
              (cache_compressed (push_instr (width_u64 Compressed)) phys_addr first_halfword
                 (ms_icache s) (ms_bcache s)) s
       else
         (let next_addr = phys_addr + 2;
              upper_addr = (if next_addr mod PAGE_SIZE = 0
                            then translate_instr_address mode satp (virt_addr + 2)
                            else (\<lambda>s. (Inr next_addr, s)));
              upper = and_then upper_addr (\<lambda>phys_addr s. (fetch_instr_halfword s phys_addr, s))
          in and_then upper (\<lambda>upper s.
               let combined = (push_bit 16 (ucast upper :: u32)) OR ucast first_halfword in
               store_fetched
                 (cache_uncompressed (push_instr (width_u64 Uncompressed)) phys_addr combined
                    (ms_icache s) (ms_bcache s)) s) s))"

section \<open>Running an instruction\<close>

definition run_fencei :: "MachineState \<Rightarrow> MachineState" where
  "run_fencei s =
     s\<lparr>ms_core := (ms_core s)\<lparr>core_tcache := tcache_invalidate [AccInstruction] (core_tcache (ms_core s))\<rparr>,
       ms_icache := icache_invalidate (ms_icache s),
       ms_bcache := bcache_invalidate (ms_bcache s)\<rparr>"

definition syscall_instr :: "(HartState \<Rightarrow> Exception) \<Rightarrow> (MachineState, ProgramCounterUpdate) exec" where
  "syscall_instr run_fn s = (Inl (run_fn (core_hart (ms_core s))), s)"

definition xret_instr :: "(HartState, Address) exec \<Rightarrow> (MachineState, ProgramCounterUpdate) exec" where
  "xret_instr run_fn = on_core (and_then (on_hart run_fn) (\<lambda>a s. (Inr (Set a), s)))"

fun run_instr_uncacheable :: "InstrUncacheable \<Rightarrow> (MachineState, ProgramCounterUpdate) exec" where
  "run_instr_uncacheable (Fence args) =
     (\<lambda>s. (Inr (Next (uncacheable_width (Fence args))),
           s\<lparr>ms_core := run_fence (fence_pred args) (fence_succ args) (ms_core s)\<rparr>))"
| "run_instr_uncacheable (FenceTso args) = (\<lambda>s. (Inl IllegalInstruction, s))"
| "run_instr_uncacheable Ecall = syscall_instr run_ecall"
| "run_instr_uncacheable Ebreak = syscall_instr run_ebreak"
| "run_instr_uncacheable Mret = xret_instr run_mret"
| "run_instr_uncacheable Sret = xret_instr run_sret"
| "run_instr_uncacheable Mnret = (\<lambda>s. (Inl IllegalInstruction, s))"
| "run_instr_uncacheable Wfi =
     (\<lambda>s. (Inr (Next (uncacheable_width Wfi)), s\<lparr>ms_core := run_wfi (ms_core s)\<rparr>))"
| "run_instr_uncacheable (SFenceVma asid vaddr) =
     on_core (then_next (uncacheable_width (SFenceVma asid vaddr)) (run_sfence_vma asid vaddr))"
| "run_instr_uncacheable CEbreak = syscall_instr run_cebreak"
| "run_instr_uncacheable FenceI =
     (\<lambda>s. (Inr (Next (uncacheable_width FenceI)), run_fencei s))"

fun run_instr :: "('s, 'd) FloatLib \<Rightarrow> Instr \<Rightarrow> (MachineState, ProgramCounterUpdate) exec" where
  "run_instr lib (Cacheable i) = on_core (run_instr_cacheable lib i)"
| "run_instr lib (Uncacheable i) = run_instr_uncacheable i"

definition run_instr_at ::
  "('s, 'd) FloatLib \<Rightarrow> Mode \<Rightarrow> CSRRepr \<Rightarrow> Address \<Rightarrow> Address \<Rightarrow> (MachineState, ProgramCounterUpdate) exec" where
  "run_instr_at lib current_mode satp instr_pc phys_addr s =
     (case icache_fetch_instr (ms_icache s) phys_addr of
        Some instr \<Rightarrow> on_core (run_instr_cacheable lib instr) s
      | None \<Rightarrow> and_then (fetch_instr current_mode satp instr_pc phys_addr) (run_instr lib) s)"

section \<open>Stepping\<close>

text \<open>The state after running in the block cache, and after handling the result of a step.\<close>

definition after_block ::
  "(EnvironException, unit) result \<times> BlockCache \<times> MachineCoreState \<times> nat \<Rightarrow> MachineState
     \<Rightarrow> (EnvironException, unit) result \<times> nat \<times> MachineState" where
  "after_block x s = (case x of (r, b, c, steps) \<Rightarrow> (r, steps, s\<lparr>ms_bcache := b, ms_core := c\<rparr>))"

definition finish_step ::
  "Address \<Rightarrow> nat \<Rightarrow> (Exception, ProgramCounterUpdate) result \<times> MachineState
     \<Rightarrow> (EnvironException, unit) result \<times> nat \<times> MachineState" where
  "finish_step instr_pc steps x =
     (case x of (res, s) \<Rightarrow>
        (case handle_step_result instr_pc res (ms_core s) of
           (Inl e, c) \<Rightarrow> (Inl e, steps, s\<lparr>ms_core := c\<rparr>)
         | (Inr _, c) \<Rightarrow> (Inr (), steps + 1, s\<lparr>ms_core := c\<rparr>)))"

text \<open>The body of the loop of \<^verbatim>\<open>step_max_inner\<close>.\<close>

definition step_body ::
  "('s, 'd) FloatLib \<Rightarrow> nat \<Rightarrow> nat \<Rightarrow> MachineState
     \<Rightarrow> (EnvironException, unit) result \<times> nat \<times> MachineState" where
  "step_body lib max_steps steps s =
     (let current_mode = hart_mode (core_hart (ms_core s));
          instr_pc = hart_pc (core_hart (ms_core s));
          satp = csr_read (hart_csrs (core_hart (ms_core s))) CSR_satp
      in case translate_instr_address current_mode satp instr_pc s of
           (Inl e, s) \<Rightarrow> finish_step instr_pc steps (Inl e, s)
         | (Inr phys_addr, s) \<Rightarrow>
             (case get_block (ms_bcache s) phys_addr of
                Some block \<Rightarrow>
                  if length block \<le> max_steps - steps
                  then (case run_block lib block instr_pc steps (ms_core s) of
                          (r, steps, c) \<Rightarrow> (r, steps, s\<lparr>ms_core := c\<rparr>))
                  else after_block
                         (run_block_partial lib phys_addr (ms_bcache s) (ms_core s) steps max_steps) s
              | None \<Rightarrow>
                  finish_step instr_pc steps (run_instr_at lib current_mode satp instr_pc phys_addr s)))"

partial_function (option) step_loop ::
  "('s, 'd) FloatLib \<Rightarrow> nat \<Rightarrow> nat \<Rightarrow> MachineState
     \<Rightarrow> ((EnvironException, unit) result \<times> nat \<times> MachineState) option" where
  "step_loop lib max_steps steps s =
     (if steps < max_steps
      then (case step_body lib max_steps steps s of
              (Inl e, steps, s) \<Rightarrow> Some (Inl e, steps, s)
            | (Inr _, steps, s) \<Rightarrow> step_loop lib max_steps steps s)
      else Some (Inr (), steps, s))"

definition step_max_inner ::
  "('s, 'd) FloatLib \<Rightarrow> nat \<Rightarrow> nat \<Rightarrow> MachineState
     \<Rightarrow> ((EnvironException, unit) result \<times> nat \<times> MachineState) option" where
  "step_max_inner lib max_steps steps s =
     (case after_block (complete_current_block lib (ms_bcache s) (ms_core s) steps max_steps) s of
        (Inl e, steps, s) \<Rightarrow> Some (Inl e, steps, s)
      | (Inr _, steps, s) \<Rightarrow> step_loop lib max_steps steps s)"

definition machine_step ::
  "('s, 'd) FloatLib \<Rightarrow> MachineState \<Rightarrow> ((EnvironException, unit) result \<times> nat \<times> MachineState) option" where
  "machine_step lib s = step_max_inner lib 1 0 s"

record 'e StepManyResult =
  smr_steps :: nat
  smr_error :: "'e option"

partial_function (option) step_max_loop ::
  "('s, 'd) FloatLib \<Rightarrow> Bound \<Rightarrow> nat \<Rightarrow> MachineState
     \<Rightarrow> (EnvironException StepManyResult \<times> MachineState) option" where
  "step_max_loop lib max_steps steps s =
     Option.bind (step_max_inner lib (unwrap_bound max_steps) steps s) (\<lambda>(r, steps, s).
       case r of
         Inl e \<Rightarrow> Some (\<lparr>smr_steps = steps, smr_error = Some e\<rparr>, s)
       | Inr _ \<Rightarrow>
           if \<not> less_than_bound steps max_steps
           then Some (\<lparr>smr_steps = steps, smr_error = None\<rparr>, s)
           else step_max_loop lib max_steps steps s)"

definition step_max ::
  "('s, 'd) FloatLib \<Rightarrow> Bound \<Rightarrow> MachineState \<Rightarrow> (EnvironException StepManyResult \<times> MachineState) option" where
  "step_max lib max_steps s = step_max_loop lib max_steps 0 s"

definition saturating_add :: "nat \<Rightarrow> nat \<Rightarrow> nat" where
  "saturating_add a b = min (a + b) USIZE_MAX"

text \<open>The closure that handles environment calls has captured state of its own, the type \<^verbatim>\<open>'h\<close>.\<close>

partial_function (option) step_max_handle_loop ::
  "('s, 'd) FloatLib \<Rightarrow> ('h \<Rightarrow> MachineState \<Rightarrow> EnvironException \<Rightarrow> ('e, bool) result \<times> 'h \<times> MachineState)
     \<Rightarrow> Bound \<Rightarrow> nat \<Rightarrow> 'h \<Rightarrow> MachineState \<Rightarrow> ('e StepManyResult \<times> 'h \<times> MachineState) option" where
  "step_max_handle_loop lib handle step_bounds steps env s =
     Option.bind (step_max lib step_bounds s) (\<lambda>(result, s).
       let steps = saturating_add steps (smr_steps result);
           step_bounds = bound_saturating_sub step_bounds (smr_steps result)
       in case smr_error result of
            Some cause \<Rightarrow>
              (let steps = saturating_add steps 1;
                   step_bounds = bound_saturating_sub step_bounds 1
               in case handle env s cause of
                    (Inr may_continue, env, s) \<Rightarrow>
                      if \<not> may_continue then Some (\<lparr>smr_steps = steps, smr_error = None\<rparr>, env, s)
                      else step_max_handle_loop lib handle step_bounds steps env s
                  | (Inl e, env, s) \<Rightarrow> Some (\<lparr>smr_steps = steps, smr_error = Some e\<rparr>, env, s))
          | None \<Rightarrow> Some (\<lparr>smr_steps = steps, smr_error = None\<rparr>, env, s))"

definition step_max_handle ::
  "('s, 'd) FloatLib \<Rightarrow> ('h \<Rightarrow> MachineState \<Rightarrow> EnvironException \<Rightarrow> ('e, bool) result \<times> 'h \<times> MachineState)
     \<Rightarrow> Bound \<Rightarrow> 'h \<Rightarrow> MachineState \<Rightarrow> ('e StepManyResult \<times> 'h \<times> MachineState) option" where
  "step_max_handle lib handle step_bounds env s = step_max_handle_loop lib handle step_bounds 0 env s"

section \<open>Stepping in parts\<close>

lemmas step_loop_simp = step_loop.simps [of lib max_steps steps s for lib max_steps steps s]

lemma step_loop_done: "max_steps \<le> steps \<Longrightarrow> step_loop lib max_steps steps s = Some (Inr (), steps, s)"
  by (simp add: step_loop_simp)

lemma step_loop_step:
  "steps < max_steps \<Longrightarrow>
   step_loop lib max_steps steps s =
     (case step_body lib max_steps steps s of
        (Inl e, x) \<Rightarrow> Some (Inl e, x)
      | (Inr _, steps, s) \<Rightarrow> step_loop lib max_steps steps s)"
  by (subst step_loop_simp) (auto split: prod.split sum.split)

abbreviation ms_idle :: "MachineState \<Rightarrow> bool" where
  "ms_idle s \<equiv> idle (ms_bcache s)"

lemma idle_push [simp]: "idle (push_instr w e b) = idle b"
  by (cases e)
    (auto simp: push_instr_def bc_cache_inner_def Let_def reset_to_def bc_upd_entry_def idle_def split: if_splits)

lemma idle_invalidate [simp]: "idle (bcache_invalidate b) = idle b"
  by (simp add: bcache_invalidate_def Let_def reset_to_def bc_upd_entry_def idle_def)

lemma translate_instr_address_frame:
  assumes "translate_instr_address mode satp va s = (r, s')"
  shows "ms_icache s' = ms_icache s" "ms_bcache s' = ms_bcache s"
    "core_hart (ms_core s') = core_hart (ms_core s)" "core_bus (ms_core s') = core_bus (ms_core s)"
  using assms by (auto simp: translate_instr_address_def split: option.splits sum.splits)

lemma store_fetched_idle:
  "store_fetched (cache_compressed (push_instr w) a raw ic b) s = (r, s') \<Longrightarrow> idle b \<Longrightarrow> ms_idle s'"
  "store_fetched (cache_uncompressed (push_instr w) a raw' ic b) s = (r, s') \<Longrightarrow> idle b \<Longrightarrow> ms_idle s'"
  by (auto simp: store_fetched_def cache_compressed_def cache_uncompressed_def Let_def
      split: Instr.splits if_splits)

lemma fetch_instr_idle:
  assumes "fetch_instr mode satp va pa s = (r, s')" "ms_idle s"
  shows "ms_idle s'"
  using assms
  by (auto simp: fetch_instr_def and_then_def Let_def translate_instr_address_frame(2)
      split: sum.splits prod.splits if_splits elim!: store_fetched_idle dest: translate_instr_address_frame(2))

lemma on_core_bcache [simp]: "on_core m s = (r, s') \<Longrightarrow> ms_bcache s' = ms_bcache s"
  by (auto simp: on_core_def Let_def split: prod.splits)

lemma run_instr_uncacheable_idle:
  "run_instr_uncacheable i s = (r, s') \<Longrightarrow> ms_idle s \<Longrightarrow> ms_idle s'"
  by (cases i) (auto simp: syscall_instr_def xret_instr_def run_fencei_def)

lemma run_instr_idle: "run_instr lib i s = (r, s') \<Longrightarrow> ms_idle s \<Longrightarrow> ms_idle s'"
  by (cases i) (auto intro: run_instr_uncacheable_idle)

lemma run_instr_at_idle:
  "run_instr_at lib mode satp pc pa s = (r, s') \<Longrightarrow> ms_idle s \<Longrightarrow> ms_idle s'"
  by (auto simp: run_instr_at_def and_then_def split: option.splits sum.splits prod.splits
      intro: fetch_instr_idle run_instr_idle)

lemma finish_step_bcache:
  "finish_step pc steps (r, s) = (r', steps', s') \<Longrightarrow> ms_bcache s' = ms_bcache s"
  by (auto simp: finish_step_def split: prod.splits sum.splits)


text \<open>One pass through the loop: with the smaller bound it does the same, or it stops at the bound in
  the middle of a block, which it completes when it goes on.\<close>

definition then_complete ::
  "('s, 'd) FloatLib \<Rightarrow> nat \<Rightarrow> (EnvironException, unit) result \<times> nat \<times> MachineState
     \<Rightarrow> (EnvironException, unit) result \<times> nat \<times> MachineState" where
  "then_complete lib n x =
     (case x of
        (Inl e, y) \<Rightarrow> (Inl e, y)
      | (Inr _, steps, s) \<Rightarrow>
          after_block (complete_current_block lib (ms_bcache s) (ms_core s) steps n) s)"

lemma then_complete_idle: "ms_idle s \<Longrightarrow> then_complete lib n (Inr (), steps, s) = (Inr (), steps, s)"
  by (simp add: then_complete_def after_block_def)

lemma then_complete_error [simp]: "then_complete lib n (Inl e, y) = (Inl e, y)"
  by (simp add: then_complete_def)

lemma step_max_inner_eq:
  "step_max_inner lib n steps s =
     (case then_complete lib n (Inr (), steps, s) of
        (Inl e, x) \<Rightarrow> Some (Inl e, x)
      | (Inr _, steps, s) \<Rightarrow> step_loop lib n steps s)"
  by (simp add: step_max_inner_def then_complete_def split: prod.split sum.split)

lemma after_block_split:
  assumes "idle (ms_bcache s)" "m \<le> n"
  shows "after_block (run_block_partial lib a (ms_bcache s) core steps n) s =
         then_complete lib n (after_block (run_block_partial lib a (ms_bcache s) core steps m) s)"
  using run_block_partial_split [OF assms, of lib a core steps]
  by (auto simp: then_complete_def after_block_def split: prod.split sum.split)

lemma run_block_as_partial:
  assumes "get_block (ms_bcache s) a = Some block" "length block \<le> n - steps" "steps < n" "ms_idle s"
    "hart_pc (core_hart (ms_core s)) = pc"
  shows "(case run_block lib block pc steps (ms_core s) of (r, steps, c) \<Rightarrow> (r, steps, s\<lparr>ms_core := c\<rparr>)) =
         after_block (run_block_partial lib a (ms_bcache s) (ms_core s) steps n) s"
proof -
  have "block = bc_block (bc_entry (ms_bcache s) a)"
    using assms(1) by (auto simp: get_block_def Let_def split: if_splits)
  with run_block_partial_whole [OF assms(4), of a n steps lib "ms_core s"] assms show ?thesis
    by (auto simp: after_block_def split: prod.split)
qed

lemma finish_step_complete:
  "ms_idle s \<Longrightarrow> then_complete lib n (finish_step pc steps (r, s)) = finish_step pc steps (r, s)"
  by (auto simp: finish_step_def then_complete_idle split: prod.split sum.split)

lemma step_body_split:
  assumes "m \<le> n" "steps < m" "ms_idle s"
  shows "step_body lib n steps s = then_complete lib n (step_body lib m steps s)"
proof -
  let ?h = "core_hart (ms_core s)"
  let ?mode = "hart_mode ?h" and ?pc = "hart_pc ?h" and ?satp = "csr_read (hart_csrs ?h) CSR_satp"
  obtain r t where t: "translate_instr_address ?mode ?satp ?pc s = (r, t)" by fastforce
  note f = translate_instr_address_frame [OF t]
  have i: "ms_idle t" using assms(3) f(2) by simp
  have fin: "then_complete lib n (finish_step ?pc steps x) = finish_step ?pc steps x"
    if "ms_idle (snd x)" for x
    using finish_step_complete [of "snd x" lib n ?pc steps "fst x"] that by simp
  show ?thesis
  proof (cases r)
    case (Inl e)
    with t i fin [of "(Inl e, t)"] show ?thesis by (simp add: step_body_def)
  next
    case (Inr a)
    show ?thesis
    proof (cases "get_block (ms_bcache t) a")
      case None
      have "ms_idle (snd (run_instr_at lib ?mode ?satp ?pc a t))"
        using run_instr_at_idle [OF prod.collapse [symmetric]] i by blast
      with t Inr None fin show ?thesis by (simp add: step_body_def Let_def)
    next
      case (Some block)
      have p: "step_body lib k steps s =
          after_block (run_block_partial lib a (ms_bcache t) (ms_core t) steps k) t" if "steps < k" for k
        using run_block_as_partial [OF Some _ that i, where pc = ?pc and lib = lib] f(3) t Inr Some by (simp add: step_body_def)
      show ?thesis
        using p [OF assms(2)] p [of n] assms(1,2) after_block_split [OF i assms(1)] by simp
    qed
  qed
qed


lemma after_block_partial_idle:
  assumes "after_block (run_block_partial lib a (ms_bcache s) c steps m) s = (Inr (), steps', s')"
    "0 < bc_len_instr (bc_entry (ms_bcache s) a)"
  shows "ms_idle s' \<or> m \<le> steps'"
proof -
  let ?b = "(ms_bcache s)\<lparr>bc_partial_block := (bc_partial_block (ms_bcache s))
                  \<lparr>pb_in_progress := True, pb_progress := 0, pb_phys_addr := a\<rparr>\<rparr>"
  obtain r b' c' st where x: "run_partial_inner lib ?b c steps m = (r, b', c', st)"
    using prod_cases4 by blast
  then have "run_block_partial lib a (ms_bcache s) c steps m = (r, b', c', st)"
    by (simp add: run_block_partial_def)
  with assms(1) have e: "r = Inr ()" "st = steps'" "s' = s\<lparr>ms_bcache := b', ms_core := c'\<rparr>"
    by (simp_all add: after_block_def)
  have "partial_wf b' \<and> (r \<noteq> Inr () \<or> st < m \<longrightarrow> idle b')"
    by (rule run_partial_inner_wf [OF _ _ x]) (simp_all add: assms(2))
  with e show ?thesis by (cases "st < m") simp_all
qed

lemma step_body_idle:
  assumes "step_body lib m steps s = (Inr (), steps', s')" "steps < m" "ms_idle s"
  shows "ms_idle s' \<or> m \<le> steps'"
proof -
  let ?h = "core_hart (ms_core s)"
  let ?mode = "hart_mode ?h" and ?pc = "hart_pc ?h" and ?satp = "csr_read (hart_csrs ?h) CSR_satp"
  obtain r t where t: "translate_instr_address ?mode ?satp ?pc s = (r, t)" by fastforce
  have i: "ms_idle t" using assms(3) translate_instr_address_frame(2) [OF t] by simp
  show ?thesis
  proof (cases r)
    case (Inl e)
    with t assms(1) have "finish_step ?pc steps (Inl e, t) = (Inr (), steps', s')"
      by (simp add: step_body_def)
    from finish_step_bcache [OF this] i show ?thesis by simp
  next
    case (Inr a)
    show ?thesis
    proof (cases "get_block (ms_bcache t) a")
      case None
      obtain r' u where u: "run_instr_at lib ?mode ?satp ?pc a t = (r', u)" by fastforce
      with t assms(1) Inr None have "finish_step ?pc steps (r', u) = (Inr (), steps', s')"
        by (simp add: step_body_def Let_def)
      from finish_step_bcache [OF this] run_instr_at_idle [OF u i] show ?thesis by simp
    next
      case (Some block)
      show ?thesis
      proof (cases "length block \<le> m - steps")
        case True
        obtain rr ss cc where "run_block lib block ?pc steps (ms_core t) = (rr, ss, cc)"
          using prod_cases3 by blast
        with True t assms(1) Inr Some have "s' = t\<lparr>ms_core := cc\<rparr>" by (simp add: step_body_def Let_def)
        with i show ?thesis by simp
      next
        case False
        then have "after_block (run_block_partial lib a (ms_bcache t) (ms_core t) steps m) t = (Inr (), steps', s')"
          using t assms(1) Inr Some by (simp add: step_body_def)
        moreover have "0 < bc_len_instr (bc_entry (ms_bcache t) a)"
          using False Some assms(2) by (auto simp: get_block_def Let_def split: if_splits)
        ultimately show ?thesis by (rule after_block_partial_idle)
      qed
    qed
  qed
qed

definition then_run ::
  "('s, 'd) FloatLib \<Rightarrow> nat \<Rightarrow> (EnvironException, unit) result \<times> nat \<times> MachineState
     \<Rightarrow> ((EnvironException, unit) result \<times> nat \<times> MachineState) option" where
  "then_run lib n x =
     (case x of
        (Inl e, y) \<Rightarrow> Some (Inl e, y)
      | (Inr _, steps, s) \<Rightarrow> step_max_inner lib n steps s)"

lemma step_max_inner_idle: "ms_idle s \<Longrightarrow> step_max_inner lib n steps s = step_loop lib n steps s"
  by (simp add: step_max_inner_eq then_complete_idle)

lemma then_run_error [simp]: "then_run lib n (Inl e, y) = Some (Inl e, y)"
  by (simp add: then_run_def)

lemma then_run_ok [simp]: "then_run lib n (Inr u, steps, s) = step_max_inner lib n steps s"
  by (simp add: then_run_def)

lemma step_loop_split_step:
  assumes "m \<le> n" "steps < m" "ms_idle s" "step_body lib m steps s = (Inr (), s1, t1)" "\<not> ms_idle t1"
  shows "step_loop lib n steps s = step_max_inner lib n s1 t1" "m \<le> s1"
proof -
  have b: "step_body lib n steps s = then_complete lib n (Inr (), s1, t1)"
    using step_body_split [OF assms(1-3), of lib] assms(4) by simp
  have "steps < n" using assms(1,2) by simp
  then show "step_loop lib n steps s = step_max_inner lib n s1 t1"
    by (simp only: step_loop_step step_max_inner_eq b)
  show "m \<le> s1" using step_body_idle [OF assms(4,2,3)] assms(5) by simp
qed


lemma step_loop_split1:
  assumes "step_loop lib n steps s = Some y" "m \<le> n" "ms_idle s"
  shows "Option.bind (step_loop lib m steps s) (then_run lib n) = Some y"
proof -
  have "step_loop lib n steps s = Some y \<and>
      (m \<le> n \<longrightarrow> ms_idle s \<longrightarrow> Option.bind (step_loop lib m steps s) (then_run lib n) = Some y)"
  proof (rule step_loop.raw_induct
      [where P = "\<lambda>lib n steps s y. step_loop lib n steps s = Some y \<and>
        (m \<le> n \<longrightarrow> ms_idle s \<longrightarrow> Option.bind (step_loop lib m steps s) (then_run lib n) = Some y)", OF _ assms(1)], goal_cases)
    case (1 f lib n steps s y)
    show ?case
    proof (cases "steps < n")
      case False
      with 1(2) show ?thesis by (auto simp: step_loop_done step_max_inner_idle)
    next
      case lt: True
      obtain r s1 t1 where b: "step_body lib n steps s = (r, s1, t1)" using prod_cases3 by blast
      have y: "step_loop lib n steps s = Some y"
        using 1(2) lt b 1(1) [of lib n s1 t1 y] by (auto simp: step_loop_step split: sum.splits)
      have "Option.bind (step_loop lib m steps s) (then_run lib n) = Some y" if h: "m \<le> n" "ms_idle s"
      proof (cases "steps < m")
        case False
        with y h show ?thesis by (simp add: step_loop_done step_max_inner_idle)
      next
        case True
        note split = step_body_split [OF h(1) True h(2), of lib]
        obtain r' s2 t2 where b': "step_body lib m steps s = (r', s2, t2)" using prod_cases3 by blast
        show ?thesis
        proof (cases "r' = Inr () \<and> ms_idle t2")
          case id: True
          then have "step_body lib n steps s = (Inr (), s2, t2)" using split b' by (simp add: then_complete_idle)
          then have "f lib n s2 t2 = Some y" using 1(2) lt by simp
          from 1(1) [OF this] h id b' True show ?thesis by (simp add: step_loop_step)
        next
          case nid: False
          show ?thesis
          proof (cases r')
            case (Inl e)
            then have "step_body lib n steps s = (Inl e, s2, t2)" using split b' by simp
            with y lt True b' Inl show ?thesis by (auto simp: step_loop_step)
          next
            case (Inr u)
            then have b2: "step_body lib m steps s = (Inr (), s2, t2)" "\<not> ms_idle t2" using b' nid by simp_all
            note d = step_loop_split_step [OF h(1) True h(2) b2]
            with y True b2 show ?thesis by (simp add: step_loop_step step_loop_done)
          qed
        qed
      qed
      with y show ?thesis by simp
    qed
  qed
  with assms show ?thesis by simp
qed


lemma step_loop_split2:
  assumes "step_loop lib m steps s = Some y" "m \<le> n" "ms_idle s" "then_run lib n y = Some z"
  shows "step_loop lib n steps s = Some z"
proof -
  have "step_loop lib m steps s = Some y \<and>
      (m \<le> n \<longrightarrow> ms_idle s \<longrightarrow> then_run lib n y = Some z \<longrightarrow> step_loop lib n steps s = Some z)"
  proof (rule step_loop.raw_induct
      [where P = "\<lambda>lib m steps s y. step_loop lib m steps s = Some y \<and>
        (m \<le> n \<longrightarrow> ms_idle s \<longrightarrow> then_run lib n y = Some z \<longrightarrow> step_loop lib n steps s = Some z)", OF _ assms(1)], goal_cases)
    case (1 f lib m steps s y)
    show ?case
    proof (cases "steps < m")
      case False
      with 1(2) show ?thesis by (auto simp: step_loop_done step_max_inner_idle)
    next
      case lt: True
      obtain r s1 t1 where b: "step_body lib m steps s = (r, s1, t1)" using prod_cases3 by blast
      have y: "step_loop lib m steps s = Some y"
        using 1(2) lt b 1(1) [of lib m s1 t1 y] by (auto simp: step_loop_step split: sum.splits)
      have "step_loop lib n steps s = Some z" if h: "m \<le> n" "ms_idle s" "then_run lib n y = Some z"
      proof -
        note split = step_body_split [OF h(1) lt h(2), of lib]
        have ltn: "steps < n" using lt h(1) by simp
        show ?thesis
        proof (cases "r = Inr () \<and> ms_idle t1")
          case True
          then have "step_body lib n steps s = (Inr (), s1, t1)" using split b by (simp add: then_complete_idle)
          moreover have "f lib m s1 t1 = Some y" using 1(2) lt b True by simp
          ultimately show ?thesis using 1(1) [of lib m s1 t1 y] h True ltn by (simp add: step_loop_step)
        next
          case nid: False
          show ?thesis
          proof (cases r)
            case (Inl e)
            then have "step_body lib n steps s = (Inl e, s1, t1)" "y = (Inl e, s1, t1)"
              using split b y lt by (simp_all add: step_loop_step)
            with ltn h(3) show ?thesis by (auto simp: step_loop_step)
          next
            case (Inr u)
            then have b2: "step_body lib m steps s = (Inr (), s1, t1)" "\<not> ms_idle t1" using b nid by simp_all
            note d = step_loop_split_step [OF h(1) lt h(2) b2]
            then have "y = (Inr (), s1, t1)" using y lt b2 by (simp add: step_loop_step step_loop_done)
            with d(1) h(3) show ?thesis by simp
          qed
        qed
      qed
      with y show ?thesis by simp
    qed
  qed
  with assms show ?thesis by simp
qed

lemma step_loop_split:
  assumes "m \<le> n" "ms_idle s"
  shows "step_loop lib n steps s = Option.bind (step_loop lib m steps s) (then_run lib n)"
proof (cases "Option.bind (step_loop lib m steps s) (then_run lib n)")
  case None
  with step_loop_split1 [OF _ assms, of lib steps] show ?thesis by (cases "step_loop lib n steps s") auto
next
  case (Some z)
  then obtain y where "step_loop lib m steps s = Some y" "then_run lib n y = Some z"
    by (cases "step_loop lib m steps s") auto
  with step_loop_split2 [OF _ assms] Some show ?thesis by simp
qed

lemma complete_split:
  assumes "partial_wf (ms_bcache s)" "m \<le> n"
  shows "then_complete lib n (Inr (), steps, s) = then_complete lib n (then_complete lib m (Inr (), steps, s))"
proof (cases "ms_idle s")
  case True
  then show ?thesis by (simp add: then_complete_idle)
next
  case False
  then have p: "pb_in_progress (bc_partial_block (ms_bcache s))"
    "pb_progress (bc_partial_block (ms_bcache s))
       < bc_len_instr (bc_entry (ms_bcache s) (pb_phys_addr (bc_partial_block (ms_bcache s))))"
    using assms(1) by (simp_all add: partial_wf_def)
  from run_partial_inner_split [OF p(1) less_imp_le [OF p(2)] assms(2), of lib "ms_core s" steps] p(1) show ?thesis
    by (auto simp: then_complete_def after_block_def complete_current_block_def split: prod.split sum.split)
qed

lemma complete_idle:
  assumes "partial_wf (ms_bcache s)" "then_complete lib m (Inr (), steps, s) = (Inr (), s1, t1)"
  shows "ms_idle t1 \<or> m \<le> s1"
proof (cases "ms_idle s")
  case True
  with assms(2) show ?thesis by (simp add: then_complete_idle)
next
  case False
  then have p: "pb_in_progress (bc_partial_block (ms_bcache s))"
    "pb_progress (bc_partial_block (ms_bcache s))
       < bc_len_instr (bc_entry (ms_bcache s) (pb_phys_addr (bc_partial_block (ms_bcache s))))"
    using assms(1) by (simp_all add: partial_wf_def)
  obtain r b c st where x: "run_partial_inner lib (ms_bcache s) (ms_core s) steps m = (r, b, c, st)"
    using prod_cases4 by blast
  from run_partial_inner_wf [OF p x] x assms(2) p(1) show ?thesis
    by (cases "st < m") (auto simp: then_complete_def after_block_def complete_current_block_def)
qed

lemma step_max_inner_split:
  assumes "partial_wf (ms_bcache s)" "m \<le> n"
  shows "step_max_inner lib n steps s = Option.bind (step_max_inner lib m steps s) (then_run lib n)"
proof -
  obtain r s1 t1 where c: "then_complete lib m (Inr (), steps, s) = (r, s1, t1)" using prod_cases3 by blast
  note sp = complete_split [OF assms, of lib steps, unfolded c]
  show ?thesis
  proof (cases r)
    case (Inl e)
    with c sp show ?thesis by (simp add: step_max_inner_eq)
  next
    case (Inr u)
    then have c': "then_complete lib m (Inr (), steps, s) = (Inr (), s1, t1)" using c by simp
    show ?thesis
    proof (cases "ms_idle t1")
      case True
      with c' sp Inr step_loop_split [OF assms(2) True] show ?thesis
        by (simp add: step_max_inner_eq [of _ _ steps s] then_complete_idle)
    next
      case False
      with complete_idle [OF assms(1) c'] have "m \<le> s1" by simp
      with c' sp Inr show ?thesis by (simp add: step_max_inner_eq step_loop_done)
    qed
  qed
qed

section \<open>Counting steps\<close>

lemma run_block_steps:
  assumes "run_block lib is pc steps core = (r, steps', core')"
  shows "steps \<le> steps' \<and> steps' \<le> steps + length is \<and> (r \<noteq> Inr () \<longrightarrow> steps' < steps + length is)
    \<and> (r = Inr () \<longrightarrow> is \<noteq> [] \<longrightarrow> steps < steps')"
  using assms
proof (induction "is" arbitrary: pc steps core)
  case Nil
  then show ?case by (simp add: run_block_Nil)
next
  case (Cons i "is")
  obtain u c where c: "run_instr_cacheable lib i core = (u, c)" by fastforce
  show ?case
  proof (cases "\<exists>w. u = Inr (Next w)")
    case True
    then obtain w where u: "u = Inr (Next w)" by blast
    with Cons.prems c have "run_block lib is (pc + width_u64 w) (steps + 1)
        (core_write_pc (pc + width_u64 w) c) = (r, steps', core')"
      by (simp add: run_block_Cons)
    from Cons.IH [OF this] show ?thesis by auto
  next
    case False
    then show ?thesis using Cons.prems c
      by (auto simp: run_block_Cons split: sum.splits prod.splits ProgramCounterUpdate.splits)
  qed
qed

lemma run_partial_loop_steps:
  assumes "run_partial_loop lib is pc steps n p core = (r, p', steps', core')" "steps < n"
  shows "steps \<le> steps' \<and> steps' \<le> n \<and> (\<forall>e. r = Some (Inl e) \<longrightarrow> steps' < n)
     \<and> ((\<forall>e. r \<noteq> Some (Inl e)) \<longrightarrow> is \<noteq> [] \<longrightarrow> steps < steps')"
  using assms
proof (induction "is" arbitrary: pc steps p core)
  case Nil
  then show ?case by simp
next
  case (Cons i "is")
  obtain u c where c: "run_instr_cacheable lib i core = (u, c)" by fastforce
  show ?case
  proof (cases "\<exists>w. u = Inr (Next w)")
    case True
    then obtain w where u: "u = Inr (Next w)" by blast
    show ?thesis
    proof (cases "n \<le> steps + 1")
      case True
      with Cons.prems c u show ?thesis by (auto simp: Let_def)
    next
      case False
      with Cons.prems c u have l: "run_partial_loop lib is (pc + width_u64 w) (steps + 1) n (p + 1)
          (core_write_pc (pc + width_u64 w) c) = (r, p', steps', core')"
        by (simp add: Let_def)
      from Cons.IH [OF l] False show ?thesis by auto
    qed
  next
    case False
    then show ?thesis using Cons.prems c
      by (auto split: sum.splits prod.splits ProgramCounterUpdate.splits)
  qed
qed

lemma run_partial_inner_steps:
  assumes "run_partial_inner lib b core steps n = (r, b', core', steps')" "steps \<le> n"
  shows "steps \<le> steps' \<and> steps' \<le> n \<and> (r \<noteq> Inr () \<longrightarrow> steps' < n)"
proof (cases "n \<le> steps")
  case True
  with assms show ?thesis by (auto simp: run_partial_inner_def)
next
  case False
  let ?p = "pb_progress (bc_partial_block b)" and ?e = "bc_entry b (pb_phys_addr (bc_partial_block b))"
  obtain o' p' s' c' where l: "run_partial_loop lib (drop ?p (bc_block ?e)) (hart_pc (core_hart core)) steps n ?p core
      = (o', p', s', c')"
    using prod_cases4 by blast
  from run_partial_loop_steps [OF l] assms(1) l False show ?thesis
    by (cases "case o' of Some r \<Rightarrow> r | None \<Rightarrow> Inr ()")
      (auto simp: run_partial_inner_def Let_def split: option.splits if_splits)
qed

lemma finish_step_steps:
  "finish_step pc steps x = (r, steps', s') \<Longrightarrow>
   (r = Inr () \<and> steps' = steps + 1) \<or> ((\<exists>e. r = Inl e) \<and> steps' = steps)"
  by (auto simp: finish_step_def split: prod.splits sum.splits)

lemma step_body_steps:
  assumes "step_body lib n steps s = (r, steps', s')" "steps < n"
  shows "steps' \<le> n \<and> (r \<noteq> Inr () \<longrightarrow> steps' < n)"
proof -
  let ?h = "core_hart (ms_core s)"
  let ?mode = "hart_mode ?h" and ?pc = "hart_pc ?h" and ?satp = "csr_read (hart_csrs ?h) CSR_satp"
  obtain tr t where t: "translate_instr_address ?mode ?satp ?pc s = (tr, t)" by fastforce
  show ?thesis
  proof (cases "\<exists>a block. tr = Inr a \<and> get_block (ms_bcache t) a = Some block")
    case False
    then obtain x where "finish_step ?pc steps x = (r, steps', s')"
      using assms(1) t by (cases tr) (auto simp: step_body_def Let_def split: option.splits)
    from finish_step_steps [OF this] assms(2) show ?thesis by auto
  next
    case True
    then obtain a block where a: "tr = Inr a" "get_block (ms_bcache t) a = Some block" by blast
    show ?thesis
    proof (cases "length block \<le> n - steps")
      case True
      obtain rr ss cc where b: "run_block lib block ?pc steps (ms_core t) = (rr, ss, cc)"
        using prod_cases3 by blast
      with True t a assms(1) have "rr = r" "ss = steps'" by (simp_all add: step_body_def Let_def)
      with run_block_steps [OF b] True assms(2) show ?thesis by auto
    next
      case False
      obtain rr bb cc ss where b: "run_block_partial lib a (ms_bcache t) (ms_core t) steps n = (rr, bb, cc, ss)"
        using prod_cases4 by blast
      with False t a assms(1) have e: "rr = r" "ss = steps'"
        by (simp_all add: step_body_def Let_def after_block_def)
      from b have "run_partial_inner lib ((ms_bcache t)\<lparr>bc_partial_block := (bc_partial_block (ms_bcache t))
          \<lparr>pb_in_progress := True, pb_progress := 0, pb_phys_addr := a\<rparr>\<rparr>) (ms_core t) steps n = (rr, bb, cc, ss)"
        by (simp add: run_block_partial_def)
      from run_partial_inner_steps [OF this] e assms(2) show ?thesis by simp
    qed
  qed
qed

text \<open>Returning normally means that exactly the steps asked for were made; an exception for the
  environment is raised before that.\<close>

lemma step_loop_steps:
  assumes "step_loop lib n steps s = Some y" "steps \<le> n"
  shows "case y of (Inr _, steps', _) \<Rightarrow> steps' = n | (Inl _, steps', _) \<Rightarrow> steps' < n"
proof -
  have "steps \<le> n \<longrightarrow> (case y of (Inr _, steps', _) \<Rightarrow> steps' = n | (Inl _, steps', _) \<Rightarrow> steps' < n)"
  proof (rule step_loop.raw_induct
      [where P = "\<lambda>lib n steps s y. steps \<le> n \<longrightarrow>
         (case y of (Inr _, steps', _) \<Rightarrow> steps' = n | (Inl _, steps', _) \<Rightarrow> steps' < n)", OF _ assms(1)],
      goal_cases)
    case (1 f lib n steps s y)
    obtain r s1 t1 where b: "step_body lib n steps s = (r, s1, t1)" using prod_cases3 by blast
    with 1(2) 1(1) [of lib n s1 t1 y] step_body_steps [OF b] show ?case
      by (cases r) (auto split: if_splits)
  qed
  with assms(2) show ?thesis by simp
qed

lemma step_max_inner_steps:
  assumes "step_max_inner lib n steps s = Some y" "steps \<le> n"
  shows "case y of (Inr _, steps', _) \<Rightarrow> steps' = n | (Inl _, steps', _) \<Rightarrow> steps' < n"
proof -
  obtain r b c st where x: "complete_current_block lib (ms_bcache s) (ms_core s) steps n = (r, b, c, st)"
    using prod_cases4 by blast
  then have "st \<le> n \<and> (r \<noteq> Inr () \<longrightarrow> st < n)"
    using run_partial_inner_steps [of lib "ms_bcache s" "ms_core s" steps n r b c st] assms(2)
    by (auto simp: complete_current_block_def split: if_splits)
  with assms x step_loop_steps [of lib n st] show ?thesis
    by (cases r) (auto simp: step_max_inner_def after_block_def)
qed

section \<open>A loop that does not end\<close>

text \<open>The first entry of a cache that was reset holds the empty block at address 0.  Fetching from
  physical address 0 finds it, runs none of its instructions, and tries again.\<close>

lemma step_loop_stuck:
  assumes "step_body lib n steps s = (Inr (), steps, s)" "steps < n"
  shows "step_loop lib n steps s = None"
proof (rule ccontr)
  assume "step_loop lib n steps s \<noteq> None"
  then obtain y where y: "step_loop lib n steps s = Some y" by blast
  have "\<not> (step_body lib n steps s = (Inr (), steps, s) \<and> steps < n)"
  proof (rule step_loop.raw_induct
      [where P = "\<lambda>lib n steps s y. \<not> (step_body lib n steps s = (Inr (), steps, s) \<and> steps < n)", OF _ y],
      goal_cases)
    case (1 f lib n steps s y)
    show ?case
    proof
      assume h: "step_body lib n steps s = (Inr (), steps, s) \<and> steps < n"
      then have "f lib n steps s = Some y" using 1(2) by simp
      from 1(1) [OF this] h show False by simp
    qed
  qed
  with assms show False by simp
qed

lemma step_body_empty_block:
  assumes "translate_instr_address (hart_mode (core_hart (ms_core s)))
       (csr_read (hart_csrs (core_hart (ms_core s))) CSR_satp) (hart_pc (core_hart (ms_core s))) s = (Inr a, t)"
    "get_block (ms_bcache t) a = Some []"
  shows "step_body lib n steps s = (Inr (), steps, t)"
  using assms by (simp add: step_body_def Let_def run_block_Nil)

lemma jump_to_zero_hangs:
  assumes s: "hart_mode (core_hart (ms_core s)) = Machine" "hart_pc (core_hart (ms_core s)) = 0"
    "tcache_coherent (ms_core s)" "ms_idle s" "get_block (ms_bcache s) 0 = Some []" and "0 < n"
  shows "step_max_inner lib n 0 s = None"
proof -
  let ?satp = "csr_read (hart_csrs (core_hart (ms_core s))) CSR_satp"
  have tr: "translate_with_prefetch (ms_core s) Machine ?satp 0 AccInstruction = Inr 0"
    by (simp add: translate_with_prefetch_def effective_translation_alg_def effective_translation_hart_mode_def)
  obtain t where t: "translate_instr_address Machine ?satp 0 s = (Inr 0, t)"
      "translate_instr_address Machine ?satp 0 t = (Inr 0, t)"
  proof (cases "tcache_try_translate (core_tcache (ms_core s)) Machine ?satp AccInstruction 0")
    case None
    let ?t = "s\<lparr>ms_core := (ms_core s)\<lparr>core_tcache :=
        tcache_cache_translation Machine ?satp AccInstruction 0 0 (core_tcache (ms_core s))\<rparr>\<rparr>"
    from None tr have "translate_instr_address Machine ?satp 0 s = (Inr 0, ?t)"
      by (simp add: translate_instr_address_def)
    moreover have "translate_instr_address Machine ?satp 0 ?t = (Inr 0, ?t)"
      by (simp add: translate_instr_address_def tcache_try_cached)
    ultimately show ?thesis by (rule that)
  next
    case (Some p)
    then have "p = 0" using s(3) tr by (auto simp: tcache_coherent_def)
    with Some have "translate_instr_address Machine ?satp 0 s = (Inr 0, s)"
      by (simp add: translate_instr_address_def)
    from that [OF this this] show ?thesis .
  qed
  note f = translate_instr_address_frame [OF t(1)]
  have b: "step_body lib n 0 s = (Inr (), 0, t)" "step_body lib n 0 t = (Inr (), 0, t)"
    using step_body_empty_block [of s 0 t lib n 0] step_body_empty_block [of t 0 t lib n 0] t f s by simp_all
  have "step_loop lib n 0 s = step_loop lib n 0 t"
    by (subst step_loop_step [OF \<open>0 < n\<close>]) (simp add: b(1))
  then show ?thesis
    using s(4) step_loop_stuck [OF b(2) \<open>0 < n\<close>] by (simp add: step_max_inner_idle)
qed

lemma reset_block_zero: "get_block (bcache_reset b) 0 = Some []" "idle (bcache_reset b)"
  by (simp_all add: get_block_def bcache_reset_def Let_def reset_to_def bc_reset_def bc_block_def idle_def)

end
