(* ===== verification/Decoded.thy ===== *)
theory Decoded
  imports Machine_State
begin

text \<open>
  What the rest of the machine may rely on in a decoded instruction: the targets of jumps and branches
  are even, and the debug assertions of interpreter/rv32c.rs, interpreter/rv64c.rs and
  interpreter/rv64dc.rs hold.
\<close>

section \<open>Immediates\<close>

lemma even_iff_bit: "even w \<longleftrightarrow> \<not> bit w 0" for w :: "'a::len word"
  by (simp add: bit_0)

lemma dvd_sint_iff:
  fixes w :: "'a::len word"
  assumes "\<And>n. n < k \<Longrightarrow> \<not> bit w n" "k \<le> LENGTH('a)"
  shows "2 ^ k dvd sint w"
proof -
  have "take_bit k (sint w) = 0"
    by (rule bit_eqI) (use assms in \<open>auto simp: bit_simps\<close>)
  then show ?thesis by (simp add: take_bit_eq_0_iff)
qed

lemma bit_sign_extend_u16:
  assumes "n < l" "l \<le> 16"
  shows "bit (sign_extend_u16 v l) n \<longleftrightarrow> bit v n"
  using assms by (auto simp: sign_extend_u16_def Let_def bit_signed_iff bit_signed_drop_bit_iff bit_push_bit_iff)

lemma sint_ucast_u16: "0 \<le> sint (ucast (v :: u16) :: i64)"
  by (simp add: sint_uint signed_take_bit_nonnegative_iff bit_uint_iff bit_ucast_iff)
    (use bit_word_lt [of v 63] in auto)

lemmas c_imm_defs = clw_imm_def cld_imm_def ci_lwsp_imm_def ci_ldsp_imm_def css_swsp_imm_def
  css_sdsp_imm_def ciw_imm_def

lemma c_imm_nonneg:
  "0 \<le> sint (clw_imm x)" "0 \<le> sint (cld_imm x)" "0 \<le> sint (ci_lwsp_imm x)" "0 \<le> sint (ci_ldsp_imm x)"
  "0 \<le> sint (css_swsp_imm x)" "0 \<le> sint (css_sdsp_imm x)" "0 \<le> sint (ciw_imm x)"
  unfolding c_imm_defs by (rule sint_ucast_u16)+

lemma c_imm_scaled:
  "4 dvd sint (clw_imm x)" "4 dvd sint (ci_lwsp_imm x)" "4 dvd sint (css_swsp_imm x)" "4 dvd sint (ciw_imm x)"
  "8 dvd sint (cld_imm x)" "8 dvd sint (ci_ldsp_imm x)" "8 dvd sint (css_sdsp_imm x)"
  "16 dvd sint (ci_addi16sp_imm x)"
proof -
  have 4: "4 dvd sint w" if "\<And>n. n < 2 \<Longrightarrow> \<not> bit w n" for w :: i64
    using dvd_sint_iff [of 2 w] that by simp
  have 8: "8 dvd sint w" if "\<And>n. n < 3 \<Longrightarrow> \<not> bit w n" for w :: i64
    using dvd_sint_iff [of 3 w] that by simp
  have 16: "16 dvd sint w" if "\<And>n. n < 4 \<Longrightarrow> \<not> bit w n" for w :: i64
    using dvd_sint_iff [of 4 w] that by simp
  show "4 dvd sint (clw_imm x)" "4 dvd sint (ci_lwsp_imm x)" "4 dvd sint (css_swsp_imm x)"
    "4 dvd sint (ciw_imm x)"
    by (rule 4, simp add: c_imm_defs bit_simps)+
  show "8 dvd sint (cld_imm x)" "8 dvd sint (ci_ldsp_imm x)" "8 dvd sint (css_sdsp_imm x)"
    by (rule 8, simp add: c_imm_defs bit_simps)+
  show "16 dvd sint (ci_addi16sp_imm x)"
    by (rule 16) (simp add: ci_addi16sp_imm_def bit_sign_extend_u16 bit_simps)
qed

lemma imm_even:
  "even (b_imm i)" "even (j_imm i)" "even (c_j_imm x)" "even (cb_imm x)"
  by (simp_all add: even_iff_bit word_bits c_j_imm_def cb_imm_def bit_sign_extend_u16 bit_simps)
    (simp_all add: bit_0)

lemma ci_addi16sp_nonzero:
  assumes "\<not> (bits_subset x 6 2 = 0 \<and> \<not> bit_at x 12)"
  shows "ci_addi16sp_imm x \<noteq> 0"
proof
  assume z: "ci_addi16sp_imm x = 0"
  have b: "\<not> bit (ci_addi16sp_imm x) n" for n by (simp add: z)
  have "\<not> bit x 12" "\<not> bit x 3" "\<not> bit x 4" "\<not> bit x 5" "\<not> bit x 2" "\<not> bit x 6"
    using b [of 9] b [of 7] b [of 8] b [of 6] b [of 5] b [of 4]
    by (simp_all add: ci_addi16sp_imm_def bit_sign_extend_u16 bit_simps bit_bits_subset numeral_2_eq_2)
  moreover have "bits_subset x 6 2 = 0"
  proof (rule bit_eqI)
    fix n :: nat
    have "n < 5 \<longleftrightarrow> n = 0 \<or> n = 1 \<or> n = 2 \<or> n = 3 \<or> n = 4" by linarith
    with calculation show "bit (bits_subset x 6 2) n = bit 0 n"
      by (auto simp: bit_bits_subset numeral_eq_Suc)
  qed
  ultimately show False using assms by (simp add: bit_at_iff)
qed

section \<open>Decoded instructions\<close>

fun branch_imm :: "InstrB \<Rightarrow> i64" where
  "branch_imm (Beq a) = sb_imm a" | "branch_imm (Bne a) = sb_imm a" | "branch_imm (Blt a) = sb_imm a"
| "branch_imm (Bge a) = sb_imm a" | "branch_imm (Bltu a) = sb_imm a" | "branch_imm (Bgeu a) = sb_imm a"

text \<open>The debug assertions of interpreter/rv64dc.rs; those of rv32c.rs and rv64c.rs are with their
  instructions.\<close>

fun dc_asserts :: "InstrDC \<Rightarrow> bool" where
  "dc_asserts (CFld a) \<longleftrightarrow> uimm_scaled 8 (fl_imm a)"
| "dc_asserts (CFldsp a) \<longleftrightarrow> uimm_scaled 8 (cibd_imm a)"
| "dc_asserts (CFsd a) \<longleftrightarrow> uimm_scaled 8 (fs_imm a)"
| "dc_asserts (CFsdsp a) \<longleftrightarrow> uimm_scaled 8 (cssd_imm a)"

fun decoded_ok :: "InstrCacheable \<Rightarrow> bool" where
  "decoded_ok (RV64I_B i) \<longleftrightarrow> even (branch_imm i)"
| "decoded_ok (RV64I_J (Jal a)) \<longleftrightarrow> even (uj_imm a)"
| "decoded_ok (RV32C (CJ a)) \<longleftrightarrow> even (cj_imm a)"
| "decoded_ok (RV32C (CBeqz a)) \<longleftrightarrow> even (cib_imm a)"
| "decoded_ok (RV32C (CBnez a)) \<longleftrightarrow> even (cib_imm a)"
| "decoded_ok (RV32C i) \<longleftrightarrow> c32_asserts i"
| "decoded_ok (RV64C i) \<longleftrightarrow> c64_asserts i"
| "decoded_ok (RV64DC i) \<longleftrightarrow> dc_asserts i"
| "decoded_ok _ \<longleftrightarrow> True"

fun instr_ok :: "Instr \<Rightarrow> bool" where
  "instr_ok (Cacheable i) \<longleftrightarrow> decoded_ok i"
| "instr_ok (Uncacheable i) \<longleftrightarrow> True"

lemma rounding_macros_ok:
  "(\<And>a. decoded_ok (v1 a)) \<Longrightarrow> decoded_ok (f_r_rm_1_instr v1 instr rm)"
  "(\<And>a. decoded_ok (v2 a)) \<Longrightarrow> decoded_ok (f_r_rm_2_instr v2 instr rs2 rm)"
  "(\<And>a. decoded_ok (v3 a)) \<Longrightarrow> decoded_ok (f_r_rm_3_instr v3 instr)"
  "(\<And>a. decoded_ok (v4 a)) \<Longrightarrow> decoded_ok (f_r_fmt_int_instr v4 instr rm)"
  "(\<And>a. decoded_ok (v5 a)) \<Longrightarrow> decoded_ok (f_r_int_fmt_instr v5 instr rm)"
  "(\<And>a. decoded_ok (v6 a)) \<Longrightarrow> decoded_ok (csr_instr v6 instr)"
  "(\<And>a. decoded_ok (v7 a)) \<Longrightarrow> decoded_ok (csri_instr v7 instr)"
  by (simp_all add: f_r_rm_1_instr_def f_r_rm_2_instr_def f_r_rm_3_instr_def
      f_r_fmt_int_instr_def f_r_int_fmt_instr_def csr_instr_def csri_instr_def split: option.split)

lemma parse_uncompressed_ok: "instr_ok (parse_uncompressed_instruction w)"
proof -
  have arms: "decoded_ok (parse_arith w)" "decoded_ok (parse_arith_w w)" "decoded_ok (parse_arith_i w)"
    "decoded_ok (parse_load w)" "decoded_ok (parse_arith_iw w)" "decoded_ok (parse_amo w)"
    "decoded_ok (parse_store w)" "decoded_ok (parse_branch w)" "decoded_ok (parse_fmadd w)"
    "decoded_ok (parse_fmsub w)" "decoded_ok (parse_fnmsub w)" "decoded_ok (parse_fnmadd w)"
    "decoded_ok (parse_fp_load w)" "decoded_ok (parse_fp_store w)" "decoded_ok (parse_jalr w)"
    by (simp_all add: parse_arm_defs rounding_macros_ok b_instr_def imm_even if_distrib [of decoded_ok]
        cong: if_cong)
  have "decoded_ok (parse_fp w)"
    by (simp add: parse_fp_def parse_fp_s_def parse_fp_d_def Let_def rounding_macros_ok
        if_distrib [of decoded_ok] cong: if_cong)
  moreover have "instr_ok (parse_synch w)" "instr_ok (parse_sys w)"
    by (simp_all add: parse_synch_def parse_sys_def rounding_macros_ok if_distrib [of instr_ok] cong: if_cong)
  ultimately show ?thesis
    by (simp add: parse_uncompressed_instruction_def Let_def arms j_instr_def imm_even
        if_distrib [of instr_ok] cong: if_cong)
qed

lemma parse_compressed_ok: "instr_ok (parse_compressed_instruction w)"
proof -
  have c0: "decoded_ok (parse_c0 w)"
    using c_imm_nonneg(7) [of w]
    by (simp add: parse_c0_def Let_def uimm_scaled_def c_imm_nonneg c_imm_scaled if_distrib [of decoded_ok]
        order_less_le signed_eq_0_iff cong: if_cong)
  have c1: "decoded_ok (parse_c1 w)"
    using ci_addi16sp_nonzero [of w]
    by (simp add: parse_c1_def parse_c1_arith_def Let_def c_imm_scaled imm_even cc_instr_def
        if_distrib [of decoded_ok] cong: if_cong)
  have "instr_ok (parse_c2 w)"
    by (simp add: parse_c2_def Let_def uimm_scaled_def c_imm_nonneg c_imm_scaled
        if_distrib [of instr_ok] if_distrib [of decoded_ok] cong: if_cong)
  with c0 c1 show ?thesis
    by (simp add: parse_compressed_instruction_eq parse_compressed_instruction_inner_def Let_def)
qed

lemma validated_ok: "validated a i \<Longrightarrow> decoded_ok i"
  using parse_compressed_ok parse_uncompressed_ok unfolding validated_def by (metis instr_ok.simps(1))

end
