(* ===== verification/Machine_Invariant.thy ===== *)
theory Machine_Invariant
  imports Decoded
begin

text \<open>
  The invariant of the machine between steps: the program counter is even, the control and status
  registers hold legal values, the caches hold decoded instructions inside their pages and have no
  entries that a fence should have removed.  Every step preserves it.
\<close>

section \<open>Targets of jumps\<close>

lemma then_next_Set [simp]: "then_next w m s \<noteq> (Inr (Set pc), s')"
  by (auto simp: then_next_def and_then_def split: prod.splits sum.splits)

lemma even_and_not_1: "even (w AND NOT 1)" for w :: "'a::len word"
  by (simp add: even_iff_bit bit_simps)

lemmas instr_type_defs = run_r_type_instr_def run_i_type_instr_def run_b_type_instr_def
  run_u_type_instr_def run_cr_type_instr_def run_ci_type_instr_def run_cb_type_instr_def

lemma run_groups_Set:
  "run_instr_R w ir s \<noteq> (Inr (Set pc), s')" "run_instr_I w ii s \<noteq> (Inr (Set pc), s')"
  "run_instr_S w ist s \<noteq> (Inr (Set pc), s')" "run_instr_U w iu s \<noteq> (Inr (Set pc), s')"
  "run_instr_M w im s \<noteq> (Inr (Set pc), s')" "run_instr_A w ia s \<noteq> (Inr (Set pc), s')"
  "run_instr_F lib w if' s \<noteq> (Inr (Set pc), s')" "run_instr_D lib w id' s \<noteq> (Inr (Set pc), s')"
  "run_instr_Csr w icsr s \<noteq> (Inr (Set pc), s')" "run_instr_C64 w ic s \<noteq> (Inr (Set pc), s')"
  "run_instr_DC w idc s \<noteq> (Inr (Set pc), s')"
proof -
  note [simp] = instr_type_defs
  show "run_instr_R w ir s \<noteq> (Inr (Set pc), s')" by (cases ir) simp_all
  show "run_instr_I w ii s \<noteq> (Inr (Set pc), s')" by (cases ii) simp_all
  show "run_instr_S w ist s \<noteq> (Inr (Set pc), s')" by (cases ist) simp_all
  show "run_instr_U w iu s \<noteq> (Inr (Set pc), s')" by (cases iu) simp_all
  show "run_instr_M w im s \<noteq> (Inr (Set pc), s')" by (cases im) simp_all
  show "run_instr_A w ia s \<noteq> (Inr (Set pc), s')" by (cases ia) simp_all
  show "run_instr_F lib w if' s \<noteq> (Inr (Set pc), s')" by (cases if') simp_all
  show "run_instr_D lib w id' s \<noteq> (Inr (Set pc), s')" by (cases id') simp_all
  show "run_instr_Csr w icsr s \<noteq> (Inr (Set pc), s')" by (cases icsr) simp_all
  show "run_instr_C64 w ic s \<noteq> (Inr (Set pc), s')" by (cases ic) simp_all
  show "run_instr_DC w idc s \<noteq> (Inr (Set pc), s')" by (cases idc) simp_all
qed

lemma run_branch_target:
  assumes "run_instr_B i s = (Inr (Set pc), s')" "even (branch_imm i)" "even (hart_pc (core_hart s))"
  shows "even pc"
  using assms
  by (cases i) (auto simp: instr_type_defs run_beq_def run_beq_impl_def run_bne_def run_bne_impl_def
      run_blt_def run_bge_def run_bltu_def run_bgeu_def Let_def)

lemmas jump_defs = hart_jump_def run_jal_def run_jal_impl_def run_jalr_def run_jalr_impl_def
  run_cj_def run_cjr_def run_cjalr_def run_cbeqz_def run_cbnez_def run_beq_impl_def run_bne_impl_def

lemma run_instr_cacheable_target:
  assumes "run_instr_cacheable lib i s = (Inr (Set pc), s')" "decoded_ok i" "even (hart_pc (core_hart s))"
  shows "even pc"
proof -
  have J: "even pc" if "run_instr_J j s = (Inr (Set pc), s')" "decoded_ok (RV64I_J j)" for j
    using that assms(3) even_and_not_1 by (cases j) (auto simp: jump_defs Let_def)
  have C: "even pc" if "run_instr_C32 w c s = (Inr (Set pc), s')" "decoded_ok (RV32C c)" for w c
    using that assms(3) even_and_not_1 by (cases c) (auto simp: jump_defs instr_type_defs Let_def)
  show ?thesis
    using assms run_branch_target J C by (cases i) (simp_all add: run_groups_Set)
qed

section \<open>The core\<close>

definition core_inv :: "MachineCoreState \<Rightarrow> bool" where
  "core_inv c \<longleftrightarrow>
     even (hart_pc (core_hart c)) \<and> csr_wf 0 (hart_csrs (core_hart c)) \<and> tcache_wf (core_tcache c)"

lemma core_inv_frame: "core_frame c c' \<Longrightarrow> core_inv c \<Longrightarrow> core_inv c'"
  by (auto simp: core_inv_def core_frame_def)

lemma core_inv_write_pc: "core_inv c \<Longrightarrow> even pc \<Longrightarrow> core_inv (core_write_pc pc c)"
  by (simp add: core_inv_def core_write_pc_def)

lemma core_inv_cacheable: "run_instr_cacheable lib i c = (r, c') \<Longrightarrow> core_inv c \<Longrightarrow> core_inv c'"
  using core_inv_frame frames_pair run_instr_cacheable_frames by blast

lemma even_width: "even (width_u64 w)"
  by (cases w) (simp_all add: width_u64_def)

lemma csr_wf_take_trap:
  assumes "csr_wf misa (hart_csrs h)" "take_trap t pc h = (a, h')"
  shows "csr_wf misa (hart_csrs h')"
  using assms by (auto simp: take_trap_def take_trap_from_mode_def Let_def csr_wf_write split: prod.splits)

lemma even_handler:
  assumes "take_trap t pc h = (a, h')"
  shows "even a"
proof -
  have "a AND 3 = 0"
    using take_trap_frame(7) [of t "hart_mode h" pc h a h'] assms get_trap_handler_align
    by (simp add: take_trap_def)
  then have "\<not> bit (a AND 3) 0" by simp
  then show ?thesis by (simp add: even_iff_bit bit_and_iff)
qed

lemma core_inv_handle:
  assumes "handle_step_result pc r c = (r', c')" "core_inv c" "even pc"
    "\<And>a. r = Inr (Set a) \<Longrightarrow> even a"
  shows "core_inv c'"
proof (cases r)
  case (Inr u)
  with assms show ?thesis
    by (cases u) (auto simp: handle_step_result_def Let_def intro!: core_inv_write_pc even_width dvd_add)
next
  case (Inl e)
  show ?thesis
  proof (cases "environ_try_from e")
    case (Inl x)
    obtain a h where t: "take_trap (TrapExc e) pc (core_hart c) = (a, h)" by fastforce
    with assms(1) Inl \<open>r = Inl e\<close> have "c' = core_write_pc a (c\<lparr>core_hart := h\<rparr>)"
      by (simp add: handle_step_result_def address_on_exception_def Let_def)
    with csr_wf_take_trap [OF _ t] even_handler [OF t] assms(2) show ?thesis
      by (simp add: core_inv_def core_write_pc_def)
  next
    case (Inr x)
    with assms \<open>r = Inl e\<close> show ?thesis
      by (auto simp: handle_step_result_def address_on_exception_def Let_def intro: core_inv_write_pc)
  qed
qed

section \<open>Blocks\<close>

lemma even_unat [simp]: "even (unat a) \<longleftrightarrow> even a" for a :: "'a::len word"
proof -
  have "bit (unat a) 0 = bit a 0" unfolding bit_unsigned_iff by simp
  then show ?thesis by (simp add: bit_0)
qed

definition cached_ok :: "Address \<Rightarrow> InstrCacheable \<Rightarrow> bool" where
  "cached_ok a i \<longleftrightarrow> validated a i \<and> even a"

lemma cached_ok_placed: "cached_ok a i \<Longrightarrow> placed a i"
  by (simp add: cached_ok_def placed_validated)

lemma block_at_decoded: "block_at cached_ok a is \<Longrightarrow> list_all decoded_ok is"
  by (induction "is" arbitrary: a) (auto simp: cached_ok_def validated_ok)

lemma core_inv_error:
  assumes "handle_step_result (hart_pc (core_hart c0)) (Inl e) c = (r', c')" "core_inv c" "core_inv c0"
  shows "core_inv c'"
  by (rule core_inv_handle [OF assms(1,2)]) (use assms(3) in \<open>simp_all add: core_inv_def\<close>)

lemma core_inv_next:
  assumes "run_instr_cacheable lib i c = (Inr (Next w), c')" "core_inv c"
  shows "core_inv (core_write_pc (hart_pc (core_hart c) + width_u64 w) c')"
  using assms core_inv_cacheable [OF assms] even_width by (intro core_inv_write_pc) (simp_all add: core_inv_def)

lemma core_inv_set:
  assumes "run_instr_cacheable lib i c = (Inr (Set pc), c')" "core_inv c" "decoded_ok i"
  shows "core_inv (core_write_pc pc c')"
  using run_instr_cacheable_target [OF assms(1,3)] core_inv_cacheable [OF assms(1,2)] assms(2)
  by (intro core_inv_write_pc) (simp_all add: core_inv_def)

lemma run_block_core_inv:
  assumes "run_block lib is (hart_pc (core_hart core)) steps core = (r, steps', core')"
    "core_inv core" "list_all decoded_ok is"
  shows "core_inv core'"
  using assms
proof (induction "is" arbitrary: steps core)
  case Nil
  then show ?case by (simp add: run_block_Nil)
next
  case (Cons i "is")
  let ?pc = "hart_pc (core_hart core)"
  obtain u c where c: "run_instr_cacheable lib i core = (u, c)" by fastforce
  show ?case
  proof (cases "\<exists>w. u = Inr (Next w)")
    case True
    then obtain w where u: "u = Inr (Next w)" by blast
    from Cons.prems c u have "run_block lib is (?pc + width_u64 w) (steps + 1)
        (core_write_pc (?pc + width_u64 w) c) = (r, steps', core')"
      by (simp add: run_block_Cons)
    with Cons.IH [of "core_write_pc (?pc + width_u64 w) c" "steps + 1"] core_inv_next [OF c [unfolded u]]
      Cons.prems(2,3) show ?thesis by simp
  next
    case False
    from c Cons.prems(2) have ci: "core_inv c" by (rule core_inv_cacheable)
    show ?thesis
    proof (cases u)
      case (Inl e)
      with Cons.prems(1) c obtain x where "handle_step_result ?pc (Inl e) c = (x, core')"
        by (auto simp: run_block_Cons split: prod.splits sum.splits)
      from core_inv_error [OF this ci Cons.prems(2)] show ?thesis .
    next
      case (Inr v)
      with False obtain pc where v: "u = Inr (Set pc)" by (cases v) auto
      with Cons.prems(1) c have "core' = core_write_pc pc c" by (simp add: run_block_Cons)
      with core_inv_set [OF c [unfolded v] Cons.prems(2)] Cons.prems(3) show ?thesis by simp
    qed
  qed
qed

lemma run_partial_loop_core_inv:
  assumes "run_partial_loop lib is (hart_pc (core_hart core)) steps n p core = (r, p', steps', core')"
    "core_inv core" "list_all decoded_ok is"
  shows "core_inv core'"
  using assms
proof (induction "is" arbitrary: steps p core)
  case Nil
  then show ?case by simp
next
  case (Cons i "is")
  let ?pc = "hart_pc (core_hart core)"
  obtain u c where c: "run_instr_cacheable lib i core = (u, c)" by fastforce
  show ?case
  proof (cases "\<exists>w. u = Inr (Next w)")
    case True
    then obtain w where u: "u = Inr (Next w)" by blast
    note n = core_inv_next [OF c [unfolded u] Cons.prems(2)]
    show ?thesis
    proof (cases "n \<le> steps + 1")
      case True
      with Cons.prems(1) c u n show ?thesis by (auto simp: Let_def)
    next
      case False
      with Cons.prems(1) c u have "run_partial_loop lib is (?pc + width_u64 w) (steps + 1) n (p + 1)
          (core_write_pc (?pc + width_u64 w) c) = (r, p', steps', core')"
        by (simp add: Let_def)
      with Cons.IH [of "core_write_pc (?pc + width_u64 w) c"] n Cons.prems(3) show ?thesis by simp
    qed
  next
    case False
    from c Cons.prems(2) have ci: "core_inv c" by (rule core_inv_cacheable)
    show ?thesis
    proof (cases u)
      case (Inl e)
      with Cons.prems(1) c obtain x where "handle_step_result ?pc (Inl e) c = (x, core')"
        by (auto split: prod.splits sum.splits)
      from core_inv_error [OF this ci Cons.prems(2)] show ?thesis .
    next
      case (Inr v)
      with False obtain pc where v: "u = Inr (Set pc)" by (cases v) auto
      with Cons.prems(1) c have "core' = core_write_pc pc c" by simp
      with core_inv_set [OF c [unfolded v] Cons.prems(2)] Cons.prems(3) show ?thesis by simp
    qed
  qed
qed

section \<open>The machine\<close>

definition partial_inv :: "BlockCache \<Rightarrow> bool" where
  "partial_inv b \<longleftrightarrow>
     partial_wf b
     \<and> (pb_in_progress (bc_partial_block b) \<longrightarrow>
        bc_fence (bc_entry b (pb_phys_addr (bc_partial_block b))) = bc_fence_counter b)"

definition caches_inv :: "InstructionCache \<Rightarrow> BlockCache \<Rightarrow> bool" where
  "caches_inv ic b \<longleftrightarrow>
     icache_valid ic \<and> icache_fresh ic \<and> bcache_inv cached_ok b \<and> bcache_fresh b"

definition machine_inv :: "MachineState \<Rightarrow> bool" where
  "machine_inv s \<longleftrightarrow>
     core_inv (ms_core s) \<and> caches_inv (ms_icache s) (ms_bcache s) \<and> partial_inv (ms_bcache s)"

lemma bcache_inv_partial [simp]:
  "bcache_inv P (b\<lparr>bc_partial_block := p\<rparr>) = bcache_inv P b"
  by (simp add: bcache_inv_def bc_link_def)

lemma caches_inv_partial [simp]:
  "caches_inv ic (b\<lparr>bc_partial_block := p\<rparr>) = caches_inv ic b"
  by (simp add: caches_inv_def)

lemma idle_partial_inv: "idle b \<Longrightarrow> partial_inv b"
  by (simp add: partial_inv_def partial_wf_def idle_def)

lemma run_partial_inner_inv:
  assumes "run_partial_inner lib b core steps n = (r, b', core', steps')"
    "core_inv core" "caches_inv ic b" "pb_in_progress (bc_partial_block b)"
    "pb_progress (bc_partial_block b) < bc_len_instr (bc_entry b (pb_phys_addr (bc_partial_block b)))"
    "bc_fence (bc_entry b (pb_phys_addr (bc_partial_block b))) = bc_fence_counter b"
  shows "core_inv core' \<and> caches_inv ic b' \<and> partial_inv b'"
proof -
  let ?p = "pb_progress (bc_partial_block b)" and ?a = "pb_phys_addr (bc_partial_block b)"
  let ?e = "bc_entry b ?a"
  have "entry_ok cached_ok (bc_fence_counter b) ?e"
    using assms(3) cache_index_bound by (simp add: caches_inv_def bcache_inv_def)
  then have "list_all decoded_ok (bc_block ?e)"
    using assms(6) block_at_decoded by (auto simp: entry_ok_def)
  then have d: "list_all decoded_ok (drop ?p (bc_block ?e))"
    by (metis append_take_drop_id list_all_append)
  obtain o' p' s' c' where l: "run_partial_loop lib (drop ?p (bc_block ?e)) (hart_pc (core_hart core)) steps n ?p core
      = (o', p', s', c')"
    using prod_cases4 by blast
  note ci = run_partial_loop_core_inv [OF l assms(2) d]
  have "core_inv core'"
    using assms(1,2) ci l by (auto simp: run_partial_inner_def Let_def split: if_splits option.splits)
  moreover obtain q where b': "b' = b\<lparr>bc_partial_block := q\<rparr>"
    and q: "pb_in_progress q \<longrightarrow> pb_phys_addr q = ?a"
    using run_partial_inner_only [OF assms(1)] by blast
  moreover have "partial_wf b'" using run_partial_inner_wf [OF assms(4,5,1)] by simp
  ultimately show ?thesis using assms(3,6) q by (auto simp: partial_inv_def)
qed

section \<open>Steps\<close>

lemma translate_instr_address_inv:
  assumes "translate_instr_address mode satp va s = (r, s')" "machine_inv s" "even va"
  shows "machine_inv s'" "r = Inr a \<Longrightarrow> even a"
proof -
  show "machine_inv s'"
    using assms(1,2)
    by (auto simp: translate_instr_address_def machine_inv_def core_inv_def tcache_wf_cache
        split: option.splits sum.splits)
  have o: "even b" if "b AND mask 12 = va AND mask 12" for b :: u64
  proof -
    have "bit (b AND mask 12) 0 = bit (va AND mask 12) 0" using that by simp
    with assms(3) show ?thesis by (simp add: even_iff_bit bit_and_iff bit_mask_iff)
  qed
  have hit: "even a" if "tcache_try_translate (core_tcache (ms_core s)) mode satp t va = Some a" for t
    using o tcache_wf_hit [OF _ that] assms(2) by (simp add: machine_inv_def core_inv_def OFFSET_MASK_eq)
  assume "r = Inr a"
  with assms(1) show "even a"
    using hit assms(3) o sv_translate_impl_offset
    by (auto simp: translate_instr_address_def translate_with_prefetch_def Let_def map_err_Inr_iff
        split: option.splits sum.splits TranslationAlgorithm.splits)
qed

lemma caches_inv_cache:
  assumes "caches_inv ic b" "cached_ok a i"
  shows "caches_inv (icache_cache_inner a i ic) (push_instr (instr_bytes i) (a, i) b)"
  using assms cached_ok_placed [OF assms(2)]
  by (auto simp: caches_inv_def cached_ok_def intro!: icache_valid_inner icache_fresh_cache push_instr_inv
      bcache_fresh_push) (simp add: bcache_inv_def)

lemma partial_inv_push: "idle b \<Longrightarrow> partial_inv (push_instr w e b)"
  by (rule idle_partial_inv) simp

lemma store_fetched_inv:
  assumes "machine_inv s" "ms_idle s" "even a"
  shows "store_fetched (cache_compressed (push_instr (width_u64 Compressed)) a raw (ms_icache s) (ms_bcache s)) s
      = (r, s') \<Longrightarrow> machine_inv s' \<and> (\<forall>i. r = Inr i \<longrightarrow> instr_ok i)"
    "store_fetched (cache_uncompressed (push_instr (width_u64 Uncompressed)) a raw' (ms_icache s) (ms_bcache s)) s
      = (r, s') \<Longrightarrow> machine_inv s' \<and> (\<forall>i. r = Inr i \<longrightarrow> instr_ok i)"
proof -
  have c: "caches_inv (ms_icache s) (ms_bcache s)" using assms(1) by (simp add: machine_inv_def)
  have w: "width_u64 Compressed = instr_bytes i" "cached_ok a i"
    if "parse_compressed_instruction raw = Cacheable i" for i
    using parse_compressed_width [of raw] that assms(3)
    by (simp_all add: instr_bytes_def cached_ok_def validatedI(1))
  show "store_fetched (cache_compressed (push_instr (width_u64 Compressed)) a raw (ms_icache s) (ms_bcache s)) s
      = (r, s') \<Longrightarrow> machine_inv s' \<and> (\<forall>i. r = Inr i \<longrightarrow> instr_ok i)"
    using assms c w parse_compressed_ok [of raw] caches_inv_cache [OF c]
    by (auto simp: store_fetched_def cache_compressed_def Let_def machine_inv_def partial_inv_push
        split: Instr.splits)
  have w': "width_u64 Uncompressed = instr_bytes i" "cacheable_uncompressed a \<Longrightarrow> cached_ok a i"
    if "parse_uncompressed_instruction raw' = Cacheable i" for i
    using parse_uncompressed_width [of raw'] that assms(3)
    by (simp_all add: instr_bytes_def cached_ok_def validatedI(2))
  show "store_fetched (cache_uncompressed (push_instr (width_u64 Uncompressed)) a raw' (ms_icache s) (ms_bcache s)) s
      = (r, s') \<Longrightarrow> machine_inv s' \<and> (\<forall>i. r = Inr i \<longrightarrow> instr_ok i)"
    using assms c w' parse_uncompressed_ok [of raw'] caches_inv_cache [OF c]
    by (auto simp: store_fetched_def cache_uncompressed_def Let_def machine_inv_def partial_inv_push
        split: Instr.splits if_splits)
qed

lemma fetch_instr_inv:
  assumes "fetch_instr mode satp va pa s = (r, s')" "machine_inv s" "ms_idle s" "even va" "even pa"
  shows "machine_inv s' \<and> (\<forall>i. r = Inr i \<longrightarrow> instr_ok i)"
proof (cases "fetch_instr_halfword s pa")
  case (Inl e)
  with assms show ?thesis by (auto simp: fetch_instr_def)
next
  case (Inr h)
  show ?thesis
  proof (cases "is_compressed h")
    case True
    with Inr assms store_fetched_inv(1) [OF assms(2,3,5)] show ?thesis
      by (simp add: fetch_instr_def)
  next
    case False
    define up where "up = (if (pa + 2) mod PAGE_SIZE = 0
       then translate_instr_address mode satp (va + 2) else (\<lambda>s. (Inr (pa + 2), s)))"
    obtain r1 t where t: "up s = (r1, t)" by fastforce
    have "machine_inv t \<and> ms_idle t"
      using t translate_instr_address_inv(1) [OF _ assms(2)] translate_instr_address_frame(2) assms(2-4)
      by (auto simp: up_def split: if_splits)
    with store_fetched_inv(2) [of t pa] assms Inr False t show ?thesis
      by (auto simp: fetch_instr_def and_then_def Let_def up_def [symmetric] split: sum.splits)
  qed
qed

lemma caches_inv_invalidate:
  "caches_inv ic b \<Longrightarrow> caches_inv (icache_invalidate ic) (bcache_invalidate b)"
  by (auto simp: caches_inv_def icache_valid_invalidate icache_fresh_invalidate bcache_fresh_invalidate
      intro: bcache_inv_invalidate)

lemma on_core_inv:
  assumes "on_core m s = (r, s')" "machine_inv s" "core_inv (snd (m (ms_core s)))"
  shows "machine_inv s'"
  using assms by (auto simp: on_core_def Let_def machine_inv_def split: prod.splits)

lemma xret_inv:
  assumes "xret_instr m s = (r, s')" "machine_inv s"
    and m: "\<And>h a h'. m h = (Inr a, h') \<Longrightarrow> csr_wf 0 (hart_csrs h) \<Longrightarrow> even a"
      "\<And>h a h'. m h = (a, h') \<Longrightarrow> csr_wf 0 (hart_csrs h) \<Longrightarrow> csr_wf 0 (hart_csrs h') \<and> hart_pc h' = hart_pc h"
  shows "machine_inv s' \<and> (\<forall>a. r = Inr (Set a) \<longrightarrow> even a)"
proof -
  obtain q h where q: "m (core_hart (ms_core s)) = (q, h)" by fastforce
  have s': "s' = s\<lparr>ms_core := (ms_core s)\<lparr>core_hart := h\<rparr>\<rparr>" "r = map_ok Set q"
    using assms(1) q by (cases q; auto simp: xret_instr_def on_core_def and_then_def on_hart_def Let_def)+
  have wf: "csr_wf 0 (hart_csrs (core_hart (ms_core s)))"
    using assms(2) by (simp add: machine_inv_def core_inv_def)
  from m(2) [OF q wf] m(1) [OF _ wf] q s' assms(2) show ?thesis
    by (cases q) (auto simp: machine_inv_def core_inv_def)
qed

lemma csr_wf_upd_mstatus [simp]: "csr_wf misa (upd_mstatus f c) = csr_wf misa c"
  by (simp add: upd_mstatus_def)

lemma xret_wf:
  "run_mret h = (Inr a, h') \<Longrightarrow> csr_wf misa (hart_csrs h) \<Longrightarrow> even a"
  "run_sret h = (Inr a, h') \<Longrightarrow> csr_wf misa (hart_csrs h) \<Longrightarrow> even a"
  "run_mret h = (r, h') \<Longrightarrow> csr_wf misa (hart_csrs h) \<Longrightarrow> csr_wf misa (hart_csrs h') \<and> hart_pc h' = hart_pc h"
  "run_sret h = (r, h') \<Longrightarrow> csr_wf misa (hart_csrs h) \<Longrightarrow> csr_wf misa (hart_csrs h') \<and> hart_pc h' = hart_pc h"
  using csr_wf_epc [where s = "hart_csrs h"]
  by (auto simp: run_mret_def run_sret_def Let_def even_iff_bit root_of_def split: Mode.splits if_splits)

lemma run_instr_uncacheable_inv:
  assumes "run_instr_uncacheable i s = (r, s')" "machine_inv s" "ms_idle s"
  shows "machine_inv s' \<and> (\<forall>a. r = Inr (Set a) \<longrightarrow> even a)"
proof (cases i)
  case FenceI
  with assms idle_partial_inv [of "bcache_invalidate (ms_bcache s)"] show ?thesis
    by (auto simp: run_fencei_def machine_inv_def core_inv_def tcache_wf_invalidate caches_inv_invalidate)
next
  case Mret
  with xret_inv [OF _ assms(2), of run_mret] assms xret_wf show ?thesis by simp
next
  case Sret
  with xret_inv [OF _ assms(2), of run_sret] assms xret_wf show ?thesis by simp
next
  case (SFenceVma x y)
  let ?m = "then_next (uncacheable_width (SFenceVma x y)) (run_sfence_vma x y)"
  have "core_inv (snd (?m (ms_core s)))"
    using assms(2) by (auto simp: then_next_def and_then_def run_sfence_vma_def Let_def machine_inv_def
        core_inv_def tcache_wf_invalidate split: prod.splits sum.splits if_splits)
  with on_core_inv [of ?m s r s'] assms SFenceVma show ?thesis
    by (auto simp: on_core_def Let_def split: prod.splits)
qed (use assms in \<open>auto simp: syscall_instr_def run_fence_def run_wfi_def machine_inv_def\<close>)

lemma run_instr_inv:
  assumes "run_instr lib i s = (r, s')" "machine_inv s" "ms_idle s" "instr_ok i"
  shows "machine_inv s' \<and> (\<forall>a. r = Inr (Set a) \<longrightarrow> even a)"
proof (cases i)
  case (Cacheable c)
  obtain q t where t: "run_instr_cacheable lib c (ms_core s) = (q, t)" by fastforce
  with Cacheable assms(1) have s': "r = q" "s' = s\<lparr>ms_core := t\<rparr>" by (auto simp: on_core_def)
  have "core_inv (ms_core s)" using assms(2) by (simp add: machine_inv_def)
  with core_inv_cacheable [OF t] run_instr_cacheable_target [of lib c "ms_core s" _ t] t s' assms(2,4) Cacheable
  show ?thesis by (auto simp: machine_inv_def core_inv_def)
qed (use run_instr_uncacheable_inv [OF _ assms(2,3)] assms(1) in simp)

lemma run_instr_at_inv:
  assumes "run_instr_at lib mode satp pc pa s = (r, s')" "machine_inv s" "ms_idle s" "even pc" "even pa"
  shows "machine_inv s' \<and> (\<forall>a. r = Inr (Set a) \<longrightarrow> even a)"
proof (cases "icache_fetch_instr (ms_icache s) pa")
  case None
  obtain q t where t: "fetch_instr mode satp pc pa s = (q, t)" by fastforce
  from fetch_instr_inv [OF t assms(2-5)] have i: "machine_inv t" "\<And>i. q = Inr i \<Longrightarrow> instr_ok i" by auto
  show ?thesis
  proof (cases q)
    case (Inl e)
    with None t assms(1) i show ?thesis by (auto simp: run_instr_at_def)
  next
    case (Inr x)
    with None t assms(1) have "run_instr lib x t = (r, s')" by (simp add: run_instr_at_def)
    from run_instr_inv [OF this i(1) fetch_instr_idle [OF t assms(3)] i(2) [OF Inr]] show ?thesis .
  qed
next
  case (Some i)
  have "pa \<noteq> - 1" using assms(5) by (auto simp: even_iff_bit)
  with Some assms(2) have "instr_ok (Cacheable i)"
    by (auto simp: machine_inv_def caches_inv_def icache_valid_def validated_ok)
  with run_instr_inv [OF _ assms(2,3), of lib "Cacheable i"] Some assms(1) show ?thesis
    by (simp add: run_instr_at_def)
qed

lemma finish_step_inv:
  assumes "finish_step pc steps (q, t) = (r, steps', s')" "machine_inv t" "even pc"
    "\<And>a. q = Inr (Set a) \<Longrightarrow> even a"
  shows "machine_inv s'"
proof -
  obtain x c where h: "handle_step_result pc q (ms_core t) = (x, c)" by fastforce
  have "core_inv c" by (rule core_inv_handle [OF h]) (use assms in \<open>auto simp: machine_inv_def\<close>)
  moreover have "s' = t\<lparr>ms_core := c\<rparr>" using assms(1) h by (auto simp: finish_step_def split: sum.splits)
  ultimately show ?thesis using assms(2) by (simp add: machine_inv_def)
qed

lemma get_block_entry:
  assumes "get_block b a = Some block"
  shows "block = bc_block (bc_entry b a)" "bc_fence (bc_entry b a) = bc_fence_counter b"
  using assms by (auto simp: get_block_def Let_def split: if_splits)

lemma run_block_partial_inv:
  assumes "after_block (run_block_partial lib a (ms_bcache s) (ms_core s) steps n) s = (r, steps', s')"
    "machine_inv s" "get_block (ms_bcache s) a = Some block" "block \<noteq> []"
  shows "machine_inv s'"
proof -
  let ?b = "(ms_bcache s)\<lparr>bc_partial_block := (bc_partial_block (ms_bcache s))
                  \<lparr>pb_in_progress := True, pb_progress := 0, pb_phys_addr := a\<rparr>\<rparr>"
  obtain q b' c' st where x: "run_partial_inner lib ?b (ms_core s) steps n = (q, b', c', st)"
    using prod_cases4 by blast
  then have "run_block_partial lib a (ms_bcache s) (ms_core s) steps n = (q, b', c', st)"
    by (simp add: run_block_partial_def)
  with assms(1) have s': "s' = s\<lparr>ms_bcache := b', ms_core := c'\<rparr>" by (simp add: after_block_def)
  have "0 < bc_len_instr (bc_entry (ms_bcache s) a)"
    using assms(4) get_block_entry(1) [OF assms(3)] by (auto simp: bc_block_def)
  then have "core_inv c' \<and> caches_inv (ms_icache s) b' \<and> partial_inv b'"
    by (intro run_partial_inner_inv [OF x])
      (use assms(2-4) get_block_entry [OF assms(3)] in \<open>auto simp: machine_inv_def\<close>)
  with s' show ?thesis by (simp add: machine_inv_def)
qed

lemma step_body_inv:
  assumes "step_body lib n steps s = (r, steps', s')" "machine_inv s" "ms_idle s"
  shows "machine_inv s'"
proof -
  let ?h = "core_hart (ms_core s)"
  let ?mode = "hart_mode ?h" and ?pc = "hart_pc ?h" and ?satp = "csr_read (hart_csrs ?h) CSR_satp"
  have e: "even ?pc" using assms(2) by (simp add: machine_inv_def core_inv_def)
  obtain q t where t: "translate_instr_address ?mode ?satp ?pc s = (q, t)" by fastforce
  note f = translate_instr_address_frame [OF t]
  note i = translate_instr_address_inv [OF t assms(2) e]
  have idle: "ms_idle t" using assms(3) f(2) by simp
  show ?thesis
  proof (cases q)
    case (Inl x)
    with t assms(1) have "finish_step ?pc steps (Inl x, t) = (r, steps', s')" by (simp add: step_body_def)
    from finish_step_inv [OF this i(1) e] show ?thesis by simp
  next
    case (Inr a)
    show ?thesis
    proof (cases "get_block (ms_bcache t) a")
      case None
      obtain q' u where u: "run_instr_at lib ?mode ?satp ?pc a t = (q', u)" by fastforce
      with t assms(1) Inr None have "finish_step ?pc steps (q', u) = (r, steps', s')"
        by (simp add: step_body_def Let_def)
      from finish_step_inv [OF this _ e] run_instr_at_inv [OF u i(1) idle e i(2) [OF Inr]] show ?thesis by blast
    next
      case (Some block)
      have ti: "core_inv (ms_core t)" "caches_inv (ms_icache t) (ms_bcache t)" using i(1) by (simp_all add: machine_inv_def)
      show ?thesis
      proof (cases "length block \<le> n - steps")
        case True
        obtain rr ss cc where b: "run_block lib block (hart_pc (core_hart (ms_core t))) steps (ms_core t) = (rr, ss, cc)"
          using prod_cases3 by blast
        have "list_all decoded_ok block"
          using get_block_inv(1) [OF _ Some] ti(2) block_at_decoded by (auto simp: caches_inv_def)
        from run_block_core_inv [OF b ti(1) this] True t assms(1) Inr Some i(1) b f(3) show ?thesis
          by (auto simp: step_body_def Let_def machine_inv_def)
      next
        case False
        then have "after_block (run_block_partial lib a (ms_bcache t) (ms_core t) steps n) t = (r, steps', s')"
          using t assms(1) Inr Some by (simp add: step_body_def)
        moreover have "block \<noteq> []" using False by auto
        ultimately show ?thesis using run_block_partial_inv [OF _ i(1) Some] by blast
      qed
    qed
  qed
qed

lemma step_loop_inv:
  assumes "step_loop lib n steps s = Some y" "machine_inv s" "ms_idle s \<or> n \<le> steps"
  shows "machine_inv (snd (snd y))"
proof -
  have "machine_inv s \<longrightarrow> ms_idle s \<or> n \<le> steps \<longrightarrow> machine_inv (snd (snd y))"
  proof (rule step_loop.raw_induct
      [where P = "\<lambda>lib n steps s y. machine_inv s \<longrightarrow> ms_idle s \<or> n \<le> steps \<longrightarrow> machine_inv (snd (snd y))",
        OF _ assms(1)], goal_cases)
    case (1 f lib n steps s y)
    obtain q s1 t1 where b: "step_body lib n steps s = (q, s1, t1)" using prod_cases3 by blast
    have "machine_inv (snd (snd y))" if h: "machine_inv s" "ms_idle s \<or> n \<le> steps"
    proof (cases "steps < n")
      case False
      with 1(2) h show ?thesis by auto
    next
      case lt: True
      with h have idle: "ms_idle s" by simp
      note i = step_body_inv [OF b h(1) idle]
      show ?thesis
      proof (cases q)
        case (Inl e)
        with 1(2) lt b i show ?thesis by auto
      next
        case (Inr u)
        then have y: "f lib n s1 t1 = Some y" using 1(2) lt b by simp
        have "ms_idle t1 \<or> n \<le> s1" by (rule step_body_idle [OF _ lt idle]) (use b Inr in simp)
        with 1(1) [OF y] i show ?thesis by simp
      qed
    qed
    then show ?case by simp
  qed
  with assms(2,3) show ?thesis by simp
qed

lemma step_max_inner_inv:
  assumes "step_max_inner lib n steps s = Some (r, steps', s')" "machine_inv s"
  shows "machine_inv s'"
proof -
  obtain q s1 t1 where c: "then_complete lib n (Inr (), steps, s) = (q, s1, t1)" using prod_cases3 by blast
  have pw: "partial_wf (ms_bcache s)" using assms(2) by (simp add: machine_inv_def partial_inv_def)
  have t1: "machine_inv t1"
  proof (cases "ms_idle s")
    case True
    with c assms(2) show ?thesis by (auto simp: then_complete_idle)
  next
    case False
    obtain x b' c' st where x: "run_partial_inner lib (ms_bcache s) (ms_core s) steps n = (x, b', c', st)"
      using prod_cases4 by blast
    have p: "pb_in_progress (bc_partial_block (ms_bcache s))"
      "pb_progress (bc_partial_block (ms_bcache s))
         < bc_len_instr (bc_entry (ms_bcache s) (pb_phys_addr (bc_partial_block (ms_bcache s))))"
      using pw False by (simp_all add: partial_wf_def)
    have "core_inv c' \<and> caches_inv (ms_icache s) b' \<and> partial_inv b'"
      by (rule run_partial_inner_inv [OF x])
        (use assms(2) p in \<open>auto simp: machine_inv_def partial_inv_def\<close>)
    with x c p(1) show ?thesis
      by (auto simp: then_complete_def after_block_def complete_current_block_def machine_inv_def)
  qed
  show ?thesis
  proof (cases q)
    case (Inl e)
    with c assms(1) t1 show ?thesis by (simp add: step_max_inner_eq)
  next
    case (Inr u)
    then have c': "then_complete lib n (Inr (), steps, s) = (Inr (), s1, t1)" using c by simp
    with assms(1) have "step_loop lib n s1 t1 = Some (r, steps', s')" by (simp add: step_max_inner_eq)
    from step_loop_inv [OF this t1 complete_idle [OF pw c']] show ?thesis by simp
  qed
qed

lemma machine_inv_reset: "machine_inv (machine_reset s)"
proof -
  have "even (start_of_main_memory n)" for n
    by (simp add: start_of_main_memory_def DEVICES_ADDRESS_SPACE_LENGTH_def even_iff_bit)
  then show ?thesis
    by (auto simp: machine_inv_def machine_reset_def core_inv_def core_reset_def hart_reset_def csr_wf_any [OF csr_wf_reset]
        tcache_wf_reset caches_inv_def icache_valid_reset icache_fresh_reset bcache_inv_reset bcache_fresh_reset
        reset_block_zero(2) intro: idle_partial_inv)
qed

section \<open>Progress\<close>

text \<open>The physical address that the next instruction is fetched from.\<close>

definition fetch_addr :: "MachineState \<Rightarrow> (Exception, Address) result" where
  "fetch_addr s =
     fst (translate_instr_address (hart_mode (core_hart (ms_core s)))
       (csr_read (hart_csrs (core_hart (ms_core s))) CSR_satp) (hart_pc (core_hart (ms_core s))) s)"

lemma run_partial_inner_progress:
  assumes "run_partial_inner lib b core steps n = (Inr (), b', core', steps')" "steps < n"
    "pb_progress (bc_partial_block b) < bc_len_instr (bc_entry b (pb_phys_addr (bc_partial_block b)))"
  shows "steps < steps'"
proof -
  let ?p = "pb_progress (bc_partial_block b)" and ?e = "bc_entry b (pb_phys_addr (bc_partial_block b))"
  obtain o' p' s' c' where l: "run_partial_loop lib (drop ?p (bc_block ?e)) (hart_pc (core_hart core)) steps n ?p core
      = (o', p', s', c')"
    using prod_cases4 by blast
  have "drop ?p (bc_block ?e) \<noteq> []" using assms(3) by simp
  with run_partial_loop_steps [OF l assms(2)] assms(1,2) l show ?thesis
    by (auto simp: run_partial_inner_def Let_def split: option.splits if_splits)
qed

lemma step_body_progress:
  assumes "step_body lib n steps s = (Inr (), steps', s')" "steps < n" "machine_inv s" "ms_idle s"
    "fetch_addr s \<noteq> Inr 0"
  shows "steps < steps'"
proof -
  let ?h = "core_hart (ms_core s)"
  let ?mode = "hart_mode ?h" and ?pc = "hart_pc ?h" and ?satp = "csr_read (hart_csrs ?h) CSR_satp"
  obtain q t where t: "translate_instr_address ?mode ?satp ?pc s = (q, t)" by fastforce
  note f = translate_instr_address_frame [OF t]
  show ?thesis
  proof (cases "\<exists>a block. q = Inr a \<and> get_block (ms_bcache t) a = Some block")
    case False
    then obtain x where "finish_step ?pc steps x = (Inr (), steps', s')"
      using assms(1) t by (cases q) (auto simp: step_body_def Let_def split: option.splits)
    from finish_step_steps [OF this] show ?thesis by auto
  next
    case True
    then obtain a block where a: "q = Inr a" "get_block (ms_bcache t) a = Some block" by blast
    have "a \<noteq> 0" using assms(5) t a(1) by (auto simp: fetch_addr_def)
    moreover have "bcache_inv cached_ok (ms_bcache t)"
      using assms(3) f(2) by (simp add: machine_inv_def caches_inv_def)
    ultimately have ne: "block \<noteq> []" using get_block_inv(4) [OF _ a(2)] by blast
    show ?thesis
    proof (cases "length block \<le> n - steps")
      case True
      obtain rr ss cc where b: "run_block lib block ?pc steps (ms_core t) = (rr, ss, cc)"
        using prod_cases3 by blast
      with True t a assms(1) have "rr = Inr ()" "ss = steps'" by (simp_all add: step_body_def Let_def)
      with run_block_steps [OF b] ne show ?thesis by simp
    next
      case False
      let ?b = "(ms_bcache t)\<lparr>bc_partial_block := (bc_partial_block (ms_bcache t))
          \<lparr>pb_in_progress := True, pb_progress := 0, pb_phys_addr := a\<rparr>\<rparr>"
      obtain rr bb cc ss where b: "run_partial_inner lib ?b (ms_core t) steps n = (rr, bb, cc, ss)"
        using prod_cases4 by blast
      with False t a assms(1) have "rr = Inr ()" "ss = steps'"
        by (simp_all add: step_body_def Let_def after_block_def run_block_partial_def)
      moreover have "0 < bc_len_instr (bc_entry (ms_bcache t) a)"
        using ne get_block_entry(1) [OF a(2)] by (auto simp: bc_block_def)
      ultimately show ?thesis using run_partial_inner_progress [of lib ?b] b assms(2) by simp
    qed
  qed
qed

text \<open>The states at the head of the loop of \<^verbatim>\<open>step_max_inner\<close>.\<close>

inductive loop_head :: "('s, 'd) FloatLib \<Rightarrow> nat \<Rightarrow> nat \<Rightarrow> MachineState \<Rightarrow> nat \<Rightarrow> MachineState \<Rightarrow> bool"
  for lib n where
  loop_head_refl: "loop_head lib n steps s steps s"
| loop_head_step: "steps < n \<Longrightarrow> step_body lib n steps s = (Inr (), k, t) \<Longrightarrow> loop_head lib n k t k' t'
    \<Longrightarrow> loop_head lib n steps s k' t'"

lemma step_loop_returns:
  assumes "machine_inv s" "ms_idle s \<or> n \<le> steps"
    and "\<And>k t. loop_head lib n steps s k t \<Longrightarrow> k < n \<Longrightarrow> fetch_addr t \<noteq> Inr 0"
  shows "\<exists>y. step_loop lib n steps s = Some y"
  using assms
proof (induction "n - steps" arbitrary: steps s rule: less_induct)
  case less
  show ?case
  proof (cases "steps < n")
    case False
    then show ?thesis by (simp add: step_loop_done)
  next
    case lt: True
    with less.prems(2) have idle: "ms_idle s" by simp
    obtain r k t where b: "step_body lib n steps s = (r, k, t)" using prod_cases3 by blast
    show ?thesis
    proof (cases r)
      case (Inl e)
      with b lt show ?thesis by (simp add: step_loop_step)
    next
      case (Inr u)
      then have b: "step_body lib n steps s = (Inr (), k, t)" using b by simp
      have "steps < k"
        using step_body_progress [OF b lt less.prems(1) idle] less.prems(3) [OF loop_head_refl lt] by simp
      then have "n - k < n - steps" using lt by simp
      moreover have "machine_inv t" by (rule step_body_inv [OF b less.prems(1) idle])
      moreover have "ms_idle t \<or> n \<le> k" by (rule step_body_idle [OF b lt idle])
      moreover have "fetch_addr t' \<noteq> Inr 0" if "loop_head lib n k t k' t'" "k' < n" for k' t'
        using less.prems(3) loop_head_step [OF lt b that(1)] that(2) by blast
      ultimately have "\<exists>y. step_loop lib n k t = Some y" using less.hyps by blast
      then show ?thesis using lt b by (simp add: step_loop_step)
    qed
  qed
qed

text \<open>A single step returns unless it fetches from physical address 0.\<close>

lemma machine_step_returns:
  assumes "machine_inv s" "ms_idle s \<longrightarrow> fetch_addr s \<noteq> Inr 0"
  shows "\<exists>y. machine_step lib s = Some y"
proof -
  obtain r k t where c: "then_complete lib 1 (Inr (), 0, s) = (r, k, t)" using prod_cases3 by blast
  have pw: "partial_wf (ms_bcache s)" using assms(1) by (simp add: machine_inv_def partial_inv_def)
  show ?thesis
  proof (cases "ms_idle s")
    case True
    have "fetch_addr t \<noteq> Inr 0" if "loop_head lib 1 0 s k t" "k < 1" for k t
      using that True assms step_body_progress [of lib 1 0 s] 
      by (cases rule: loop_head.cases) (auto elim: loop_head.cases)
    then have "\<exists>y. step_loop lib 1 0 s = Some y"
      using step_loop_returns [OF assms(1), of 1 0 lib] True by blast
    with True show ?thesis by (simp add: machine_step_def step_max_inner_idle)
  next
    case False
    then have p: "pb_in_progress (bc_partial_block (ms_bcache s))"
      "pb_progress (bc_partial_block (ms_bcache s))
         < bc_len_instr (bc_entry (ms_bcache s) (pb_phys_addr (bc_partial_block (ms_bcache s))))"
      using pw by (simp_all add: partial_wf_def)
    obtain x b' c' st where x: "run_partial_inner lib (ms_bcache s) (ms_core s) 0 1 = (x, b', c', st)"
      using prod_cases4 by blast
    have "x = Inr () \<Longrightarrow> 0 < st" using run_partial_inner_progress [OF _ _ p(2), of lib "ms_core s" 0 1 b' c' st] x by simp
    then show ?thesis
      using x p(1) by (cases x) (auto simp: machine_step_def step_max_inner_def after_block_def
          complete_current_block_def step_loop_done)
  qed
qed

section \<open>Reachable states\<close>

text \<open>The states of a machine that is reset and then run for any numbers of steps.\<close>

inductive reachable :: "('s, 'd) FloatLib \<Rightarrow> MachineState \<Rightarrow> bool" for lib where
  reachable_reset: "reachable lib (machine_reset s)"
| reachable_run: "reachable lib s \<Longrightarrow> step_max_inner lib n steps s = Some (r, k, s') \<Longrightarrow> reachable lib s'"

lemma reachable_inv: "reachable lib s \<Longrightarrow> machine_inv s"
  by (induction rule: reachable.induct) (auto intro: machine_inv_reset step_max_inner_inv)

lemma reset_tcache_coherent: "core_tcache s = tcache_reset tc \<Longrightarrow> tcache_coherent s"
  using tcache_reset_coherent [where s = s and tc = tc] by (metis MachineCoreState.surjective MachineCoreState.update_convs(3))

lemma reset_fetch_addr:
  "fetch_addr (machine_reset s) = Inr (start_of_main_memory (bus_BYTES (core_bus (ms_core s))))"
proof -
  let ?c = "core_reset (ms_core s)"
  have "tcache_coherent ?c"
    by (rule reset_tcache_coherent) (simp add: core_reset_def)
  moreover have t: "translate_with_prefetch ?c Machine satp va AccInstruction = Inr va" for satp va
    by (simp add: translate_with_prefetch_def effective_translation_alg_def effective_translation_hart_mode_def)
  ultimately have "pa = va" if "tcache_try_translate (core_tcache ?c) Machine satp AccInstruction va = Some pa"
    for satp va pa
    using that unfolding tcache_coherent_def by fastforce
  with t have "fst (translate_instr_address Machine satp va (machine_reset s)) = Inr va" for satp va
    by (auto simp: translate_instr_address_def machine_reset_def split: option.split)
  moreover have "hart_mode (core_hart ?c) = Machine"
    "hart_pc (core_hart ?c) = start_of_main_memory (bus_BYTES (core_bus (ms_core s)))"
    by (simp_all add: core_reset_def hart_reset_def)
  ultimately show ?thesis by (simp add: fetch_addr_def machine_reset_def)
qed

section \<open>Steps of the outer loops\<close>

definition step_count_ok :: "nat \<Rightarrow> 'e StepManyResult \<Rightarrow> bool" where
  "step_count_ok n r \<longleftrightarrow> (case smr_error r of None \<Rightarrow> smr_steps r \<le> n | Some _ \<Rightarrow> smr_steps r < n)"

lemma step_max_loop_ok:
  assumes "step_max_loop lib b steps s = Some y" "steps \<le> unwrap_bound b" "machine_inv s"
  shows "step_count_ok (unwrap_bound b) (fst y) \<and> machine_inv (snd y)"
proof -
  have "steps \<le> unwrap_bound b \<longrightarrow> machine_inv s \<longrightarrow> step_count_ok (unwrap_bound b) (fst y) \<and> machine_inv (snd y)"
  proof (rule step_max_loop.raw_induct
      [where P = "\<lambda>lib b steps s y. steps \<le> unwrap_bound b \<longrightarrow> machine_inv s \<longrightarrow>
         step_count_ok (unwrap_bound b) (fst y) \<and> machine_inv (snd y)", OF _ assms(1)], goal_cases)
    case (1 f lib b steps s y)
    show ?case
    proof (intro impI)
      assume le: "steps \<le> unwrap_bound b" and inv: "machine_inv s"
      from 1(2) obtain r k t where x: "step_max_inner lib (unwrap_bound b) steps s = Some (r, k, t)"
        by (cases "step_max_inner lib (unwrap_bound b) steps s") auto
      note st = step_max_inner_steps [OF x le] and inv' = step_max_inner_inv [OF x inv]
      show "step_count_ok (unwrap_bound b) (fst y) \<and> machine_inv (snd y)"
      proof (cases r)
        case (Inl e)
        with 1(2) x st inv' show ?thesis by (auto simp: step_count_ok_def)
      next
        case (Inr u)
        show ?thesis
        proof (cases "less_than_bound k b")
          case True
          with 1(2) x Inr have "f lib b k t = Some y" by simp
          from 1(1) [OF this] st Inr inv' show ?thesis by simp
        next
          case False
          with 1(2) x Inr st inv' show ?thesis by (auto simp: step_count_ok_def)
        qed
      qed
    qed
  qed
  with assms(2,3) show ?thesis by blast
qed

lemma step_max_ok:
  assumes "step_max lib b s = Some (r, s')" "machine_inv s"
  shows "step_count_ok (unwrap_bound b) r" "machine_inv s'"
  using step_max_loop_ok [OF assms(1) [unfolded step_max_def]] assms(2) by simp_all

text \<open>A handler of environment calls that keeps the invariant of the machine and one of its own.\<close>

definition handler_keeps ::
  "('h \<Rightarrow> bool) \<Rightarrow> ('h \<Rightarrow> MachineState \<Rightarrow> EnvironException \<Rightarrow> ('e, bool) result \<times> 'h \<times> MachineState) \<Rightarrow> bool" where
  "handler_keeps Q handle \<longleftrightarrow>
     (\<forall>env s cause r env' s'. handle env s cause = (r, env', s') \<longrightarrow> Q env \<longrightarrow> machine_inv s \<longrightarrow> Q env' \<and> machine_inv s')"

fun bounded :: "Bound \<Rightarrow> bool" where
  "bounded Unbounded = False"
| "bounded _ = True"

lemma unwrap_bound_sub: "bounded b \<Longrightarrow> unwrap_bound (bound_saturating_sub b k) = unwrap_bound b - k"
  by (cases b) (simp_all add: unwrap_bound_def bound_saturating_sub_def)

lemma bounded_sub [simp]: "bounded (bound_saturating_sub b k) = bounded b"
  by (cases b) (simp_all add: bound_saturating_sub_def)

lemma step_max_handle_loop_ok:
  assumes "step_max_handle_loop lib handle b steps env s = Some y" "handler_keeps Q handle" "Q env" "machine_inv s"
  shows "(bounded b \<longrightarrow> smr_steps (fst y) \<le> steps + unwrap_bound b) \<and> Q (fst (snd y)) \<and> machine_inv (snd (snd y))"
proof -
  let ?P = "\<lambda>b steps y. (bounded b \<longrightarrow> smr_steps (fst y) \<le> steps + unwrap_bound b)
      \<and> Q (fst (snd y)) \<and> machine_inv (snd (snd y))"
  have "handler_keeps Q handle \<longrightarrow> Q env \<longrightarrow> machine_inv s \<longrightarrow> ?P b steps y"
  proof (rule step_max_handle_loop.raw_induct
      [where P = "\<lambda>lib handle b steps env s y. handler_keeps Q handle \<longrightarrow> Q env \<longrightarrow> machine_inv s \<longrightarrow> ?P b steps y",
        OF _ assms(1)], goal_cases)
    case (1 f lib handle b steps env s y)
    show ?case
    proof (intro impI)
      assume keeps: "handler_keeps Q handle" and env: "Q env" and inv: "machine_inv s"
      from 1(2) obtain res t where x: "step_max lib b s = Some (res, t)" by (cases "step_max lib b s") auto
      note ok = step_max_ok [OF x inv]
      show "?P b steps y"
      proof (cases "smr_error res")
        case None
        with 1(2) x ok env show ?thesis by (auto simp: step_count_ok_def saturating_add_def)
      next
        case (Some cause)
        let ?steps = "saturating_add (saturating_add steps (smr_steps res)) 1"
        let ?b = "bound_saturating_sub (bound_saturating_sub b (smr_steps res)) 1"
        obtain r env' u where h: "handle env t cause = (r, env', u)" using prod_cases3 by blast
        then have k: "Q env'" "machine_inv u" using keeps env ok(2) unfolding handler_keeps_def by blast+
        have le: "?steps + unwrap_bound ?b \<le> steps + unwrap_bound b" if "bounded b"
          using ok(1) Some that by (auto simp: step_count_ok_def unwrap_bound_sub saturating_add_def)
        show ?thesis
        proof (cases "r = Inr True")
          case True
          with 1(2) x Some h have "f lib handle ?b ?steps env' u = Some y" by simp
          from 1(1) [OF this] keeps k le show ?thesis by fastforce
        next
          case False
          with 1(2) x Some h have "smr_steps (fst y) = ?steps" "snd y = (env', u)" by (auto simp: Let_def split: sum.splits)
          with k le show ?thesis by fastforce
        qed
      qed
    qed
  qed
  with assms(2-4) show ?thesis by blast
qed

end
