(* ===== verification/Allocation.thy ===== *)
theory Allocation
  imports Machine_Invariant
begin

text \<open>
  The freshly allocated machine: \<^verbatim>\<open>allocate\<close> of the layouts (state_backend/layout.rs) over the owned
  backend (state_backend/owned_backend.rs), which writes the value \<^verbatim>\<open>DEFAULT\<close> of the trait
  \<^verbatim>\<open>ConstDefault\<close> (default.rs) to every cell and zeroes the bytes of main memory.  This is the state that
  a node and a stepper boot, without a reset.  It differs from a reset machine: the program counter is
  zero, \<^verbatim>\<open>misa\<close> is zero, and the entries of the translation cache are zero instead of invalid.
\<close>

section \<open>Registers\<close>

definition MPPValue_DEFAULT :: MPPValue where "MPPValue_DEFAULT = MPP_Supervisor"

definition SPPValue_DEFAULT :: SPPValue where "SPPValue_DEFAULT = SPP_Supervisor"

definition XLenValue_DEFAULT :: XLenValue where "XLenValue_DEFAULT = MXL64"

definition ExtensionValue_DEFAULT :: ExtensionValue where "ExtensionValue_DEFAULT = Ext_Dirty"

definition Mode_DEFAULT :: Mode where "Mode_DEFAULT = Machine"

definition mstatus_allocate :: MStatusValue where
  "mstatus_allocate =
     \<lparr>ms_sie = False, ms_mie = False, ms_spie = False, ms_ube = False, ms_mpie = False,
      ms_spp = SPPValue_DEFAULT, ms_mpp = MPPValue_DEFAULT, ms_fs = ExtensionValue_DEFAULT,
      ms_xs = ExtensionValue_DEFAULT, ms_mprv = False, ms_sum = False, ms_mxr = False, ms_tvm = False,
      ms_tw = False, ms_tsr = False, ms_uxl = XLenValue_DEFAULT, ms_sxl = XLenValue_DEFAULT,
      ms_sbe = False, ms_mbe = False\<rparr>"

definition csr_allocate :: CSRegisters where
  "csr_allocate = \<lparr>csr_mstatus = mstatus_allocate, csr_raw = (\<lambda>_. 0)\<rparr>"

definition hart_allocate :: HartState where
  "hart_allocate =
     \<lparr>hart_xregs = (\<lambda>_. 0), hart_fregs = (\<lambda>_. 0), hart_csrs = csr_allocate, hart_mode = Mode_DEFAULT,
      hart_pc = 0, hart_reservation = 0\<rparr>"

section \<open>Memory and caches\<close>

definition mm_allocate :: "nat \<Rightarrow> MainMemory" where
  "mm_allocate BYTES = \<lparr>mm_BYTES = BYTES, mm_data = (\<lambda>_. 0)\<rparr>"

definition bus_allocate :: "nat \<Rightarrow> Bus" where
  "bus_allocate BYTES = \<lparr>bus_devices = \<lparr>dev_placeholder = 0\<rparr>, bus_memory = mm_allocate BYTES\<rparr>"

definition tc_cached_allocate :: TCached where
  "tc_cached_allocate =
     \<lparr>tc_mode = 0, tc_satp = 0, tc_virt_page = 0, tc_phys_page = 0, tc_fence = FenceCounter_INITIAL\<rparr>"

definition tcache_allocate :: TranslationCache where
  "tcache_allocate = (\<lambda>_. \<lparr>ac_fence = FenceCounter_INITIAL, ac_entries = (\<lambda>_. tc_cached_allocate)\<rparr>)"

definition icache_allocate :: InstructionCache where
  "icache_allocate =
     \<lparr>icache_fence = FenceCounter_INITIAL,
      icache_entries = (\<lambda>_. \<lparr>ic_fence = FenceCounter_INITIAL, ic_phys_addr = 0, ic_instr = InstrCacheable_DEFAULT\<rparr>)\<rparr>"

definition bc_allocate :: BCached where
  "bc_allocate =
     \<lparr>bc_address = 0, bc_fence = FenceCounter_INITIAL, bc_len_instr = 0, bc_instr = (\<lambda>_. InstrCacheable_DEFAULT)\<rparr>"

definition partial_allocate :: PartialBlock where
  "partial_allocate = \<lparr>pb_phys_addr = 0, pb_in_progress = False, pb_progress = 0\<rparr>"

definition bcache_allocate :: BlockCache where
  "bcache_allocate =
     \<lparr>bc_current_block_addr = 0, bc_next_instr_addr = 0, bc_fence_counter = FenceCounter_INITIAL,
      bc_partial_block = partial_allocate, bc_entries = (\<lambda>_. bc_allocate)\<rparr>"

definition core_allocate :: "nat \<Rightarrow> MachineCoreState" where
  "core_allocate BYTES =
     \<lparr>core_hart = hart_allocate, core_bus = bus_allocate BYTES, core_tcache = tcache_allocate\<rparr>"

definition machine_allocate :: "nat \<Rightarrow> MachineState" where
  "machine_allocate BYTES =
     \<lparr>ms_core = core_allocate BYTES, ms_icache = icache_allocate, ms_bcache = bcache_allocate\<rparr>"

section \<open>The invariant\<close>

text \<open>The instruction caches are allocated in their reset state.\<close>

lemma icache_allocate_reset: "icache_allocate = icache_reset c"
proof -
  have "\<lparr>ic_fence = FenceCounter_INITIAL, ic_phys_addr = 0, ic_instr = InstrCacheable_DEFAULT\<rparr> = ic_cached_reset e" for e
    by (rule ICached.equality) (simp_all add: ic_cached_reset_def InstrCacheable_DEFAULT_def)
  then show ?thesis
    by (intro InstructionCache.equality) (simp_all add: icache_allocate_def icache_reset_def fun_eq_iff)
qed

lemma bcache_allocate_reset: "bcache_allocate = bcache_reset b"
proof -
  have e: "bc_allocate = bc_reset e" for e
    by (rule BCached.equality) (simp_all add: bc_allocate_def bc_reset_def InstrCacheable_DEFAULT_def)
  have p: "partial_allocate = partial_reset p" for p
    by (simp add: partial_allocate_def partial_reset_def)
  show ?thesis
    unfolding bcache_allocate_def bcache_reset_def reset_to_def Let_def e [symmetric] p [symmetric]
    by (rule BlockCache.equality) simp_all
qed

text \<open>The entries of the translation cache are live, with the current fence counter, and translate the first
  page of an untranslated address space to itself.\<close>

lemma tcache_allocate_wf: "tcache_wf tcache_allocate"
  by (simp add: tcache_wf_def tcache_allocate_def tc_cached_allocate_def tcf.fresh_def Let_def)

lemma tcache_allocate_hit:
  assumes "tcache_try_translate tcache_allocate mode satp t va = Some pa"
  shows "satp = 0" "mode = User" "pa = va"
proof -
  have h: "va AND PAGE_MASK = 0" "satp = 0" "mode_u8 mode = 0" "pa = va AND OFFSET_MASK"
    using assms by (auto simp: tcache_try_translate_def ac_try_translate_def tc_cached_try_translate_def
        tcache_allocate_def tc_cached_allocate_def Let_def split: if_splits)
  show "satp = 0" by (rule h(2))
  show "mode = User" using h(3) by (cases mode) simp_all
  have "(va AND PAGE_MASK) OR (va AND OFFSET_MASK) = va"
    unfolding PAGE_MASK_def by (rule word_bits_eqI) (auto simp: bit_and_iff bit_or_iff bit_not_iff)
  then show "pa = va" using h(1,4) by simp
qed

lemma csr_allocate_wf: "csr_wf 0 csr_allocate"
  by (simp add: csr_wf_def csr_allocate_def WLRL_MCAUSE_VALUES_def WLRL_SCAUSE_VALUES_def)

lemma machine_allocate_inv: "machine_inv (machine_allocate BYTES)"
proof -
  have "caches_inv icache_allocate bcache_allocate" "partial_inv bcache_allocate"
    unfolding icache_allocate_reset [of undefined] bcache_allocate_reset [of undefined]
    by (simp_all add: caches_inv_def icache_valid_reset icache_fresh_reset bcache_inv_reset bcache_fresh_reset
        idle_partial_inv reset_block_zero(2))
  then show ?thesis
    by (simp add: machine_inv_def machine_allocate_def core_inv_def core_allocate_def hart_allocate_def
        csr_allocate_wf tcache_allocate_wf)
qed

end
