(* ===== verification/Samples.thy ===== *)
theory Samples
  imports Machine_Invariant
begin

text \<open>
  Concrete states on which the properties are instantiated: a machine with one page of main memory
  and one byte in every eight set, in machine mode, with bare translation, whose register \<^verbatim>\<open>x5\<close> holds
  the first address of main memory and \<^verbatim>\<open>x6\<close> the number 42.
\<close>

definition sample_mstatus :: MStatusValue where
  "sample_mstatus =
     \<lparr>ms_sie = False, ms_mie = True, ms_spie = False, ms_ube = False, ms_mpie = False,
      ms_spp = SPP_User, ms_mpp = MPP_User, ms_fs = Ext_Off, ms_xs = Ext_Off, ms_mprv = False,
      ms_sum = False, ms_mxr = False, ms_tvm = False, ms_tw = False, ms_tsr = False, ms_uxl = MXL64,
      ms_sxl = MXL64, ms_sbe = False, ms_mbe = False\<rparr>"

definition sample_csrs :: CSRegisters where
  "sample_csrs = \<lparr>csr_mstatus = sample_mstatus, csr_raw = (\<lambda>_. 0)\<rparr>"

definition sample_hart :: HartState where
  "sample_hart =
     \<lparr>hart_xregs = (\<lambda>i. if i = xregister_index X5 then 0x80000000
                       else if i = xregister_index X6 then 42 else 0),
      hart_fregs = (\<lambda>_. 0), hart_csrs = sample_csrs, hart_mode = Machine, hart_pc = 0x80000000,
      hart_reservation = UNSET_VALUE\<rparr>"

text \<open>Every aligned doubleword of the memory is a valid leaf entry of a page table.\<close>

definition sample_bus :: Bus where
  "sample_bus =
     \<lparr>bus_devices = \<lparr>dev_placeholder = 0\<rparr>,
      bus_memory = \<lparr>mm_BYTES = 4096, mm_data = (\<lambda>i. if 8 dvd i then 0xCF else 0)\<rparr>\<rparr>"

definition sample_tcache :: TranslationCache where
  "sample_tcache =
     tcache_reset (\<lambda>_. \<lparr>ac_fence = 0, ac_entries =
       (\<lambda>_. \<lparr>tc_mode = 0, tc_satp = 0, tc_virt_page = 0, tc_phys_page = 0, tc_fence = 0\<rparr>)\<rparr>)"

definition sample_core :: MachineCoreState where
  "sample_core = \<lparr>core_hart = sample_hart, core_bus = sample_bus, core_tcache = sample_tcache\<rparr>"

definition sample_icache :: InstructionCache where
  "sample_icache =
     icache_reset \<lparr>icache_fence = 0, icache_entries =
       (\<lambda>_. \<lparr>ic_fence = 0, ic_phys_addr = 0, ic_instr = Unknown 0\<rparr>)\<rparr>"

definition sample_bcache :: BlockCache where
  "sample_bcache =
     bcache_reset \<lparr>bc_current_block_addr = 0, bc_next_instr_addr = 0, bc_fence_counter = 0,
       bc_partial_block = \<lparr>pb_phys_addr = 0, pb_in_progress = False, pb_progress = 0\<rparr>,
       bc_entries = (\<lambda>_. \<lparr>bc_address = 0, bc_fence = 0, bc_len_instr = 0, bc_instr = (\<lambda>_. Unknown 0)\<rparr>)\<rparr>"

definition sample_machine :: MachineState where
  "sample_machine = \<lparr>ms_core = sample_core, ms_icache = sample_icache, ms_bcache = sample_bcache\<rparr>"

definition sample_float :: "'f \<Rightarrow> ('f \<Rightarrow> 128 word) \<Rightarrow> (128 word \<Rightarrow> 'f) \<Rightarrow> 'f Apfloat" where
  "sample_float z to from =
     \<lparr>af_to_bits = to, af_from_bits = from, af_is_nan = (\<lambda>_. False), af_is_signaling = (\<lambda>_. False),
      af_is_negative = (\<lambda>_. False), af_is_normal = (\<lambda>_. True), af_is_denormal = (\<lambda>_. False),
      af_is_pos_zero = (\<lambda>_. False), af_is_neg_zero = (\<lambda>_. False), af_is_pos_infinity = (\<lambda>_. False),
      af_is_neg_infinity = (\<lambda>_. False), af_eq = (\<lambda>x y. to x = to y), af_lt = (\<lambda>x y. to x < to y),
      af_le = (\<lambda>x y. to x \<le> to y), af_neg = (\<lambda>x. x), af_INFINITY = z, af_add_r = (\<lambda>x y r. (0, x)),
      af_sub_r = (\<lambda>x y r. (0, x)), af_mul_r = (\<lambda>x y r. (0, x)), af_div_r = (\<lambda>x y r. (0, x)),
      af_mul_add_r = (\<lambda>x y z r. (0, x)), af_minimum = (\<lambda>x y. x), af_maximum = (\<lambda>x y. x),
      af_from_i128_r = (\<lambda>x r. (0, from x)), af_from_u128_r = (\<lambda>x r. (0, from x)),
      af_to_i128_r = (\<lambda>x n r. (0, to x)), af_to_u128_r = (\<lambda>x n r. (0, to x))\<rparr>"

text \<open>A library of floats in which only the encodings are meaningful.\<close>

definition sample_lib :: "(u32, u64) FloatLib" where
  "sample_lib =
     \<lparr>lib_single = sample_float 0 ucast ucast, lib_double = sample_float 0 ucast ucast,
      lib_s_to_d = (\<lambda>x r. (0, ucast x)), lib_d_to_s = (\<lambda>x r. (0, ucast x)),
      lib_sqrt_s = (\<lambda>x r. (0, x)), lib_sqrt_d = (\<lambda>x r. (0, x))\<rparr>"

section \<open>Facts about the samples\<close>

lemmas sample_defs = sample_mstatus_def sample_csrs_def sample_hart_def sample_bus_def sample_core_def
  sample_machine_def

lemma sample_tcache_wf: "tcache_wf sample_tcache"
  by (simp add: sample_tcache_def tcache_wf_reset)

lemma sample_coherent: "tcache_coherent sample_core"
  unfolding sample_core_def sample_tcache_def
  using tcache_reset_coherent [where s = sample_core] by (simp add: sample_core_def)

lemma sample_flat: "flat sample_core"
  by (rule flat_machine_mode [OF _ _ sample_coherent]) (simp_all add: sample_defs)

lemma sample_bus_wf: "bus_wf sample_bus"
  by (simp add: bus_wf_def sample_bus_def)

lemma sample_fields [simp]:
  "core_hart sample_core = sample_hart" "core_bus sample_core = sample_bus"
  "core_tcache sample_core = sample_tcache" "bus_BYTES sample_bus = 4096"
  by (simp_all add: sample_core_def sample_bus_def)

lemma sample_write:
  "\<exists>b. bus_write sample_bus 0x80000008 (v :: u64) = Inr b" "\<exists>b. bus_write sample_bus 0x80000000 (v :: u64) = Inr b"
  by (simp_all add: bus_write_eq [OF sample_bus_wf] in_memory_def elem_size_def)

lemma sample_read: "bus_read sample_bus 0x80000000 = Inr (0xCF :: u64)"
  by (simp add: bus_read_eq [OF sample_bus_wf] in_memory_def elem_size_def,
      simp add: sample_bus_def dyn_region_read_def elem_size_def upt_rec, presburger)

lemma sample_satp: "csr_read (sample_csrs\<lparr>csr_mstatus := m\<rparr>) CSR_satp = 0"
  by (simp add: csr_read_def transform_read_def general_raw_read_def root_of_def sample_csrs_def)

lemma sample_xregs:
  "xr_read (hart_xregs sample_hart) X5 = 0x80000000" "xr_read (hart_xregs sample_hart) X6 = 42"
  by (simp_all add: sample_defs xr_read_def is_zero_def)

lemma sample_formats: "bits_format 32 (lib_single sample_lib)" "bits_format 64 (lib_double sample_lib)"
proof -
  have "(ucast (x :: u32) :: 128 word) < 2 ^ 32" "(ucast (y :: u64) :: 128 word) < 2 ^ 64" for x y
    using unsigned_less [of x, where ?'a = int] unsigned_less [of y, where ?'a = int]
    by (simp_all add: word_less_def unsigned_ucast_eq take_bit_int_eq_self)
  moreover have "ucast (ucast x :: 128 word) = (x :: u32)" "ucast (ucast y :: 128 word) = (y :: u64)" for x y
    by (rule bit_word_eqI; simp add: bit_simps)+
  ultimately show "bits_format 32 (lib_single sample_lib)" "bits_format 64 (lib_double sample_lib)"
    by (simp_all add: bits_format_def sample_lib_def sample_float_def)
qed

lemma sample_bits:
  "\<forall>b < 2 ^ 32. af_to_bits (lib_single sample_lib) (af_from_bits (lib_single sample_lib) b) = b"
  "\<forall>b < 2 ^ 64. af_to_bits (lib_double sample_lib) (af_from_bits (lib_double sample_lib) b) = b"
proof -
  have t: "ucast (ucast b :: u32) = take_bit 32 (b :: 128 word)" "ucast (ucast b :: u64) = take_bit 64 (b :: 128 word)" for b
    by (rule bit_word_eqI; auto simp: bit_simps)+
  show "\<forall>b < 2 ^ 32. af_to_bits (lib_single sample_lib) (af_from_bits (lib_single sample_lib) b) = b"
    "\<forall>b < 2 ^ 64. af_to_bits (lib_double sample_lib) (af_from_bits (lib_double sample_lib) b) = b"
    by (simp_all add: sample_lib_def sample_float_def t word_unat_eq_iff unsigned_take_bit_eq word_less_nat_alt
        take_bit_nat_eq_self)
qed

lemma sample_inv: "machine_inv (machine_reset sample_machine)"
  by (rule machine_inv_reset)

end
