(* ===== verification/Kernel_Loader.thy ===== *)
theory Kernel_Loader
  imports Memory
begin

text \<open>
  Loading of ELF files (kernel_loader.rs).  The file is parsed by the third-party crate \<^verbatim>\<open>goblin\<close>: its
  parser and its constants are the parameter \<^verbatim>\<open>Goblin\<close>, and the records hold the fields of its types that
  the loader reads, \<^verbatim>\<open>ph_file_range\<close> being the value of the method \<^verbatim>\<open>file_range\<close>.  \<^verbatim>\<open>Panicked\<close> stands for the
  panics: a slice out of bounds, an inverted range of a map, \<^verbatim>\<open>unimplemented!\<close> and \<^verbatim>\<open>todo!\<close>.
\<close>

section \<open>Errors and files\<close>

datatype 'g LoadError = WriteError "string option" u64 | GoblinError 'g | Panicked

record LoadResult =
  lr_entry :: u64
  lr_last_written :: u64

record ProgramHeader =
  ph_type :: u32
  ph_vaddr :: u64
  ph_paddr :: u64
  ph_filesz :: u64
  ph_memsz :: u64
  ph_file_range :: "nat \<times> nat"

record Reloc =
  rel_offset :: u64
  rel_addend :: "i64 option"
  rel_type :: u32

record Elf =
  elf_program_headers :: "ProgramHeader list"
  elf_entry :: u64
  elf_e_type :: u16
  elf_e_entry :: u64
  elf_dynrelas :: "Reloc list"

record 'g Goblin =
  gb_parse :: "u8 list \<Rightarrow> ('g, Elf) result"
  gb_PT_LOAD :: u32
  gb_ET_EXEC :: u16
  gb_ET_DYN :: u16
  gb_R_RISCV_RELATIVE :: u32

type_synonym ('g, 'm) writer = "u64 \<Rightarrow> u8 list \<Rightarrow> 'm \<Rightarrow> ('g LoadError, 'm) result"

section \<open>Loading\<close>

text \<open>The default method of the trait \<^verbatim>\<open>Memory\<close>.\<close>

definition set_zero :: "('g, 'm) writer \<Rightarrow> u64 \<Rightarrow> u64 \<Rightarrow> 'm \<Rightarrow> ('g LoadError, 'm) result" where
  "set_zero write_bytes paddr len m =
     (let bytes = replicate (unat len) 0 in write_bytes paddr bytes m)"

definition slice_range :: "'a list \<Rightarrow> nat \<times> nat \<Rightarrow> 'a list option" where
  "slice_range xs r = (let (i, j) = r in if i \<le> j \<and> j \<le> length xs then Some (take (j - i) (drop i xs)) else None)"

text \<open>The body of the loop over the segments, which the two loaders share up to the address.\<close>

definition load_segment ::
  "('g, 'm) writer \<Rightarrow> u8 list \<Rightarrow> u64 \<Rightarrow> ProgramHeader \<Rightarrow> 'm \<Rightarrow> ('g LoadError, 'm) result" where
  "load_segment write_bytes contents addr segment m =
     (case slice_range contents (ph_file_range segment) of
        None \<Rightarrow> Inl Panicked
      | Some bytes \<Rightarrow>
          (case write_bytes addr bytes m of
             Inl e \<Rightarrow> Inl e
           | Inr m \<Rightarrow>
               if ph_memsz segment > ph_filesz segment
               then (let first_zero = addr + ph_filesz segment;
                         num_zeroes = ph_memsz segment - ph_filesz segment
                     in set_zero write_bytes first_zero num_zeroes m)
               else Inr m))"

fun load_segments ::
  "('g, 'm) writer \<Rightarrow> u8 list \<Rightarrow> (ProgramHeader \<Rightarrow> u64) \<Rightarrow> ProgramHeader list \<Rightarrow> u64 \<Rightarrow> 'm
     \<Rightarrow> ('g LoadError, u64 \<times> 'm) result" where
  "load_segments write_bytes contents addr [] last_written m = Inr (last_written, m)"
| "load_segments write_bytes contents addr (segment # segments) last_written m =
     (case load_segment write_bytes contents (addr segment) segment m of
        Inl e \<Rightarrow> Inl e
      | Inr m \<Rightarrow> load_segments write_bytes contents addr segments (addr segment + ph_memsz segment) m)"

abbreviation loadable_segments :: "'g Goblin \<Rightarrow> Elf \<Rightarrow> ProgramHeader list" where
  "loadable_segments g elf \<equiv> filter (\<lambda>header. ph_type header = gb_PT_LOAD g) (elf_program_headers elf)"

definition load_elf_nonreloc ::
  "'g Goblin \<Rightarrow> ('g, 'm) writer \<Rightarrow> Elf \<Rightarrow> u8 list \<Rightarrow> 'm \<Rightarrow> ('g LoadError, LoadResult \<times> 'm) result" where
  "load_elf_nonreloc g write_bytes elf contents m =
     map_ok (\<lambda>(last_written, m). (\<lparr>lr_entry = elf_entry elf, lr_last_written = last_written\<rparr>, m))
       (load_segments write_bytes contents ph_paddr (loadable_segments g elf) 0 m)"

definition mem_size :: "'g Goblin \<Rightarrow> ProgramHeader list \<Rightarrow> u64" where
  "mem_size g phs =
     (let phs = filter (\<lambda>ph. ph_type ph = gb_PT_LOAD g) phs in
      if phs = [] then 0
      else Max (set (map (\<lambda>ph. ph_vaddr ph + ph_memsz ph) phs)) - Min (set (map ph_vaddr phs)))"

fun apply_relocs ::
  "'g Goblin \<Rightarrow> ('g, 'm) writer \<Rightarrow> u64 \<Rightarrow> Reloc list \<Rightarrow> 'm \<Rightarrow> ('g LoadError, 'm) result" where
  "apply_relocs g write_bytes start [] m = Inr m"
| "apply_relocs g write_bytes start (r # rs) m =
     (if rel_type r = gb_R_RISCV_RELATIVE g
      then (let relocated = to_stored (start + (case rel_addend r of Some a \<Rightarrow> a | None \<Rightarrow> 0))
            in case write_bytes (start + rel_offset r) relocated m of
                 Inl e \<Rightarrow> Inl e
               | Inr m \<Rightarrow> apply_relocs g write_bytes start rs m)
      else Inl Panicked)"

definition load_elf_reloc ::
  "'g Goblin \<Rightarrow> ('g, 'm) writer \<Rightarrow> u64 \<Rightarrow> Elf \<Rightarrow> u8 list \<Rightarrow> 'm \<Rightarrow> ('g LoadError, LoadResult \<times> 'm) result" where
  "load_elf_reloc g write_bytes start elf contents m =
     (case load_segments write_bytes contents (\<lambda>segment. start + ph_vaddr segment) (loadable_segments g elf) start m of
        Inl e \<Rightarrow> Inl e
      | Inr (last_written, m) \<Rightarrow>
          map_ok (\<lambda>m. (\<lparr>lr_entry = elf_e_entry elf + start, lr_last_written = last_written\<rparr>, m))
            (apply_relocs g write_bytes start (elf_dynrelas elf) m))"

definition load_elf ::
  "'g Goblin \<Rightarrow> ('g, 'm) writer \<Rightarrow> u64 \<Rightarrow> u8 list \<Rightarrow> 'm \<Rightarrow> ('g LoadError, LoadResult \<times> 'm) result" where
  "load_elf g write_bytes start contents m =
     (case gb_parse g contents of
        Inl e \<Rightarrow> Inl (GoblinError e)
      | Inr elf \<Rightarrow>
          if elf_e_type elf = gb_ET_EXEC g then load_elf_nonreloc g write_bytes elf contents m
          else if elf_e_type elf = gb_ET_DYN g then load_elf_reloc g write_bytes start elf contents m
          else Inl Panicked)"

section \<open>What loading promises\<close>

text \<open>The bytes of a segment in memory, and the header of a segment that fits its file and the memory.\<close>

definition segment_image :: "u8 list \<Rightarrow> ProgramHeader \<Rightarrow> u8 list" where
  "segment_image contents s =
     (case slice_range contents (ph_file_range s) of
        Some bytes \<Rightarrow> bytes @ replicate (unat (ph_memsz s) - unat (ph_filesz s)) 0
      | None \<Rightarrow> [])"

definition segment_wf :: "u8 list \<Rightarrow> u64 \<Rightarrow> ProgramHeader \<Rightarrow> bool" where
  "segment_wf contents addr s \<longleftrightarrow>
     map_option length (slice_range contents (ph_file_range s)) = Some (unat (ph_filesz s))
     \<and> unat addr + length (segment_image contents s) < 2 ^ 64"

definition apart_segments :: "u8 list \<Rightarrow> (ProgramHeader \<Rightarrow> u64) \<Rightarrow> ProgramHeader \<Rightarrow> ProgramHeader \<Rightarrow> bool" where
  "apart_segments contents addr s t \<longleftrightarrow>
     unat (addr s) + length (segment_image contents s) \<le> unat (addr t)
     \<or> unat (addr t) + length (segment_image contents t) \<le> unat (addr s)"

fun image_at :: "u8 list \<Rightarrow> (ProgramHeader \<Rightarrow> u64) \<Rightarrow> ProgramHeader list \<Rightarrow> nat \<Rightarrow> u8 option" where
  "image_at contents addr [] a = None"
| "image_at contents addr (s # ss) a =
     (if unat (addr s) \<le> a \<and> a < unat (addr s) + length (segment_image contents s)
      then Some (segment_image contents s ! (a - unat (addr s)))
      else image_at contents addr ss a)"

lemma image_at_None:
  assumes "\<forall>t \<in> set ss. apart_segments contents addr s t"
    "unat (addr s) \<le> a" "a < unat (addr s) + length (segment_image contents s)"
  shows "image_at contents addr ss a = None"
  using assms by (induction ss) (auto simp: apart_segments_def)

text \<open>What a loader relies on of the memory it writes to: a write within the address space succeeds and is
  read back, and a write to a range that nothing was written to yet changes nothing else.\<close>

locale loader_memory =
  fixes put :: "('g, 'm) writer"
    and byte :: "'m \<Rightarrow> nat \<Rightarrow> u8 option"
    and ok :: "'m \<Rightarrow> bool"
  assumes write_ok:
      "ok m \<Longrightarrow> unat p + length bs < 2 ^ 64 \<Longrightarrow>
       \<exists>m'. put p bs m = Inr m' \<and> ok m' \<and> (\<forall>i < length bs. byte m' (unat p + i) = Some (bs ! i))"
    and write_fresh:
      "ok m \<Longrightarrow> unat p + length bs < 2 ^ 64 \<Longrightarrow> put p bs m = Inr m' \<Longrightarrow>
       \<forall>i < length bs. byte m (unat p + i) = None \<Longrightarrow>
       a < unat p \<or> unat p + length bs \<le> a \<Longrightarrow> byte m' a = byte m a"
begin

definition fresh :: "'m \<Rightarrow> nat \<Rightarrow> nat \<Rightarrow> bool" where
  "fresh m p n \<longleftrightarrow> (\<forall>i < n. byte m (p + i) = None)"

definition placed_at :: "'m \<Rightarrow> nat \<Rightarrow> u8 list \<Rightarrow> 'm \<Rightarrow> bool" where
  "placed_at m p bs m' \<longleftrightarrow>
     (\<forall>a. byte m' a = (if p \<le> a \<and> a < p + length bs then Some (bs ! (a - p)) else byte m a))"

lemma write_placed:
  assumes "ok m" "unat p + length bs < 2 ^ 64" "fresh m (unat p) (length bs)"
  shows "\<exists>m'. put p bs m = Inr m' \<and> ok m' \<and> placed_at m (unat p) bs m'"
proof -
  from write_ok [OF assms(1,2)] obtain m' where m': "put p bs m = Inr m'" "ok m'"
    and b: "\<forall>i < length bs. byte m' (unat p + i) = Some (bs ! i)" by blast
  have "byte m' a = (if unat p \<le> a \<and> a < unat p + length bs then Some (bs ! (a - unat p)) else byte m a)" for a
  proof (cases "unat p \<le> a \<and> a < unat p + length bs")
    case True
    then have "a - unat p < length bs" by linarith
    with b [rule_format, of "a - unat p"] True show ?thesis by simp
  next
    case False
    then have "a < unat p \<or> unat p + length bs \<le> a" by linarith
    from write_fresh [OF assms(1,2) m'(1) assms(3) [unfolded fresh_def] this] False show ?thesis by (simp only: if_False)
  qed
  with m' show ?thesis unfolding placed_at_def by blast
qed

lemma placed_append:
  assumes "placed_at m p bs m1" "placed_at m1 (p + length bs) cs m2"
  shows "placed_at m p (bs @ cs) m2"
  unfolding placed_at_def
proof
  fix a
  show "byte m2 a = (if p \<le> a \<and> a < p + length (bs @ cs) then Some ((bs @ cs) ! (a - p)) else byte m a)"
  proof (cases "p + length bs \<le> a")
    case True
    then show ?thesis using assms by (auto simp: placed_at_def nth_append)
  next
    case False
    then show ?thesis using assms by (auto simp: placed_at_def nth_append)
  qed
qed

lemma load_segment_placed:
  assumes "ok m" "segment_wf contents addr s" "fresh m (unat addr) (length (segment_image contents s))"
  shows "\<exists>m'. load_segment put contents addr s m = Inr m' \<and> ok m'
    \<and> placed_at m (unat addr) (segment_image contents s) m'"
proof -
  obtain bs where bs: "slice_range contents (ph_file_range s) = Some bs" "length bs = unat (ph_filesz s)"
    using assms(2) by (auto simp: segment_wf_def)
  let ?z = "replicate (unat (ph_memsz s) - unat (ph_filesz s)) 0 :: u8 list"
  have im: "segment_image contents s = bs @ ?z" by (simp add: segment_image_def bs)
  have fit: "unat addr + length bs + length ?z < 2 ^ 64" using assms(2) by (simp add: segment_wf_def im add.assoc)
  have fr: "fresh m (unat addr) (length bs + length ?z)" using assms(3) by (simp add: im)
  then have "fresh m (unat addr) (length bs)" by (simp add: fresh_def)
  from write_placed [OF assms(1) _ this] fit
  obtain m1 where m1: "put addr bs m = Inr m1" "ok m1" "placed_at m (unat addr) bs m1" by auto
  show ?thesis
  proof (cases "ph_memsz s > ph_filesz s")
    case False
    then have "?z = []" by (simp add: word_less_nat_alt)
    with m1 False show ?thesis by (simp add: load_segment_def bs im)
  next
    case True
    have a: "unat (addr + ph_filesz s) = unat addr + length bs"
      using fit bs(2) by (subst unat_add_lem [THEN iffD1]) simp_all
    have n: "unat (ph_memsz s - ph_filesz s) = length ?z" using True by (simp add: unat_sub)
    have "fresh m1 (unat (addr + ph_filesz s)) (length ?z)"
      using fr m1(3) unfolding fresh_def placed_at_def a by (simp add: add.assoc)
    from write_placed [OF m1(2) _ this] fit
    obtain m2 where m2: "put (addr + ph_filesz s) ?z m1 = Inr m2" "ok m2"
        "placed_at m1 (unat addr + length bs) ?z m2" unfolding a by auto
    have "load_segment put contents addr s m = Inr m2"
      using True m1(1) m2(1) n by (simp add: load_segment_def bs set_zero_def)
    with m2(2) placed_append [OF m1(3) m2(3)] show ?thesis by (simp add: im)
  qed
qed

lemma load_segments_image:
  assumes "ok m" "\<forall>s \<in> set segs. segment_wf contents (addr s) s" "sorted_wrt (apart_segments contents addr) segs"
    and "\<forall>s \<in> set segs. fresh m (unat (addr s)) (length (segment_image contents s))"
  shows "\<exists>last m'. load_segments put contents addr segs l m = Inr (last, m') \<and> ok m'
    \<and> (\<forall>a. byte m' a = (case image_at contents addr segs a of Some v \<Rightarrow> Some v | None \<Rightarrow> byte m a))"
  using assms
proof (induction segs arbitrary: m l)
  case Nil
  then show ?case by simp
next
  case (Cons s ss)
  obtain m1 where m1: "load_segment put contents (addr s) s m = Inr m1" "ok m1"
    "placed_at m (unat (addr s)) (segment_image contents s) m1"
    using load_segment_placed [of m contents "addr s" s] Cons(2,3,5) by auto
  have "fresh m1 (unat (addr t)) (length (segment_image contents t))" if "t \<in> set ss" for t
  proof -
    have ap: "apart_segments contents addr s t" using Cons(4) that by simp
    have f: "fresh m (unat (addr t)) (length (segment_image contents t))" using Cons(5) that by simp
    show ?thesis
      unfolding fresh_def
    proof (intro allI impI)
      fix i assume i: "i < length (segment_image contents t)"
      then have "\<not> (unat (addr s) \<le> unat (addr t) + i
          \<and> unat (addr t) + i < unat (addr s) + length (segment_image contents s))"
        using ap unfolding apart_segments_def by linarith
      with m1(3) f i show "byte m1 (unat (addr t) + i) = None" unfolding fresh_def placed_at_def by (simp only: if_False)
    qed
  qed
  with Cons(1) [OF m1(2), of "addr s + ph_memsz s"] Cons(3,4)
  obtain last m' where m': "load_segments put contents addr ss (addr s + ph_memsz s) m1 = Inr (last, m')" "ok m'"
    "\<forall>a. byte m' a = (case image_at contents addr ss a of Some v \<Rightarrow> Some v | None \<Rightarrow> byte m1 a)" by auto
  have "byte m' a = (case image_at contents addr (s # ss) a of Some v \<Rightarrow> Some v | None \<Rightarrow> byte m a)" for a
  proof (cases "unat (addr s) \<le> a \<and> a < unat (addr s) + length (segment_image contents s)")
    case True
    then have "image_at contents addr ss a = None" using Cons(4) by (intro image_at_None [of _ contents addr s]) simp_all
    with True m'(3) m1(3) show ?thesis by (simp add: placed_at_def)
  next
    case False
    with m1(3) have "byte m1 a = byte m a" unfolding placed_at_def by (simp only: if_False)
    moreover have "image_at contents addr (s # ss) a = image_at contents addr ss a" using False by auto
    ultimately show ?thesis using m'(3) by (simp split: option.split)
  qed
  with m1(1) m' show ?case by simp
qed

end

end
