(* ===== verification/Program.thy ===== *)
theory Program
  imports Kernel_Loader Parser_C
begin

text \<open>
  The image of a program before it is written to main memory (program.rs).  The \<^verbatim>\<open>BTreeMap\<close> of
  segments is the list of its entries in the order of their keys.  The iteration of \<^verbatim>\<open>write_bytes\<close> over
  the chunks in the way of a write is the function \<^verbatim>\<open>split_loop\<close> on their keys; it panics where the end of
  the range wraps around, since \<^verbatim>\<open>BTreeMap::range\<close> does.
\<close>

section \<open>Ordered maps\<close>

fun bt_insert :: "'k::linorder \<Rightarrow> 'v \<Rightarrow> ('k \<times> 'v) list \<Rightarrow> ('k \<times> 'v) list" where
  "bt_insert k v [] = [(k, v)]"
| "bt_insert k v ((k', v') # xs) =
     (if k < k' then (k, v) # (k', v') # xs
      else if k = k' then (k, v) # xs
      else (k', v') # bt_insert k v xs)"

definition bt_append :: "('k::linorder \<times> 'v) list \<Rightarrow> ('k \<times> 'v) list \<Rightarrow> ('k \<times> 'v) list" where
  "bt_append new xs = fold (\<lambda>(k, v). bt_insert k v) new xs"

definition bt_wf :: "('k::linorder \<times> 'v) list \<Rightarrow> bool" where
  "bt_wf xs \<longleftrightarrow> sorted_wrt (<) (map fst xs)"

lemma map_of_bt_insert [simp]:
  "bt_wf xs \<Longrightarrow> map_of (bt_insert k v xs) = (map_of xs)(k \<mapsto> v)"
proof (induction k v xs rule: bt_insert.induct)
  case (2 k v k' v' xs)
  show ?case
  proof (cases "k < k'")
    case True
    then show ?thesis by auto
  next
    case False
    then show ?thesis using 2 by (auto simp: bt_wf_def fun_upd_twist)
  qed
qed simp

lemma set_bt_insert: "fst ` set (bt_insert k v xs) = insert k (fst ` set xs)"
  by (induction k v xs rule: bt_insert.induct) auto

lemma bt_wf_insert: "bt_wf xs \<Longrightarrow> bt_wf (bt_insert k v xs)"
proof (induction k v xs rule: bt_insert.induct)
  case (2 k v k' v' xs)
  have "\<And>y. y \<in> fst ` set (bt_insert k v xs) \<Longrightarrow> y = k \<or> y \<in> fst ` set xs"
    by (simp add: set_bt_insert)
  with 2 show ?case by (fastforce simp: bt_wf_def)
qed (simp add: bt_wf_def)

lemma bt_wf_distinct: "bt_wf xs \<Longrightarrow> distinct (map fst xs)"
  by (auto simp: bt_wf_def strict_sorted_iff)

section \<open>Segments\<close>

type_synonym Segments = "(Address \<times> u8 list) list"

definition vec_resize :: "nat \<Rightarrow> u8 \<Rightarrow> u8 list \<Rightarrow> u8 list" where
  "vec_resize n v xs = take n xs @ replicate (n - length xs) v"

definition shrink_previous :: "Address \<Rightarrow> Segments \<Rightarrow> Segments" where
  "shrink_previous paddr segments =
     (case rev (filter (\<lambda>(k, _). k < paddr) segments) of
        (prev_paddr, prev_bytes) # _ \<Rightarrow>
          if paddr < prev_paddr + of_nat (length prev_bytes)
          then bt_insert prev_paddr (vec_resize (unat (paddr - prev_paddr)) 0 prev_bytes) segments
          else segments
      | [] \<Rightarrow> segments)"

fun split_loop ::
  "Address list \<Rightarrow> Address \<Rightarrow> u8 list \<Rightarrow> Segments \<Rightarrow> Segments \<times> Address \<times> u8 list" where
  "split_loop [] paddr bytes new_segments = (new_segments, paddr, bytes)"
| "split_loop (next_paddr # ks) paddr bytes new_segments =
     (let nonoverlapping_len = unat (next_paddr - paddr);
          nonoverlapping = take nonoverlapping_len bytes;
          overlapping = drop nonoverlapping_len bytes
      in split_loop ks next_paddr overlapping
           (if nonoverlapping \<noteq> [] then bt_insert paddr nonoverlapping new_segments else new_segments))"

definition write_bytes :: "('g, Segments) writer" where
  "write_bytes paddr bytes segments =
     (if bytes = [] then Inr segments
      else
        (let segments = shrink_previous paddr segments;
             paddr_after = paddr + of_nat (length bytes)
         in if paddr_after < paddr then Inl Panicked
            else
              (let ks = map fst (filter (\<lambda>(k, _). paddr \<le> k \<and> k < paddr_after) segments);
                   (new_segments, paddr, bytes) = split_loop ks paddr bytes [];
                   segments = bt_append new_segments segments
               in if bytes = [] then Inr segments
                  else
                    case map_of segments paddr of
                      Some chunk \<Rightarrow>
                        if length chunk \<ge> length bytes
                        then Inr (bt_insert paddr (bytes @ drop (length bytes) chunk) segments)
                        else Inr (bt_insert paddr bytes segments)
                    | None \<Rightarrow> Inr (bt_insert paddr bytes segments))))"

section \<open>Contents\<close>

text \<open>The byte at an address: the segments do not overlap, so at most one of them has it.\<close>

definition seg_holds :: "(Address \<rightharpoonup> u8 list) \<Rightarrow> nat \<Rightarrow> u8 \<Rightarrow> bool" where
  "seg_holds m a v \<longleftrightarrow> (\<exists>k b. m k = Some b \<and> unat k \<le> a \<and> a < unat k + length b \<and> v = b ! (a - unat k))"

definition seg_map_ok :: "(Address \<rightharpoonup> u8 list) \<Rightarrow> bool" where
  "seg_map_ok m \<longleftrightarrow>
     (\<forall>k b. m k = Some b \<longrightarrow> unat k + length b < 2 ^ 64)
     \<and> (\<forall>k b k' b'. m k = Some b \<longrightarrow> m k' = Some b' \<longrightarrow> k < k' \<longrightarrow> unat k + length b \<le> unat k')"

lemma seg_map_okD:
  assumes "seg_map_ok m"
  shows "m k = Some b \<Longrightarrow> unat k + length b < 2 ^ 64"
    "m k = Some b \<Longrightarrow> m k' = Some b' \<Longrightarrow> k < k' \<Longrightarrow> unat k + length b \<le> unat k'"
  using assms unfolding seg_map_ok_def by blast+

text \<open>Replacing the chunk at an address by one that reaches no further than the next chunk.\<close>

lemma seg_map_ok_upd:
  assumes "seg_map_ok m" "unat p + length c < 2 ^ 64"
    and "\<And>k b. m k = Some b \<Longrightarrow> k < p \<Longrightarrow> unat k + length b \<le> unat p"
    and "\<And>k b. m k = Some b \<Longrightarrow> p < k \<Longrightarrow> unat p + length c \<le> unat k"
  shows "seg_map_ok (m(p \<mapsto> c))"
  using assms unfolding seg_map_ok_def by (auto split: if_splits)

lemma seg_holds_upd:
  assumes "\<And>k b. m k = Some b \<Longrightarrow> k < p \<Longrightarrow> unat k + length b \<le> unat p"
    and "\<And>k b. m k = Some b \<Longrightarrow> p < k \<Longrightarrow> unat p + length c \<le> unat k"
    and "\<And>b. m p = Some b \<Longrightarrow> length b \<le> length c"
  shows "seg_holds (m(p \<mapsto> c)) a v \<longleftrightarrow>
    (if unat p \<le> a \<and> a < unat p + length c then v = c ! (a - unat p) else seg_holds m a v)"
proof (cases "unat p \<le> a \<and> a < unat p + length c")
  case True
  have "k = p" if "(m(p \<mapsto> c)) k = Some b" "unat k \<le> a" "a < unat k + length b" for k b
  proof (rule ccontr)
    assume "k \<noteq> p"
    with that(1) have "m k = Some b" by simp
    with assms(1,2) [of k b] that True \<open>k \<noteq> p\<close> show False
      by (cases "k < p") (auto simp: not_less le_less)
  qed
  with True show ?thesis unfolding seg_holds_def by (metis fun_upd_same option.inject)
next
  case False
  then have "k \<noteq> p" if "m k = Some b" "unat k \<le> a" "a < unat k + length b" for k b
    using that assms(3) [of b] by auto
  moreover have "k \<noteq> p" if "(m(p \<mapsto> c)) k = Some b" "unat k \<le> a" "a < unat k + length b" for k b
    using that False by auto
  ultimately have "seg_holds (m(p \<mapsto> c)) a v \<longleftrightarrow> seg_holds m a v"
    unfolding seg_holds_def by (metis fun_upd_other)
  with False show ?thesis by auto
qed

text \<open>The state of the loop over the chunks in the way: the chunks before \<^verbatim>\<open>p\<close> end at \<^verbatim>\<open>p\<close>, and the keys
  within the range to be written are \<^verbatim>\<open>p\<close> itself and the ones the loop has still to visit.\<close>

definition split_inv :: "(Address \<rightharpoonup> u8 list) \<Rightarrow> Address list \<Rightarrow> Address \<Rightarrow> u8 list \<Rightarrow> bool" where
  "split_inv m ks p bs \<longleftrightarrow>
     seg_map_ok m \<and> bs \<noteq> [] \<and> unat p + length bs < 2 ^ 64 \<and> sorted_wrt (<) ks
     \<and> (\<forall>k \<in> set ks. p \<le> k \<and> unat k < unat p + length bs \<and> k \<in> dom m)
     \<and> (\<forall>k \<in> dom m. p \<le> k \<and> unat k < unat p + length bs \<longrightarrow> k = p \<or> k \<in> set ks)
     \<and> (\<forall>k b. m k = Some b \<longrightarrow> k < p \<longrightarrow> unat k + length b \<le> unat p)"

definition put_last :: "Address \<Rightarrow> u8 list \<Rightarrow> (Address \<rightharpoonup> u8 list) \<Rightarrow> (Address \<rightharpoonup> u8 list)" where
  "put_last p bs m =
     m(p \<mapsto> case m p of Some c \<Rightarrow> if length c \<ge> length bs then bs @ drop (length bs) c else bs | None \<Rightarrow> bs)"

definition overwritten :: "(Address \<rightharpoonup> u8 list) \<Rightarrow> Address \<Rightarrow> u8 list \<Rightarrow> (Address \<rightharpoonup> u8 list) \<Rightarrow> bool" where
  "overwritten m p bs m' \<longleftrightarrow> seg_map_ok m' \<and>
     (\<forall>a v. seg_holds m' a v \<longleftrightarrow>
       (if unat p \<le> a \<and> a < unat p + length bs then v = bs ! (a - unat p) else seg_holds m a v))"

lemma overwrittenD:
  assumes "overwritten m p bs m'"
  shows "seg_map_ok m'"
    "seg_holds m' a v \<longleftrightarrow>
       (if unat p \<le> a \<and> a < unat p + length bs then v = bs ! (a - unat p) else seg_holds m a v)"
  using assms unfolding overwritten_def by blast+

lemma put_last_overwrites:
  assumes "split_inv m [] p bs"
  shows "overwritten m p bs (put_last p bs m)"
proof -
  let ?c = "case m p of Some c \<Rightarrow> if length c \<ge> length bs then bs @ drop (length bs) c else bs | None \<Rightarrow> bs"
  have m: "seg_map_ok m" "unat p + length bs < 2 ^ 64"
    and before: "\<And>k b. m k = Some b \<Longrightarrow> k < p \<Longrightarrow> unat k + length b \<le> unat p"
    and far: "\<And>k b. m k = Some b \<Longrightarrow> p < k \<Longrightarrow> unat p + length bs \<le> unat k"
    using assms unfolding split_inv_def by (auto simp: dom_def not_less)
  have after: "unat p + length ?c \<le> unat k" if "m k = Some b" "p < k" for k b
    using far [OF that] seg_map_okD(2) [OF m(1) _ that(1) that(2)] by (auto split: option.split)
  have fits: "unat p + length ?c < 2 ^ 64"
    using m(2) seg_map_okD(1) [OF m(1), of p] by (auto split: option.split)
  have covers: "length b \<le> length ?c" if "m p = Some b" for b using that by simp
  have "seg_map_ok (put_last p bs m)"
    unfolding put_last_def by (rule seg_map_ok_upd [OF m(1) fits before after])
  moreover have "seg_holds (put_last p bs m) a v \<longleftrightarrow>
      (if unat p \<le> a \<and> a < unat p + length bs then v = bs ! (a - unat p) else seg_holds m a v)" for a v
  proof -
    have ch: "seg_holds (put_last p bs m) a v \<longleftrightarrow>
        (if unat p \<le> a \<and> a < unat p + length ?c then v = ?c ! (a - unat p) else seg_holds m a v)"
      unfolding put_last_def by (rule seg_holds_upd [OF before after covers])
    show ?thesis
    proof (cases "unat p + length bs \<le> a \<and> a < unat p + length ?c")
    case True
    then obtain c where c: "m p = Some c" "length bs < length c" by (auto split: option.splits if_splits)
    with True have "seg_holds m a v \<longleftrightarrow> v = c ! (a - unat p)"
      using seg_holds_upd [of m p c a v] before seg_map_okD(2) [OF m(1) c(1)] by (simp add: fun_upd_idem)
    with True c show ?thesis unfolding ch by (auto simp: nth_append)
  next
    case False
    then show ?thesis unfolding ch by (auto split: option.split simp: nth_append)
  qed
  qed
  ultimately show ?thesis by (simp add: overwritten_def)
qed

lemma overwritten_trans:
  assumes "overwritten m p (take n bs) m1" "overwritten m1 q (drop n bs) m2"
    and "unat q = unat p + n" "n \<le> length bs"
  shows "overwritten m p bs m2"
proof -
  have "seg_holds m2 a v \<longleftrightarrow>
      (if unat p \<le> a \<and> a < unat p + length bs then v = bs ! (a - unat p) else seg_holds m a v)" for a v
  proof (cases "unat q \<le> a \<and> a < unat q + length (drop n bs)")
    case True
    then have "seg_holds m2 a v \<longleftrightarrow> v = drop n bs ! (a - unat q)"
      unfolding overwrittenD(2) [OF assms(2)] by simp
    with True assms(3,4) show ?thesis by simp
  next
    case False
    then have "seg_holds m2 a v \<longleftrightarrow> seg_holds m1 a v"
      unfolding overwrittenD(2) [OF assms(2)] by (simp only: if_False)
    also have "\<dots> \<longleftrightarrow> (if unat p \<le> a \<and> a < unat p + length (take n bs) then v = take n bs ! (a - unat p)
        else seg_holds m a v)"
      by (rule overwrittenD(2) [OF assms(1)])
    finally have e: "seg_holds m2 a v \<longleftrightarrow>
        (if unat p \<le> a \<and> a < unat p + n then v = take n bs ! (a - unat p) else seg_holds m a v)"
      using assms(4) by (simp add: min_absorb2)
    show ?thesis
    proof (cases "unat p \<le> a \<and> a < unat p + n")
      case True
      then have "a - unat p < n" by linarith
      then have "take n bs ! (a - unat p) = bs ! (a - unat p)" by (rule nth_take)
      with e assms(4) True show ?thesis by simp
    next
      case f: False
      with False assms(3,4) have "\<not> (unat p \<le> a \<and> a < unat p + length bs)" by (simp; linarith)
      with e f show ?thesis by (simp only: if_False)
    qed
  qed
  with assms(2) show ?thesis by (simp add: overwritten_def)
qed

lemma split_invD:
  assumes "split_inv m ks p bs"
  shows "seg_map_ok m" "bs \<noteq> []" "unat p + length bs < 2 ^ 64" "sorted_wrt (<) ks"
    "j \<in> set ks \<Longrightarrow> p \<le> j" "j \<in> set ks \<Longrightarrow> unat j < unat p + length bs" "j \<in> set ks \<Longrightarrow> j \<in> dom m"
    "j \<in> dom m \<Longrightarrow> p \<le> j \<Longrightarrow> unat j < unat p + length bs \<Longrightarrow> j = p \<or> j \<in> set ks"
    "m j = Some b \<Longrightarrow> j < p \<Longrightarrow> unat j + length b \<le> unat p"
  using assms unfolding split_inv_def by blast+

text \<open>One iteration writes the bytes up to the next chunk.\<close>

lemma split_step:
  fixes k p :: Address
  defines "n \<equiv> unat (k - p)"
  assumes inv: "split_inv m (k # ks) p bs" and ne: "p \<noteq> k"
  shows "overwritten m p (take n bs) (m(p \<mapsto> take n bs))" "split_inv (m(p \<mapsto> take n bs)) ks k (drop n bs)"
    "0 < n" "n < length bs" "unat k = unat p + n"
proof -
  note inv = split_invD [OF inv]
  have k: "p \<le> k" "unat k < unat p + length bs" "k \<in> dom m" by (rule inv(5-7); simp)+
  show n: "unat k = unat p + n" "n < length bs"
    using k by (simp_all add: n_def unat_sub word_le_nat_alt)
  have lt: "p < k" using k(1) ne by simp
  then show "0 < n" using n(1) by (simp add: word_less_nat_alt)
  obtain c where c: "m k = Some c" using k(3) by blast
  have len: "length (take n bs) = n" using n(2) by simp
  have after: "unat p + length (take n bs) \<le> unat j" if "m j = Some b" "p < j" for j b
  proof (cases "unat j < unat p + length bs")
    case True
    have "j \<in> dom m" using that(1) by blast
    from inv(8) [OF this less_imp_le [OF that(2)] True] that(2) have "j = k \<or> j \<in> set ks" by auto
    with inv(4) have "k \<le> j" by auto
    with n(1) len show ?thesis by (simp add: word_le_nat_alt)
  next
    case False
    with len n(2) show ?thesis by linarith
  qed
  have covers: "length b \<le> length (take n bs)" if "m p = Some b" for b
    using seg_map_okD(2) [OF inv(1) that c lt] n(1) len by linarith
  have fits: "unat p + length (take n bs) < 2 ^ 64" using inv(3) len n(2) by linarith
  have ok: "seg_map_ok (m(p \<mapsto> take n bs))" by (rule seg_map_ok_upd [OF inv(1) fits inv(9) after])
  then show "overwritten m p (take n bs) (m(p \<mapsto> take n bs))"
    using seg_holds_upd [OF inv(9) after covers] by (simp add: overwritten_def)
  have end_eq: "unat k + length (drop n bs) = unat p + length bs" using n by simp
  show "split_inv (m(p \<mapsto> take n bs)) ks k (drop n bs)"
    unfolding split_inv_def end_eq
  proof (intro conjI ballI allI impI)
    show "drop n bs \<noteq> []" using n(2) by simp
    show "sorted_wrt (<) ks" using inv(4) by simp
    show "k \<le> j" if "j \<in> set ks" for j using inv(4) that by auto
    show "unat j < unat p + length bs" if "j \<in> set ks" for j using inv(6) [of j] that by simp
    show "j \<in> dom (m(p \<mapsto> take n bs))" if "j \<in> set ks" for j using inv(7) [of j] that by simp
    show "j = k \<or> j \<in> set ks" if "j \<in> dom (m(p \<mapsto> take n bs))" "k \<le> j \<and> unat j < unat p + length bs" for j
    proof -
      have "j \<in> dom m" "p \<le> j" using that lt by auto
      from inv(8) [OF this] that(2) lt show ?thesis by auto
    qed
    show "unat j + length b \<le> unat k" if "(m(p \<mapsto> take n bs)) j = Some b" "j < k" for j b
    proof (cases "j = p")
      case True
      with that(1) len n(1) show ?thesis by auto
    next
      case False
      with that(1) have "m j = Some b" by simp
      from seg_map_okD(2) [OF inv(1) this c that(2)] show ?thesis .
    qed
  qed (use ok inv(3) in simp_all)
qed

lemma split_loop_overwrites:
  assumes "split_inv (m0 ++ map_of new) ks p bs" "bt_wf new" "split_loop ks p bs new = (new', p', bs')"
  shows "bs' \<noteq> [] \<and> bt_wf new' \<and> overwritten (m0 ++ map_of new) p bs (put_last p' bs' (m0 ++ map_of new'))"
  using assms
proof (induction ks arbitrary: p bs new)
  case Nil
  then show ?case using put_last_overwrites split_invD(2) by auto
next
  case (Cons k ks)
  show ?case
  proof (cases "p = k")
    case True
    then have "split_inv (m0 ++ map_of new) ks k bs" using Cons(2) unfolding split_inv_def by auto
    with Cons(1) [of new k bs] Cons(3,4) True show ?thesis by (simp add: Let_def)
  next
    case False
    let ?n = "unat (k - p)" and ?m = "m0 ++ map_of new"
    note st = split_step [OF Cons(2) False]
    have e: "m0 ++ map_of (bt_insert p (take ?n bs) new) = ?m(p \<mapsto> take ?n bs)" using Cons(3) by simp
    have "take ?n bs \<noteq> []" using st(3,4) by auto
    with Cons(4) have l: "split_loop ks k (drop ?n bs) (bt_insert p (take ?n bs) new) = (new', p', bs')"
      by (simp add: Let_def)
    have "split_inv (m0 ++ map_of (bt_insert p (take ?n bs) new)) ks k (drop ?n bs)"
      unfolding e by (rule st(2))
    from Cons(1) [OF this bt_wf_insert [OF Cons(3)] l]
    show ?thesis
      unfolding e using overwritten_trans [OF st(1) _ st(5) less_imp_le [OF st(4)]] by blast
  qed
qed

section \<open>Writing\<close>

text \<open>The invariant of the segments: in the order of their addresses, and disjoint.\<close>

definition segs_ok :: "Segments \<Rightarrow> bool" where
  "segs_ok segs \<longleftrightarrow> bt_wf segs \<and> seg_map_ok (map_of segs)"

definition seg_byte :: "Segments \<Rightarrow> nat \<Rightarrow> u8 option" where
  "seg_byte segs a =
     (case find (\<lambda>(k, b). unat k \<le> a \<and> a < unat k + length b) segs of
        Some (k, b) \<Rightarrow> Some (b ! (a - unat k)) | None \<Rightarrow> None)"

lemma seg_holds_unique:
  assumes "seg_map_ok m" "seg_holds m a v" "seg_holds m a w"
  shows "v = w"
proof -
  obtain k b k' b' where k: "m k = Some b" "unat k \<le> a" "a < unat k + length b" "v = b ! (a - unat k)"
    and k': "m k' = Some b'" "unat k' \<le> a" "a < unat k' + length b'" "w = b' ! (a - unat k')"
    using assms(2,3) unfolding seg_holds_def by blast
  have "\<not> k < k'" "\<not> k' < k"
    using seg_map_okD(2) [OF assms(1) k(1) k'(1)] seg_map_okD(2) [OF assms(1) k'(1) k(1)] k k' by linarith+
  then have "k = k'" by simp
  with k k' show ?thesis by simp
qed

lemma seg_byte_iff:
  assumes "segs_ok segs"
  shows "seg_byte segs a = Some v \<longleftrightarrow> seg_holds (map_of segs) a v"
proof -
  let ?P = "\<lambda>(k, b :: u8 list). unat (k :: Address) \<le> a \<and> a < unat k + length b"
  have d: "distinct (map fst segs)" "seg_map_ok (map_of segs)"
    using assms bt_wf_distinct unfolding segs_ok_def by blast+
  have h: "seg_holds (map_of segs) a w \<longleftrightarrow> (\<exists>k b. (k, b) \<in> set segs \<and> ?P (k, b) \<and> w = b ! (a - unat k))" for w
    unfolding seg_holds_def using d(1) by (auto simp: map_of_eq_Some_iff)
  show ?thesis
  proof (cases "find ?P segs")
    case None
    then have "seg_byte segs a = None" by (simp add: seg_byte_def)
    with None show ?thesis unfolding h by (auto simp: find_None_iff)
  next
    case (Some x)
    obtain k b where x: "x = (k, b)" by fastforce
    have "x \<in> set segs \<and> ?P x" using Some unfolding find_Some_iff by (elim exE conjE) (simp only: nth_mem)
    then have hv: "seg_holds (map_of segs) a (b ! (a - unat k))" unfolding h x by blast
    have "seg_byte segs a = Some (b ! (a - unat k))" by (simp add: seg_byte_def Some x)
    then show ?thesis using hv seg_holds_unique [OF d(2) hv] by (metis option.inject)
  qed
qed

text \<open>What \<^verbatim>\<open>shrink_previous\<close> does: it cuts off at \<^verbatim>\<open>p\<close> the chunk that starts before \<^verbatim>\<open>p\<close>.\<close>

definition shrunk :: "Address \<Rightarrow> (Address \<rightharpoonup> u8 list) \<Rightarrow> (Address \<rightharpoonup> u8 list)" where
  "shrunk p m = (\<lambda>k. map_option (\<lambda>b. if k < p then take (unat p - unat k) b else b) (m k))"

lemma last_before:
  assumes "bt_wf segs" "rev (filter (\<lambda>(k, _). k < p) segs) = (pk, pb) # rest"
  shows "map_of segs pk = Some pb" "pk < p" "k \<in> dom (map_of segs) \<Longrightarrow> k < p \<Longrightarrow> k \<le> pk"
proof -
  let ?f = "filter (\<lambda>(k, _). k < p) segs"
  have f: "?f = rev rest @ [(pk, pb)]" using assms(2) by (metis rev.simps(2) rev_rev_ident)
  then have "(pk, pb) \<in> set ?f" by simp
  then have m: "(pk, pb) \<in> set segs" "pk < p" by auto
  then show "map_of segs pk = Some pb" "pk < p" using bt_wf_distinct [OF assms(1)] by simp_all
  have srt: "sorted_wrt (<) (map fst ?f)"
    using assms(1) unfolding bt_wf_def by (simp add: sorted_wrt_map sorted_wrt_filter)
  assume k: "k \<in> dom (map_of segs)" "k < p"
  then obtain b where "(k, b) \<in> set ?f" by (auto dest: map_of_SomeD)
  with srt show "k \<le> pk" unfolding f by (auto simp: sorted_wrt_append)
qed

lemma none_before:
  assumes "bt_wf segs" "filter (\<lambda>(k, _). k < p) segs = []" "k \<in> dom (map_of segs)"
  shows "p \<le> k"
  using assms(2,3) by (auto simp: filter_empty_conv dest!: map_of_SomeD)

lemma shrink_previous_map:
  assumes "segs_ok segs"
  shows "bt_wf (shrink_previous p segs)" "map_of (shrink_previous p segs) = shrunk p (map_of segs)"
proof -
  let ?m = "map_of segs"
  have wf: "bt_wf segs" and ok: "seg_map_ok ?m" using assms by (simp_all add: segs_ok_def)
  show "bt_wf (shrink_previous p segs)"
    using wf bt_wf_insert by (auto simp: shrink_previous_def split: list.split)
  show "map_of (shrink_previous p segs) = shrunk p ?m"
  proof (cases "rev (filter (\<lambda>(k, _). k < p) segs)")
    case Nil
    have "\<not> k < p" if "?m k = Some b" for k b
    proof -
      have "k \<in> dom ?m" using that by blast
      from none_before [OF wf _ this] Nil show ?thesis by (simp add: not_less)
    qed
    then have "shrunk p ?m k = ?m k" for k by (cases "?m k") (auto simp: shrunk_def)
    then show ?thesis unfolding shrink_previous_def Nil by auto
  next
    case (Cons x rest)
    obtain pk pb where x: "x = (pk, pb)" by fastforce
    note lb = last_before [OF wf Cons [unfolded x]]
    have same: "shrunk p ?m k = ?m k" if "k \<noteq> pk" for k
    proof (cases "?m k")
      case (Some b)
      show ?thesis
      proof (cases "k < p")
        case True
        have "k \<in> dom ?m" using Some by blast
        from lb(3) [OF this True] that have "k < pk" by simp
        from seg_map_okD(2) [OF ok Some lb(1) this] lb(2) Some show ?thesis
          by (simp add: shrunk_def word_less_nat_alt)
      qed (simp add: shrunk_def Some)
    qed (simp add: shrunk_def)
    have len: "unat (of_nat (length pb) :: u64) = length pb"
      using seg_map_okD(1) [OF ok lb(1)] by (simp add: unsigned_of_nat take_bit_nat_eq_self)
    then have add: "unat (pk + of_nat (length pb)) = unat pk + length pb"
      using seg_map_okD(1) [OF ok lb(1)] by (subst unat_add_lem [THEN iffD1]) simp_all
    have sub: "unat (p - pk) = unat p - unat pk" using lb(2) by (intro unat_sub) simp
    show ?thesis
    proof
      fix k
      show "map_of (shrink_previous p segs) k = shrunk p ?m k"
      proof (cases "k = pk")
        case True
        have "shrunk p ?m pk = Some (take (unat p - unat pk) pb)" using lb(1,2) by (simp add: shrunk_def)
        moreover have "vec_resize (unat p - unat pk) 0 pb = take (unat p - unat pk) pb"
          if "unat p < unat pk + length pb" using that by (simp add: vec_resize_def)
        ultimately show ?thesis
          using True lb(1) word_less_nat_alt [of p "pk + of_nat (length pb)"]
          by (simp add: shrink_previous_def Cons x wf add sub)
      next
        case False
        with same [of k] show ?thesis by (simp add: shrink_previous_def Cons x wf)
      qed
    qed
  qed
qed

lemma shrunk_facts:
  assumes "seg_map_ok m"
  shows "seg_map_ok (shrunk p m)" "dom (shrunk p m) = dom m"
    "shrunk p m k = Some b \<Longrightarrow> k < p \<Longrightarrow> unat k + length b \<le> unat p"
    "seg_holds (shrunk p m) a v \<longleftrightarrow>
      (\<exists>k b. m k = Some b \<and> unat k \<le> a \<and> a < unat k + length b \<and> v = b ! (a - unat k)
         \<and> (k < p \<longrightarrow> a < unat p))"
proof -
  have short: "\<exists>c. m k = Some c \<and> length b \<le> length c" if "shrunk p m k = Some b" for k b
    using that by (auto simp: shrunk_def split: if_splits)
  show "seg_map_ok (shrunk p m)"
    unfolding seg_map_ok_def
  proof (intro conjI allI impI)
    fix k b k' b'
    assume k: "shrunk p m k = Some b"
    then obtain c where c: "m k = Some c" "length b \<le> length c" using short by blast
    then show "unat k + length b < 2 ^ 64" using seg_map_okD(1) [OF assms c(1)] by linarith
    assume k': "shrunk p m k' = Some b'" "k < k'"
    then obtain c' where "m k' = Some c'" using short by blast
    from seg_map_okD(2) [OF assms c(1) this k'(2)] c(2) show "unat k + length b \<le> unat k'" by linarith
  qed
  show "dom (shrunk p m) = dom m" by (auto simp: shrunk_def dom_def)
  show "unat k + length b \<le> unat p" if "shrunk p m k = Some b" "k < p"
    using that by (auto simp: shrunk_def word_less_nat_alt)
  show "seg_holds (shrunk p m) a v \<longleftrightarrow>
      (\<exists>k b. m k = Some b \<and> unat k \<le> a \<and> a < unat k + length b \<and> v = b ! (a - unat k)
         \<and> (k < p \<longrightarrow> a < unat p))" (is "?l \<longleftrightarrow> ?r")
  proof
    assume ?l
    then obtain k b where kb: "shrunk p m k = Some b" "unat k \<le> a" "a < unat k + length b" "v = b ! (a - unat k)"
      unfolding seg_holds_def by blast
    from kb(1) obtain c where c: "m k = Some c" "b = (if k < p then take (unat p - unat k) c else c)"
      by (auto simp: shrunk_def)
    have i: "a - unat k < length b" using kb(2,3) by linarith
    with c have "a - unat k < length c \<and> b ! (a - unat k) = c ! (a - unat k) \<and> (k < p \<longrightarrow> a - unat k < unat p - unat k)"
      by (auto split: if_splits)
    with kb c show ?r by (intro exI [of _ k] exI [of _ c]) auto
  next
    assume ?r
    then obtain k c where kc: "m k = Some c" "unat k \<le> a" "a < unat k + length c" "v = c ! (a - unat k)"
      "k < p \<longrightarrow> a < unat p" by blast
    let ?b = "if k < p then take (unat p - unat k) c else c"
    have "shrunk p m k = Some ?b" using kc(1) by (simp add: shrunk_def)
    moreover have "a < unat k + length ?b \<and> ?b ! (a - unat k) = c ! (a - unat k)"
    proof (cases "k < p")
      case True
      then have "a - unat k < unat p - unat k" using kc(2,5) by linarith
      with True kc(2,3) show ?thesis by (simp; linarith)
    next
      case False
      with kc(3) show ?thesis by simp
    qed
    ultimately show ?l unfolding seg_holds_def using kc(2,4) by metis
  qed
qed

lemma map_of_bt_append:
  assumes "bt_wf xs" "bt_wf new"
  shows "bt_wf (bt_append new xs) \<and> map_of (bt_append new xs) = map_of xs ++ map_of new"
  using assms
proof (induction new arbitrary: xs)
  case Nil
  then show ?case by (simp add: bt_append_def)
next
  case (Cons x new)
  obtain k v where x: "x = (k, v)" by fastforce
  have wf: "bt_wf new" "k \<notin> dom (map_of new)"
    using Cons(3) unfolding bt_wf_def x by (auto dest!: map_of_SomeD)
  have e: "bt_append (x # new) xs = bt_append new (bt_insert k v xs)" by (simp add: bt_append_def x)
  have m: "map_of xs ++ map_of (x # new) = (map_of xs)(k \<mapsto> v) ++ map_of new"
    using wf(2) by (auto simp: x map_add_def fun_eq_iff split: option.split)
  from Cons(1) [OF bt_wf_insert [OF Cons(2), of k v] wf(1)] show ?case
    unfolding e m map_of_bt_insert [OF Cons(2)] .
qed

text \<open>Writing succeeds, keeps the invariant, and puts the bytes in place.  A byte elsewhere is kept, unless
  it lies behind the written range in a chunk that starts before it: that tail is cut off.\<close>

definition written :: "Address \<Rightarrow> u8 list \<Rightarrow> Segments \<Rightarrow> Segments \<Rightarrow> bool" where
  "written p bs segs segs' \<longleftrightarrow> segs_ok segs' \<and>
    (\<forall>a v. seg_byte segs' a = Some v \<longleftrightarrow>
       (if unat p \<le> a \<and> a < unat p + length bs then v = bs ! (a - unat p)
        else \<exists>k b. map_of segs k = Some b \<and> unat k \<le> a \<and> a < unat k + length b \<and> v = b ! (a - unat k)
               \<and> (bs \<noteq> [] \<and> k < p \<longrightarrow> a < unat p)))"

lemma writtenD:
  assumes "written p bs segs segs'"
  shows "segs_ok segs'"
    "unat p \<le> a \<and> a < unat p + length bs \<Longrightarrow> seg_byte segs' a = Some (bs ! (a - unat p))"
    "\<not> (unat p \<le> a \<and> a < unat p + length bs) \<Longrightarrow> seg_byte segs' a = Some v \<longleftrightarrow>
       (\<exists>k b. map_of segs k = Some b \<and> unat k \<le> a \<and> a < unat k + length b \<and> v = b ! (a - unat k)
          \<and> (bs \<noteq> [] \<and> k < p \<longrightarrow> a < unat p))"
proof -
  have b: "\<And>a v. seg_byte segs' a = Some v \<longleftrightarrow>
       (if unat p \<le> a \<and> a < unat p + length bs then v = bs ! (a - unat p)
        else \<exists>k b. map_of segs k = Some b \<and> unat k \<le> a \<and> a < unat k + length b \<and> v = b ! (a - unat k)
               \<and> (bs \<noteq> [] \<and> k < p \<longrightarrow> a < unat p))"
    using assms unfolding written_def by (elim conjE allE)
  show "segs_ok segs'" using assms by (simp add: written_def)
  show "seg_byte segs' a = Some (bs ! (a - unat p))" if "unat p \<le> a \<and> a < unat p + length bs"
    unfolding b using that by (simp only: if_True simp_thms)
  show "seg_byte segs' a = Some v \<longleftrightarrow>
       (\<exists>k b. map_of segs k = Some b \<and> unat k \<le> a \<and> a < unat k + length b \<and> v = b ! (a - unat k)
          \<and> (bs \<noteq> [] \<and> k < p \<longrightarrow> a < unat p))" if "\<not> (unat p \<le> a \<and> a < unat p + length bs)"
    unfolding b using that by (simp only: if_False)
qed

lemma write_bytes_spec:
  assumes "segs_ok segs" "unat p + length bs < 2 ^ 64"
  shows "\<exists>segs'. (write_bytes p bs segs :: ('g LoadError, Segments) result) = Inr segs' \<and> written p bs segs segs'"
proof (cases "bs = []")
  case True
  with assms seg_byte_iff [OF assms(1)] show ?thesis
    by (auto simp: write_bytes_def seg_holds_def written_def)
next
  case False
  let ?s = "shrink_previous p segs" and ?m = "shrunk p (map_of segs)" and ?e = "p + of_nat (length bs)"
  have s: "bt_wf ?s" "map_of ?s = ?m" by (rule shrink_previous_map [OF assms(1)])+
  note sh = shrunk_facts [of "map_of segs" p, OF assms(1) [unfolded segs_ok_def, THEN conjunct2]]
  have len: "unat (of_nat (length bs) :: u64) = length bs"
    using assms(2) by (simp add: unsigned_of_nat take_bit_nat_eq_self)
  have e: "unat ?e = unat p + length bs"
    using assms(2) len by (subst unat_add_lem [THEN iffD1]) simp_all
  let ?ks = "map fst (filter (\<lambda>(k, _). p \<le> k \<and> k < ?e) ?s)"
  have ks: "set ?ks = {k \<in> dom ?m. p \<le> k \<and> unat k < unat p + length bs}"
    unfolding s(2) [symmetric] dom_map_of_conv_image_fst by (auto simp: word_less_nat_alt e)
  have inv: "split_inv (?m ++ map_of []) ?ks p bs"
    unfolding split_inv_def map_of.simps map_add_empty ks
  proof (intro conjI allI impI ballI)
    show "sorted_wrt (<) ?ks" using s(1) unfolding bt_wf_def by (simp add: sorted_wrt_map sorted_wrt_filter)
  qed (use False assms(2) sh(1,3) in auto)
  obtain new p' bs' where l: "split_loop ?ks p bs [] = (new, p', bs')" using prod_cases3 by blast
  have "bt_wf ([] :: Segments)" by (simp add: bt_wf_def)
  from split_loop_overwrites [OF inv this l]
  have r: "bs' \<noteq> []" "bt_wf new" "overwritten ?m p bs (put_last p' bs' (?m ++ map_of new))" by simp_all
  let ?a = "bt_append new ?s"
  have a: "bt_wf ?a" "map_of ?a = ?m ++ map_of new" using map_of_bt_append [OF s(1) r(2)] s(2) by simp_all
  let ?n = "?m ++ map_of new"
  define c where "c = (case ?n p' of
      Some c \<Rightarrow> if length c \<ge> length bs' then bs' @ drop (length bs') c else bs' | None \<Rightarrow> bs')"
  have ne: "\<not> ?e < p" using e by (simp add: word_less_nat_alt)
  have c: "write_bytes p bs segs = Inr (bt_insert p' c ?a)"
  proof (cases "?n p'")
    case None
    with ne l r(1) False show ?thesis by (simp add: write_bytes_def Let_def c_def a(2) del: map_add_None)
  next
    case (Some d)
    with ne l r(1) False show ?thesis by (simp add: write_bytes_def Let_def c_def a(2) del: map_add_Some_iff)
  qed
  let ?r = "bt_insert p' c ?a"
  have "map_of ?r = put_last p' bs' (?m ++ map_of new)" using a by (simp add: put_last_def c_def)
  with r(3) have ow: "overwritten ?m p bs (map_of ?r)" by simp
  then have ok: "segs_ok ?r" using bt_wf_insert [OF a(1)] by (simp add: segs_ok_def overwrittenD(1))
  have "seg_byte ?r a = Some v \<longleftrightarrow>
       (if unat p \<le> a \<and> a < unat p + length bs then v = bs ! (a - unat p)
        else \<exists>k b. map_of segs k = Some b \<and> unat k \<le> a \<and> a < unat k + length b \<and> v = b ! (a - unat k)
               \<and> (bs \<noteq> [] \<and> k < p \<longrightarrow> a < unat p))" for a v
    unfolding seg_byte_iff [OF ok] overwrittenD(2) [OF ow] sh(4) using False by (simp only: simp_thms)
  with ok have "written p bs segs ?r" unfolding written_def by blast
  with c show ?thesis by blast
qed

section \<open>Programs\<close>

record Program =
  prog_entrypoint :: Address
  prog_segments :: Segments

definition from_elf :: "'g Goblin \<Rightarrow> nat \<Rightarrow> u8 list \<Rightarrow> ('g LoadError, Program) result" where
  "from_elf g BYTES elf =
     (let start_if_reloc = start_of_main_memory BYTES in
      map_ok (\<lambda>(r, segments). \<lparr>prog_entrypoint = lr_entry r, prog_segments = segments\<rparr>)
        (load_elf g write_bytes start_if_reloc elf []))"

definition from_raw :: "nat \<Rightarrow> u8 list \<Rightarrow> Program" where
  "from_raw BYTES code =
     (let entrypoint = start_of_main_memory BYTES in
      \<lparr>prog_entrypoint = entrypoint, prog_segments = [(entrypoint, code)]\<rparr>)"

text \<open>\<^verbatim>\<open>parsed\<close> maps addresses to the text of the instructions; here to the instructions themselves.\<close>

fun parsed_block :: "Address \<Rightarrow> Instr list \<Rightarrow> (Address \<times> Instr) list \<Rightarrow> (Address \<times> Instr) list" where
  "parsed_block address [] parsed = parsed"
| "parsed_block address (instr # instrs) parsed =
     parsed_block (address + width_u64 (instr_width instr)) instrs (bt_insert address instr parsed)"

definition parsed :: "Program \<Rightarrow> (Address \<times> Instr) list" where
  "parsed prog = fold (\<lambda>(address, bytes) p. parsed_block address (parse_block bytes) p) (prog_segments prog) []"

lemma option_eqI: "(\<And>v. x = Some v \<longleftrightarrow> y = Some v) \<Longrightarrow> x = y"
  by (cases x; cases y) auto

lemma write_bytes_fresh:
  assumes "segs_ok segs" "unat p + length bs < 2 ^ 64"
    and "(write_bytes p bs segs :: ('g LoadError, Segments) result) = Inr segs'"
    and "\<forall>i < length bs. seg_byte segs (unat p + i) = None"
    and "a < unat p \<or> unat p + length bs \<le> a"
  shows "seg_byte segs' a = seg_byte segs a"
proof -
  have w: "written p bs segs segs'"
    using write_bytes_spec [where 'g = 'g, OF assms(1,2)] assms(3) by auto
  have out: "\<not> (unat p \<le> a \<and> a < unat p + length bs)" using assms(5) by linarith
  have keep: "bs \<noteq> [] \<and> k < p \<longrightarrow> a < unat p"
    if k: "map_of segs k = Some b" "unat k \<le> a" "a < unat k + length b" for k b
  proof (rule impI, rule ccontr)
    assume p: "bs \<noteq> [] \<and> k < p" and a: "\<not> a < unat p"
    then have "unat k \<le> unat p" "unat p < unat k + length b" using k(3) by (simp_all add: word_less_nat_alt)
    with k(1) have "seg_holds (map_of segs) (unat p) (b ! (unat p - unat k))" unfolding seg_holds_def by blast
    then have "seg_byte segs (unat p) = Some (b ! (unat p - unat k))" using seg_byte_iff [OF assms(1)] by blast
    with assms(4) [rule_format, of 0] p show False by simp
  qed
  have "seg_byte segs' a = Some v \<longleftrightarrow> seg_byte segs a = Some v" for v
    unfolding writtenD(3) [OF w out] seg_byte_iff [OF assms(1)] seg_holds_def
    using keep by (intro iff_exI) blast
  then show ?thesis by (rule option_eqI)
qed

interpretation segs: loader_memory "write_bytes :: ('g, Segments) writer" seg_byte segs_ok
proof
  fix m :: Segments and p :: u64 and bs :: "u8 list"
  assume a: "segs_ok m" "unat p + length bs < 2 ^ 64"
  from write_bytes_spec [where 'g = 'g, OF a]
  obtain m' where m': "(write_bytes p bs m :: ('g LoadError, Segments) result) = Inr m'" "written p bs m m'" by blast
  have "seg_byte m' (unat p + i) = Some (bs ! i)" if "i < length bs" for i
    using writtenD(2) [OF m'(2), of "unat p + i"] that by simp
  with m' writtenD(1) [OF m'(2)]
  show "\<exists>m'. (write_bytes p bs m :: ('g LoadError, Segments) result) = Inr m' \<and> segs_ok m'
      \<and> (\<forall>i < length bs. seg_byte m' (unat p + i) = Some (bs ! i))" by blast
qed (rule write_bytes_fresh)

text \<open>What a write leaves at each address, and what loading an executable gives.\<close>

lemma written_cases:
  assumes "written p bs segs segs'" "segs_ok segs"
  shows "segs_ok segs'
    \<and> (\<forall>i < length bs. seg_byte segs' (unat p + i) = Some (bs ! i))
    \<and> (\<forall>a < unat p. seg_byte segs' a = seg_byte segs a)
    \<and> (\<forall>a \<ge> unat p + length bs. seg_byte segs' a =
         (if bs \<noteq> [] \<and> (\<exists>k b. (k, b) \<in> set segs \<and> k < p \<and> a < unat k + length b) then None else seg_byte segs a))"
proof (intro conjI allI impI)
  note d = writtenD [OF assms(1)]
  show "segs_ok segs'" by (rule d(1))
  show "seg_byte segs' (unat p + i) = Some (bs ! i)" if "i < length bs" for i
    using d(2) [of "unat p + i"] that by simp
  have old: "seg_byte segs a = Some v \<longleftrightarrow> (\<exists>k b. map_of segs k = Some b \<and> unat k \<le> a \<and> a < unat k + length b \<and> v = b ! (a - unat k))"
    for a v using seg_byte_iff [OF assms(2)] by (auto simp: seg_holds_def)
  show "seg_byte segs' a = seg_byte segs a" if "a < unat p" for a
  proof (rule option_eqI)
    fix v
    have "\<not> (unat p \<le> a \<and> a < unat p + length bs)" using that by linarith
    from d(3) [OF this] that show "seg_byte segs' a = Some v \<longleftrightarrow> seg_byte segs a = Some v" unfolding old by blast
  qed
  fix a assume a: "unat p + length bs \<le> a"
  have new: "seg_byte segs' a = Some v \<longleftrightarrow> (\<exists>k b. map_of segs k = Some b \<and> unat k \<le> a \<and> a < unat k + length b
      \<and> v = b ! (a - unat k) \<and> \<not> (bs \<noteq> [] \<and> k < p))" for v
    using d(3) [of a v] a by auto
  show "seg_byte segs' a =
      (if bs \<noteq> [] \<and> (\<exists>k b. (k, b) \<in> set segs \<and> k < p \<and> a < unat k + length b) then None else seg_byte segs a)"
  proof (cases "bs \<noteq> [] \<and> (\<exists>k b. (k, b) \<in> set segs \<and> k < p \<and> a < unat k + length b)")
    case True
    then obtain k b where k: "bs \<noteq> []" "map_of segs k = Some b" "k < p" "a < unat k + length b"
      using assms(2) bt_wf_distinct by (fastforce simp: segs_ok_def)
    have "\<not> (map_of segs k' = Some b' \<and> unat k' \<le> a \<and> \<not> k' < p)" for k' b'
    proof
      assume h: "map_of segs k' = Some b' \<and> unat k' \<le> a \<and> \<not> k' < p"
      then have "k < k'" using k(3) by (auto simp: not_less intro: order.strict_trans2)
      with h k show False using seg_map_okD(2) [of "map_of segs" k b k' b'] assms(2) by (auto simp: segs_ok_def)
    qed
    then have "seg_byte segs' a = Some v \<longleftrightarrow> False" for v unfolding new using k(1) by blast
    then have "seg_byte segs' a = None" by (cases "seg_byte segs' a") blast+
    with True show ?thesis by (simp only: if_True simp_thms)
  next
    case False
    then have "\<not> (bs \<noteq> [] \<and> k < p)" if "map_of segs k = Some b" "a < unat k + length b" for k b
      using that map_of_SomeD by fast
    then have "seg_byte segs' a = Some v \<longleftrightarrow> seg_byte segs a = Some v" for v unfolding new old by blast
    then have "seg_byte segs' a = seg_byte segs a" by (rule option_eqI)
    with False show ?thesis by (simp only: if_False)
  qed
qed
lemma from_elf_image:
  fixes g :: "'g Goblin"
  assumes "gb_parse g contents = Inr elf" "elf_e_type elf = gb_ET_EXEC g"
    and "\<forall>s \<in> set (loadable_segments g elf). segment_wf contents (ph_paddr s) s"
    and "sorted_wrt (apart_segments contents ph_paddr) (loadable_segments g elf)"
  shows "\<exists>program. from_elf g BYTES contents = Inr program \<and> prog_entrypoint program = elf_entry elf
    \<and> segs_ok (prog_segments program)
    \<and> seg_byte (prog_segments program) = image_at contents ph_paddr (loadable_segments g elf)"
proof -
  have ok: "segs_ok []" by (simp add: segs_ok_def bt_wf_def seg_map_ok_def)
  have none: "seg_byte [] a = None" for a by (simp add: seg_byte_def)
  obtain l m where l: "(load_segments write_bytes contents ph_paddr (loadable_segments g elf) 0 []
      :: ('g LoadError, u64 \<times> Segments) result) = Inr (l, m)" "segs_ok m"
    "\<forall>a. seg_byte m a = (case image_at contents ph_paddr (loadable_segments g elf) a of Some v \<Rightarrow> Some v | None \<Rightarrow> seg_byte [] a)"
    using segs.load_segments_image [where 'g = 'g and l = 0, OF ok assms(3,4)] none by (auto simp: segs.fresh_def)
  have "seg_byte m = image_at contents ph_paddr (loadable_segments g elf)"
    by (rule ext) (simp add: l(3) none split: option.split)
  with l assms(1,2) show ?thesis by (simp add: from_elf_def load_elf_def load_elf_nonreloc_def map_ok_def)
qed

end
