(* ===== verification/Boot.thy ===== *)
theory Boot
  imports Machine_Invariant Program
begin

text \<open>
  Device trees (devicetree.rs) and booting a program (\<^verbatim>\<open>setup_boot\<close> of machine_state.rs).  A device tree is
  built by the third-party crate \<^verbatim>\<open>vm_fdt\<close>: \<^verbatim>\<open>generate_custom\<close> is the sequence of calls it makes on the
  writer, and the parameter \<^verbatim>\<open>fdt\<close> is what the crate makes of a sequence of calls, an error or the bytes.
\<close>

section \<open>Device trees\<close>

record InitialRamDisk =
  rd_start :: u64
  rd_length :: u64

datatype FdtCall =
    FdtBeginNode string
  | FdtEndNode
  | FdtU32 string u32
  | FdtU64 string u64
  | FdtArrayU64 string "u64 list"
  | FdtString string string
  | FdtPhandle u32

text \<open>The macro \<^verbatim>\<open>node!\<close>, and its form with an address, which is printed in hexadecimal.\<close>

definition node :: "string \<Rightarrow> FdtCall list \<Rightarrow> FdtCall list" where
  "node name inner = [FdtBeginNode name] @ inner @ [FdtEndNode]"

definition hex_digit :: "nat \<Rightarrow> char" where
  "hex_digit d = ''0123456789abcdef'' ! d"

fun hex :: "nat \<Rightarrow> string" where
  "hex n = (if n < 16 then [hex_digit n] else hex (n div 16) @ [hex_digit (n mod 16)])"

declare hex.simps [simp del]

definition node_at :: "string \<Rightarrow> u64 \<Rightarrow> FdtCall list \<Rightarrow> FdtCall list" where
  "node_at name addr inner = node (name @ ''@'' @ hex (unat addr)) inner"

definition generate_calls :: "u64 \<Rightarrow> u64 \<Rightarrow> InitialRamDisk option \<Rightarrow> FdtCall list" where
  "generate_calls main_memory_start main_memory_length initrd =
     node ''''
       ([FdtU32 ''#address-cells'' 2,
         FdtU32 ''#size-cells'' 2,
         FdtString ''compatible'' ''riscv-virtio'',
         FdtString ''model'' ''riscv-virtio,qemu''] @
        node ''chosen''
          (case initrd of
             Some initrd \<Rightarrow>
               [FdtU64 ''linux,initrd-end'' (rd_start initrd + rd_length initrd),
                FdtU64 ''linux,initrd-start'' (rd_start initrd)]
           | None \<Rightarrow> []) @
        node_at ''memory'' main_memory_start
          [FdtString ''device_type'' ''memory'',
           FdtArrayU64 ''reg'' [main_memory_start, main_memory_length]] @
        node ''cpus''
          ([FdtU32 ''#address-cells'' 1,
            FdtU32 ''#size-cells'' 0,
            FdtU32 ''timebase-frequency'' 10000000] @
           node_at ''cpu'' 0
             [FdtPhandle 1,
              FdtString ''device_type'' ''cpu'',
              FdtU32 ''reg'' 0,
              FdtString ''status'' ''okay'',
              FdtString ''compatible'' ''riscv'']))"

type_synonym 'v Fdt = "FdtCall list \<Rightarrow> ('v, u8 list) result"

definition generate_custom :: "'v Fdt \<Rightarrow> u64 \<Rightarrow> u64 \<Rightarrow> InitialRamDisk option \<Rightarrow> ('v, u8 list) result" where
  "generate_custom fdt main_memory_start main_memory_length initrd =
     fdt (generate_calls main_memory_start main_memory_length initrd)"

definition generate :: "'v Fdt \<Rightarrow> nat \<Rightarrow> InitialRamDisk option \<Rightarrow> ('v, u8 list) result" where
  "generate fdt BYTES initrd =
     (let main_memory_start = start_of_main_memory BYTES
      in generate_custom fdt main_memory_start (of_nat BYTES) initrd)"

section \<open>Booting\<close>

datatype 'v MachineError = AddressError OutOfBounds | DeviceTreeError 'v

type_synonym ('v, 'a) boot = "MachineCoreState \<Rightarrow> ('v MachineError, 'a) result \<times> MachineCoreState"

definition boot_write_all :: "Address \<Rightarrow> u8 list \<Rightarrow> ('v, unit) boot" where
  "boot_write_all addr bytes s =
     (case bus_write_all (core_bus s) addr bytes of
        Inl e \<Rightarrow> (Inl (AddressError e), s)
      | Inr b \<Rightarrow> (Inr (), s\<lparr>core_bus := b\<rparr>))"

fun write_segments :: "Segments \<Rightarrow> ('v, unit) boot" where
  "write_segments [] s = (Inr (), s)"
| "write_segments ((addr, data) # segments) s =
     and_then (boot_write_all addr data) (\<lambda>_. write_segments segments) s"

definition segments_end :: "nat \<Rightarrow> Segments \<Rightarrow> Address" where
  "segments_end BYTES segments =
     (case map (\<lambda>(base, data). base + of_nat (length data)) segments of
        [] \<Rightarrow> start_of_main_memory BYTES
      | x # xs \<Rightarrow> fold max xs x)"

definition write_initrd :: "Address \<Rightarrow> u8 list option \<Rightarrow> ('v, Address \<times> InitialRamDisk option) boot" where
  "write_initrd initrd_addr initrd =
     (case initrd of
        Some initrd \<Rightarrow>
          and_then (boot_write_all initrd_addr initrd) (\<lambda>_ s.
            let length = of_nat (length initrd);
                dtb_options = \<lparr>rd_start = initrd_addr, rd_length = length\<rparr>;
                dtb_addr = initrd_addr + length
            in (Inr (dtb_addr, Some dtb_options), s))
      | None \<Rightarrow> (\<lambda>s. (Inr (initrd_addr, None), s)))"

text \<open>The last assignments of \<^verbatim>\<open>setup_boot\<close>: the address of the device tree, the mode, and the delegation of
  all traps.\<close>

definition boot_hart :: "Address \<Rightarrow> Mode \<Rightarrow> MachineCoreState \<Rightarrow> MachineCoreState" where
  "boot_hart dtb_addr mode s =
     (let s = core_write_x reg_a1 dtb_addr s;
          h = (core_hart s)\<lparr>hart_mode := mode\<rparr>;
          h = h\<lparr>hart_csrs := csr_write (hart_csrs h) CSR_medeleg (NOT 0)\<rparr>;
          h = h\<lparr>hart_csrs := csr_write (hart_csrs h) CSR_mideleg (NOT 0)\<rparr>
      in s\<lparr>core_hart := h\<rparr>)"

definition core_setup_boot :: "'v Fdt \<Rightarrow> Program \<Rightarrow> u8 list option \<Rightarrow> Mode \<Rightarrow> ('v, unit) boot" where
  "core_setup_boot fdt program initrd mode s =
     (let BYTES = bus_BYTES (core_bus s);
          s = s\<lparr>core_hart := hart_reset (prog_entrypoint program) (core_hart s)\<rparr>
      in and_then (write_segments (prog_segments program)) (\<lambda>_ s.
           let s = core_write_x reg_a0 0 s;
               initrd_addr = segments_end BYTES (prog_segments program)
           in and_then (write_initrd initrd_addr initrd) (\<lambda>(dtb_addr, initrd) s.
                case generate fdt BYTES initrd of
                  Inl e \<Rightarrow> (Inl (DeviceTreeError e), s)
                | Inr tree \<Rightarrow>
                    and_then (boot_write_all dtb_addr tree) (\<lambda>_ s.
                      (Inr (), boot_hart dtb_addr mode s)) s) s) s)"

definition setup_boot ::
  "'v Fdt \<Rightarrow> Program \<Rightarrow> u8 list option \<Rightarrow> Mode \<Rightarrow> MachineState \<Rightarrow> ('v MachineError, unit) result \<times> MachineState" where
  "setup_boot fdt program initrd mode s =
     (let (r, core) = core_setup_boot fdt program initrd mode (ms_core s) in (r, s\<lparr>ms_core := core\<rparr>))"

section \<open>Contents of memory\<close>

definition byte_at :: "Bus \<Rightarrow> nat \<Rightarrow> u8 option" where
  "byte_at b a = (if DEV \<le> a \<and> a < DEV + bus_BYTES b then Some (mm_data (bus_memory b) (a - DEV)) else None)"

lemma byte_at_read: "bus_wf b \<Longrightarrow> bus_read b x = Inr v \<longleftrightarrow> byte_at b (unat x) = Some (v :: u8)"
  by (auto simp: bus_read_eq in_memory_def byte_at_def elem_size_def dyn_region_byte)

lemma bus_write_all_bytes:
  fixes vs :: "u8 list"
  assumes "bus_wf b" "bus_write_all b addr vs = Inr b'"
  shows "bus_BYTES b' = bus_BYTES b" "unat addr + length vs \<le> DEV + bus_BYTES b"
    "byte_at b' a =
      (if unat addr \<le> a \<and> a < unat addr + length vs then Some (vs ! (a - unat addr)) else byte_at b a)"
proof -
  obtain la m' where l: "locate (bus_BYTES b) addr = (SpaceMainMemory, la)"
    "mm_write_all (bus_memory b) la vs = Inr m'" "b' = b\<lparr>bus_memory := m'\<rparr>"
    using assms(2)
    by (auto simp: bus_write_all_def Let_def elem_size_def devices_write_all_def map_ok_def
        split: sum.splits prod.splits if_splits AddressSpace.splits)
  have la: "DEV \<le> unat addr" "unat la = unat addr - DEV"
    using l(1) assms(1) mem_local_addr by (auto simp: locate_eq bus_wf_def split: if_splits)
  have m': "unat la + length vs \<le> bus_BYTES b"
    "m' = (bus_memory b)\<lparr>mm_data := dyn_region_write_all vs (mm_data (bus_memory b)) (unat la)\<rparr>"
    using l(2) by (auto simp: mm_write_all_def elem_size_def split: if_splits)
  show "bus_BYTES b' = bus_BYTES b" using m'(2) l(3) by simp
  show fit: "unat addr + length vs \<le> DEV + bus_BYTES b" using m'(1) la by linarith
  show "byte_at b' a =
      (if unat addr \<le> a \<and> a < unat addr + length vs then Some (vs ! (a - unat addr)) else byte_at b a)"
  proof (cases "unat addr \<le> a \<and> a < unat addr + length vs")
    case True
    then have i: "a - DEV = unat la + (a - unat addr)" "a - unat addr < length vs" "DEV \<le> a \<and> a < DEV + bus_BYTES b"
      using la fit by linarith+
    have "dyn_region_write_all vs (mm_data (bus_memory b)) (unat la) (a - DEV) = vs ! (a - unat addr)"
      unfolding i(1) by (rule dyn_region_write_all_bytes [OF i(2)])
    then show ?thesis using True i(3) l(3) m'(2) by (simp add: byte_at_def)
  next
    case False
    have "dyn_region_write_all vs (mm_data (bus_memory b)) (unat la) (a - DEV) = mm_data (bus_memory b) (a - DEV)"
      if "DEV \<le> a"
      by (rule dyn_region_write_all_outside) (use that False la in \<open>simp add: elem_size_def; linarith\<close>)
    then show ?thesis using False l(3) m'(2) by (simp only: if_False) (simp add: byte_at_def)
  qed
qed

lemma bus_write_all_BYTES: "bus_write_all b addr vs = Inr b' \<Longrightarrow> bus_BYTES b' = bus_BYTES b"
  using mm_write_all_BYTES
  by (auto simp: bus_write_all_def Let_def map_ok_def split: sum.splits prod.splits if_splits AddressSpace.splits)

lemma bus_write_all_fits:
  fixes vs :: "u8 list"
  assumes "bus_wf b" "DEV \<le> unat addr" "unat addr + max 1 (length vs) \<le> DEV + bus_BYTES b"
  shows "\<exists>b'. bus_write_all b addr vs = Inr b'"
proof -
  have n: "bus_BYTES b < 2 ^ 63" using assms(1) by (simp add: bus_wf_def)
  have "unat addr + (length vs - 1) < 2 ^ 64" using assms(3) n by simp
  then have e: "unat (addr + of_nat (length vs - 1)) = unat addr + (length vs - 1)"
    by (simp add: unat_word_ariths unsigned_of_nat take_bit_nat_eq_self)
  have l: "locate (bus_BYTES b) addr = (SpaceMainMemory, addr - DEVICES_ADDRESS_SPACE_LENGTH)"
    "fst (locate (bus_BYTES b) (addr + of_nat (length vs - 1))) = SpaceMainMemory"
    using assms(2,3) e by (simp_all add: locate_eq [OF n])
  have "unat (addr - DEVICES_ADDRESS_SPACE_LENGTH) + length vs \<le> bus_BYTES b"
    using assms(2,3) mem_local_addr [OF assms(2)] by linarith
  then have m: "\<exists>m'. mm_write_all (bus_memory b) (addr - DEVICES_ADDRESS_SPACE_LENGTH) vs = Inr m'"
    by (simp add: mm_write_all_def elem_size_def)
  show ?thesis
    using m l(2) unfolding bus_write_all_def Let_def l(1)
    by (cases "locate (bus_BYTES b) (addr + of_nat (length vs - 1))") (auto simp: elem_size_def map_ok_def)
qed

lemma segs_ok_Cons:
  assumes "segs_ok ((k, b) # segs)"
  shows "segs_ok segs" "unat k + length b < 2 ^ 64" "(k', b') \<in> set segs \<Longrightarrow> unat k + length b \<le> unat k'"
proof -
  have wf: "bt_wf ((k, b) # segs)" and ok: "seg_map_ok (map_of ((k, b) # segs))"
    using assms by (simp_all add: segs_ok_def)
  have wf': "bt_wf segs" and lt: "\<forall>x \<in> set segs. k < fst x" using wf by (auto simp: bt_wf_def)
  have sub: "map_of ((k, b) # segs) j = Some c" if "map_of segs j = Some c" for j c
    using that lt map_of_SomeD [OF that] by force
  have "seg_map_ok (map_of segs)"
    unfolding seg_map_ok_def using sub seg_map_okD [OF ok] by blast
  with wf' show "segs_ok segs" by (simp add: segs_ok_def)
  show "unat k + length b < 2 ^ 64" by (rule seg_map_okD(1) [OF ok]) simp
  assume "(k', b') \<in> set segs"
  moreover from this have "map_of segs k' = Some b'" using bt_wf_distinct [OF wf'] by simp
  ultimately show "unat k + length b \<le> unat k'"
    using seg_map_okD(2) [OF ok, of k b k' b'] sub lt by force
qed

lemma boot_write_all_ok:
  assumes "boot_write_all addr data s = (Inr (), s')" "bus_wf (core_bus s)"
  shows "core_hart s' = core_hart s" "core_tcache s' = core_tcache s" "bus_BYTES (core_bus s') = bus_BYTES (core_bus s)"
    "bus_wf (core_bus s')" "unat addr + length data \<le> DEV + bus_BYTES (core_bus s)"
    "byte_at (core_bus s') a = (if unat addr \<le> a \<and> a < unat addr + length data
       then Some (data ! (a - unat addr)) else byte_at (core_bus s) a)"
proof -
  obtain b where b: "bus_write_all (core_bus s) addr data = Inr b" "s' = s\<lparr>core_bus := b\<rparr>"
    using assms(1) by (auto simp: boot_write_all_def split: sum.splits)
  note w = bus_write_all_bytes [OF assms(2) b(1)]
  show "core_hart s' = core_hart s" "core_tcache s' = core_tcache s" "bus_BYTES (core_bus s') = bus_BYTES (core_bus s)"
    "bus_wf (core_bus s')" "unat addr + length data \<le> DEV + bus_BYTES (core_bus s)"
    using b(2) w(1,2) assms(2) by (simp_all add: bus_wf_def)
  show "byte_at (core_bus s') a = (if unat addr \<le> a \<and> a < unat addr + length data
       then Some (data ! (a - unat addr)) else byte_at (core_bus s) a)"
    using w(3) b(2) by simp
qed

lemma boot_write_all_fits:
  assumes "bus_wf (core_bus s)" "DEV \<le> unat addr" "unat addr + max 1 (length bs) \<le> DEV + bus_BYTES (core_bus s)"
  shows "\<exists>b. boot_write_all addr bs s = (Inr (), s\<lparr>core_bus := b\<rparr>) \<and> bus_BYTES b = bus_BYTES (core_bus s)"
proof -
  obtain b where "bus_write_all (core_bus s) addr bs = Inr b" using bus_write_all_fits [OF assms] by blast
  with bus_write_all_BYTES [OF this] show ?thesis by (intro exI [of _ b]) (simp add: boot_write_all_def)
qed

lemma seg_byte_Cons:
  "seg_byte ((k, b) # segs) a =
   (if unat k \<le> a \<and> a < unat k + length b then Some (b ! (a - unat k)) else seg_byte segs a)"
  by (simp add: seg_byte_def)

lemma seg_byte_below:
  assumes "segs_ok ((k, b) # segs)" "a < unat k + length b"
  shows "seg_byte segs a = None"
proof -
  have "\<not> (unat j \<le> a \<and> a < unat j + length c)" if "(j, c) \<in> set segs" for j c
    using segs_ok_Cons(3) [OF assms(1) that] assms(2) by linarith
  then have "find (\<lambda>(k, b). unat k \<le> a \<and> a < unat k + length b) segs = None"
    by (auto simp: find_None_iff)
  then show ?thesis by (simp add: seg_byte_def)
qed

text \<open>Writing a program puts its bytes into memory and changes nothing else.\<close>

lemma write_segments_ok:
  assumes "(write_segments segs s :: ('v MachineError, unit) result \<times> MachineCoreState) = (Inr (), s')"
    and "bus_wf (core_bus s)" "segs_ok segs"
  shows "core_hart s' = core_hart s \<and> core_tcache s' = core_tcache s
    \<and> bus_BYTES (core_bus s') = bus_BYTES (core_bus s) \<and> bus_wf (core_bus s')
    \<and> (\<forall>a. byte_at (core_bus s') a = (case seg_byte segs a of Some v \<Rightarrow> Some v | None \<Rightarrow> byte_at (core_bus s) a))"
  using assms
proof (induction segs arbitrary: s)
  case Nil
  then show ?case by (simp add: seg_byte_def)
next
  case (Cons x segs)
  obtain k b where x: "x = (k, b)" by fastforce
  from Cons(2) obtain s1 where
    s1: "(boot_write_all k b s :: ('v MachineError, unit) result \<times> MachineCoreState) = (Inr (), s1)"
      "(write_segments segs s1 :: ('v MachineError, unit) result \<times> MachineCoreState) = (Inr (), s')"
    by (auto simp: x and_then_ok_iff)
  note w = boot_write_all_ok [OF s1(1) Cons(3)]
  note ih = Cons(1) [OF s1(2) w(4) segs_ok_Cons(1) [OF Cons(4) [unfolded x]]]
  have "byte_at (core_bus s') a = (case seg_byte (x # segs) a of Some v \<Rightarrow> Some v | None \<Rightarrow> byte_at (core_bus s) a)" for a
  proof (cases "unat k \<le> a \<and> a < unat k + length b")
    case True
    then have "seg_byte segs a = None" using seg_byte_below [OF Cons(4) [unfolded x]] by blast
    with ih True show ?thesis unfolding x seg_byte_Cons w(6) by simp
  next
    case False
    from ih have "byte_at (core_bus s') a = (case seg_byte segs a of Some v \<Rightarrow> Some v | None \<Rightarrow> byte_at (core_bus s1) a)"
      by blast
    with False show ?thesis unfolding x seg_byte_Cons w(6) by (simp only: if_False)
  qed
  with ih w(1,2,3) show ?case by simp
qed

section \<open>The state after booting\<close>

lemma fold_max_ge: "(x :: 'a::linorder) \<le> fold max ys x" "y \<in> set ys \<Longrightarrow> y \<le> fold max ys x"
  by (induction ys arbitrary: x) (auto intro: order_trans [OF max.cobounded1] order_trans [OF max.cobounded2])

lemma segments_end_ge:
  assumes "segs_ok segs" "(k, b) \<in> set segs"
  shows "unat k + length b \<le> unat (segments_end BYTES segs)"
proof -
  have "map_of segs k = Some b" "seg_map_ok (map_of segs)"
    using assms bt_wf_distinct [of segs] by (auto simp: segs_ok_def)
  then have fit: "unat k + length b < 2 ^ 64" using seg_map_okD(1) by blast
  then have "unat (of_nat (length b) :: u64) = length b" by (simp add: unsigned_of_nat take_bit_nat_eq_self)
  then have u: "unat (k + of_nat (length b)) = unat k + length b"
    using fit by (subst unat_add_lem [THEN iffD1]) simp_all
  obtain x xs where xs: "map (\<lambda>(base, data). base + of_nat (length data)) segs = x # xs"
    using assms(2) by (cases segs) auto
  have "k + of_nat (length b) \<in> set (x # xs)"
    unfolding xs [symmetric] using assms(2) by force
  then have "k + of_nat (length b) \<le> segments_end BYTES segs"
    unfolding segments_end_def xs using fold_max_ge by auto
  then show ?thesis by (simp add: word_le_nat_alt u)
qed

lemma seg_byte_before_end:
  assumes "segs_ok segs" "seg_byte segs a = Some v"
  shows "a < unat (segments_end BYTES segs)"
proof -
  have "seg_holds (map_of segs) a v" using seg_byte_iff [OF assms(1)] assms(2) by blast
  then obtain k b where "map_of segs k = Some b" "a < unat k + length b" unfolding seg_holds_def by blast
  with segments_end_ge [OF assms(1) map_of_SomeD] show ?thesis by (meson order_less_le_trans)
qed

definition ramdisk_end :: "Address \<Rightarrow> u8 list option \<Rightarrow> Address" where
  "ramdisk_end addr initrd = (case initrd of Some bytes \<Rightarrow> addr + of_nat (length bytes) | None \<Rightarrow> addr)"

definition ramdisk_info :: "Address \<Rightarrow> u8 list option \<Rightarrow> InitialRamDisk option" where
  "ramdisk_info addr initrd = map_option (\<lambda>bytes. \<lparr>rd_start = addr, rd_length = of_nat (length bytes)\<rparr>) initrd"

lemma write_initrd_ok:
  assumes "(write_initrd addr initrd s :: ('v MachineError, _) result \<times> MachineCoreState) = (Inr (dtb, rd), s')"
    "bus_wf (core_bus s)"
  shows "core_hart s' = core_hart s \<and> core_tcache s' = core_tcache s
    \<and> bus_BYTES (core_bus s') = bus_BYTES (core_bus s) \<and> bus_wf (core_bus s')
    \<and> dtb = ramdisk_end addr initrd \<and> rd = ramdisk_info addr initrd
    \<and> (case initrd of None \<Rightarrow> s' = s
       | Some bytes \<Rightarrow> unat dtb = unat addr + length bytes \<and>
         (\<forall>a. byte_at (core_bus s') a = (if unat addr \<le> a \<and> a < unat addr + length bytes
            then Some (bytes ! (a - unat addr)) else byte_at (core_bus s) a)))"
proof (cases initrd)
  case None
  with assms show ?thesis by (auto simp: write_initrd_def ramdisk_end_def ramdisk_info_def)
next
  case (Some bytes)
  with assms(1) have w: "(boot_write_all addr bytes s :: ('v MachineError, unit) result \<times> MachineCoreState) = (Inr (), s')"
    and dtb: "dtb = addr + of_nat (length bytes)" "rd = ramdisk_info addr initrd"
    by (auto simp: write_initrd_def ramdisk_info_def Let_def and_then_ok_iff)
  note w = boot_write_all_ok [OF w assms(2)]
  have fit: "unat addr + length bytes < 2 ^ 64" using w(5) assms(2) by (simp add: bus_wf_def)
  then have "unat (of_nat (length bytes) :: u64) = length bytes" by (simp add: unsigned_of_nat take_bit_nat_eq_self)
  then have "unat dtb = unat addr + length bytes"
    using fit unfolding dtb(1) by (subst unat_add_lem [THEN iffD1]) simp_all
  with w dtb Some show ?thesis by (simp add: ramdisk_end_def)
qed

text \<open>The memory after booting, by the programs in it.\<close>

definition booted :: "'v Fdt \<Rightarrow> Program \<Rightarrow> u8 list option \<Rightarrow> nat \<Rightarrow> Bus \<Rightarrow> bool" where
  "booted fdt program initrd BYTES b \<longleftrightarrow>
     (let ramdisk = segments_end BYTES (prog_segments program) in
      (\<forall>a v. seg_byte (prog_segments program) a = Some v \<longrightarrow> byte_at b a = Some v)
      \<and> (\<forall>bytes i. initrd = Some bytes \<longrightarrow> i < length bytes \<longrightarrow> byte_at b (unat ramdisk + i) = Some (bytes ! i))
      \<and> (\<exists>tree. generate fdt BYTES (ramdisk_info ramdisk initrd) = Inr tree
           \<and> (\<forall>i < length tree. byte_at b (unat (ramdisk_end ramdisk initrd) + i) = Some (tree ! i))))"

lemma core_setup_boot_ok:
  assumes "core_setup_boot (fdt :: 'v Fdt) program initrd mode s = (Inr (), s')"
    and "bus_wf (core_bus s)" "segs_ok (prog_segments program)"
  shows "hart_pc (core_hart s') = prog_entrypoint program \<and> hart_mode (core_hart s') = mode
    \<and> xr_read (core_xregs s') reg_a0 = 0
    \<and> xr_read (core_xregs s') reg_a1
      = ramdisk_end (segments_end (bus_BYTES (core_bus s)) (prog_segments program)) initrd
    \<and> booted fdt program initrd (bus_BYTES (core_bus s)) (core_bus s')"
proof -
  let ?n = "bus_BYTES (core_bus s)" and ?segs = "prog_segments program"
  let ?fin = "segments_end ?n ?segs"
  let ?s0 = "s\<lparr>core_hart := hart_reset (prog_entrypoint program) (core_hart s)\<rparr>"
  from assms(1) obtain s1 where
    s1: "(write_segments ?segs ?s0 :: ('v MachineError, unit) result \<times> MachineCoreState) = (Inr (), s1)"
    and r: "and_then (write_initrd ?fin initrd) (\<lambda>(dtb_addr, initrd) s.
              case generate fdt ?n initrd of
                Inl e \<Rightarrow> (Inl (DeviceTreeError e), s)
              | Inr tree \<Rightarrow> and_then (boot_write_all dtb_addr tree) (\<lambda>_ s. (Inr (), boot_hart dtb_addr mode s)) s)
            (core_write_x reg_a0 0 s1) = (Inr (), s')"
    unfolding core_setup_boot_def by (auto simp: Let_def and_then_ok_iff)
  from r obtain dtb rd s2 where
    s2: "(write_initrd ?fin initrd (core_write_x reg_a0 0 s1) :: ('v MachineError, _) result \<times> MachineCoreState)
      = (Inr (dtb, rd), s2)"
    and r: "(case generate fdt ?n rd of
              Inl e \<Rightarrow> (Inl (DeviceTreeError e), s2)
            | Inr tree \<Rightarrow> and_then (boot_write_all dtb tree) (\<lambda>_ s. (Inr (), boot_hart dtb mode s)) s2) = (Inr (), s')"
    unfolding and_then_ok_iff [of "write_initrd ?fin initrd"] by (auto simp only: split_paired_Ex prod.case)
  from r obtain tree where g: "generate fdt ?n rd = Inr tree" by (auto split: sum.splits)
  from r obtain s3 where
    s3: "(boot_write_all dtb tree s2 :: ('v MachineError, unit) result \<times> MachineCoreState) = (Inr (), s3)"
    and s': "s' = boot_hart dtb mode s3"
    unfolding g by (auto simp: and_then_ok_iff)
  have w1: "core_hart s1 = core_hart ?s0" "bus_wf (core_bus s1)"
    "\<And>a v. seg_byte ?segs a = Some v \<Longrightarrow> byte_at (core_bus s1) a = Some v"
    using write_segments_ok [OF s1 _ assms(3)] assms(2) by simp_all
  have w2: "core_hart s2 = core_hart (core_write_x reg_a0 0 s1)" "bus_wf (core_bus s2)" "dtb = ramdisk_end ?fin initrd"
    "unat ?fin \<le> unat dtb" "\<And>a. a < unat ?fin \<Longrightarrow> byte_at (core_bus s2) a = byte_at (core_bus s1) a"
    "\<And>bytes i. initrd = Some bytes \<Longrightarrow> i < length bytes \<Longrightarrow> byte_at (core_bus s2) (unat ?fin + i) = Some (bytes ! i)"
    "\<And>bytes. initrd = Some bytes \<Longrightarrow> unat dtb = unat ?fin + length bytes" "rd = ramdisk_info ?fin initrd"
    using write_initrd_ok [OF s2] w1(2) by (cases initrd; simp add: ramdisk_end_def)+
  have w3: "core_hart s3 = core_hart s2" "\<And>a. a < unat dtb \<Longrightarrow> byte_at (core_bus s3) a = byte_at (core_bus s2) a"
    "\<And>i. i < length tree \<Longrightarrow> byte_at (core_bus s3) (unat dtb + i) = Some (tree ! i)"
    using boot_write_all_ok [OF s3 w2(2)] by simp_all
  have bus: "core_bus s' = core_bus s3" by (simp add: s' boot_hart_def Let_def)
  have "byte_at (core_bus s') a = Some v" if "seg_byte ?segs a = Some v" for a v
    using w1(3) [OF that] w2(4,5) w3(2) seg_byte_before_end [OF assms(3) that, of ?n] bus by (simp add: order_less_le_trans)
  moreover have "byte_at (core_bus s') (unat ?fin + i) = Some (bytes ! i)" if "initrd = Some bytes" "i < length bytes" for bytes i
    using w2(6,7) [OF that(1)] that(2) w3(2) bus by simp
  moreover have "hart_pc (core_hart s') = prog_entrypoint program" "hart_mode (core_hart s') = mode"
    "xr_read (core_xregs s') reg_a0 = 0" "xr_read (core_xregs s') reg_a1 = dtb"
    by (simp_all add: s' boot_hart_def Let_def w3(1) w2(1) w1(1) core_write_x_def hart_reset_def xr.get_put is_zero_def)
  moreover have "\<exists>tree. generate fdt ?n (ramdisk_info ?fin initrd) = Inr tree
      \<and> (\<forall>i < length tree. byte_at (core_bus s') (unat (ramdisk_end ?fin initrd) + i) = Some (tree ! i))"
    using g w2(3,8) w3(3) bus by auto
  ultimately show ?thesis using w2(3) by (simp add: booted_def Let_def)
qed

section \<open>The invariant\<close>

text \<open>Booting keeps the invariant of the machine, also where it fails, for a program with an even entry point.\<close>

definition keeps_core :: "(MachineCoreState \<Rightarrow> ('e, 'a) result \<times> MachineCoreState) \<Rightarrow> bool" where
  "keeps_core m \<longleftrightarrow> (\<forall>s. core_inv s \<longrightarrow> core_inv (snd (m s)))"

lemma keeps_coreD: "keeps_core m \<Longrightarrow> core_inv s \<Longrightarrow> m s = (r, s') \<Longrightarrow> core_inv s'"
  by (metis keeps_core_def snd_conv)

lemma keeps_core_bind:
  assumes "keeps_core m" "\<And>a. keeps_core (f a)"
  shows "keeps_core (and_then m f)"
  unfolding keeps_core_def
proof (intro allI impI)
  fix s assume "core_inv s"
  obtain r s1 where m: "m s = (r, s1)" by fastforce
  then have "core_inv s1" using keeps_coreD [OF assms(1) \<open>core_inv s\<close>] by blast
  with m assms(2) show "core_inv (snd (and_then m f s))" by (cases r) (auto simp: and_then_def keeps_core_def)
qed

lemma core_inv_simps [simp]:
  "core_inv (s\<lparr>core_bus := b\<rparr>) = core_inv s" "core_inv (core_write_x rd v s) = core_inv s"
  by (simp_all add: core_inv_def core_write_x_def)

lemma keeps_core_return: "keeps_core (\<lambda>s. (r, s))"
  by (simp add: keeps_core_def)

lemma keeps_core_write_all: "keeps_core (boot_write_all addr bytes)"
  by (simp add: keeps_core_def boot_write_all_def split: sum.split)

lemma keeps_core_after: "keeps_core m \<Longrightarrow> keeps_core (\<lambda>s. m (core_write_x rd v s))"
  by (simp add: keeps_core_def)

lemma keeps_core_segments: "keeps_core (write_segments segs)"
proof (induction segs)
  case Nil
  then show ?case by (simp add: keeps_core_def)
next
  case (Cons x segs)
  obtain k b where x: "x = (k, b)" by fastforce
  have "write_segments (x # segs) = and_then (boot_write_all k b) (\<lambda>_. write_segments segs)"
    by (simp add: fun_eq_iff x)
  with Cons keeps_core_bind [OF keeps_core_write_all] show ?case by metis
qed

lemma keeps_core_initrd: "keeps_core (write_initrd addr initrd)"
  by (cases initrd)
    (auto simp: write_initrd_def Let_def intro!: keeps_core_bind keeps_core_return keeps_core_write_all)

lemma core_inv_boot_hart: "core_inv s \<Longrightarrow> core_inv (boot_hart dtb mode s)"
  by (simp add: boot_hart_def Let_def core_inv_def core_write_x_def csr_wf_write)

lemma core_setup_boot_inv:
  fixes fdt :: "'v Fdt"
  assumes "core_inv s" "even (prog_entrypoint program)"
  shows "core_inv (snd (core_setup_boot fdt program initrd mode s))"
proof -
  let ?s0 = "s\<lparr>core_hart := hart_reset (prog_entrypoint program) (core_hart s)\<rparr>"
  have "keeps_core (\<lambda>s. (Inr () :: ('v MachineError, unit) result, boot_hart dtb mode s))" for dtb
    by (simp add: keeps_core_def core_inv_boot_hart)
  then have tree: "keeps_core (\<lambda>s. case generate fdt n rd of Inl e \<Rightarrow> (Inl (DeviceTreeError e), s)
      | Inr tree \<Rightarrow> and_then (boot_write_all dtb tree) (\<lambda>_ s. (Inr (), boot_hart dtb mode s)) s)" for n rd dtb
    by (cases "generate fdt n rd") (simp_all add: keeps_core_return keeps_core_bind keeps_core_write_all)
  have rest: "keeps_core (\<lambda>s. and_then (write_initrd addr initrd) (\<lambda>(dtb, rd) s.
      case generate fdt n rd of Inl e \<Rightarrow> (Inl (DeviceTreeError e), s)
      | Inr tree \<Rightarrow> and_then (boot_write_all dtb tree) (\<lambda>_ s. (Inr (), boot_hart dtb mode s)) s)
      (core_write_x reg_a0 0 s))" for addr n
    by (rule keeps_core_after, rule keeps_core_bind [OF keeps_core_initrd]) (clarsimp simp: tree)
  have "core_inv ?s0"
    using assms by (simp add: core_inv_def hart_reset_def csr_wf_any [OF csr_wf_reset])
  then show ?thesis
    unfolding core_setup_boot_def Let_def
    using keeps_core_bind [OF keeps_core_segments rest] by (simp only: keeps_core_def)
qed

lemma setup_boot_inv:
  assumes "machine_inv s" "even (prog_entrypoint program)"
  shows "machine_inv (snd (setup_boot fdt program initrd mode s))"
  using assms core_setup_boot_inv [of "ms_core s" program fdt initrd mode]
  by (simp add: machine_inv_def setup_boot_def split_beta Let_def)

fun nested :: "nat \<Rightarrow> FdtCall list \<Rightarrow> bool" where
  "nested d [] \<longleftrightarrow> d = 0"
| "nested d (FdtBeginNode _ # cs) \<longleftrightarrow> nested (Suc d) cs"
| "nested d (FdtEndNode # cs) \<longleftrightarrow> 0 < d \<and> nested (d - 1) cs"
| "nested d (_ # cs) \<longleftrightarrow> 0 < d \<and> nested d cs"

lemma generate_calls_nested: "nested 0 (generate_calls start n initrd)"
  by (cases initrd) (simp_all add: generate_calls_def node_at_def node_def)

end
