(* ===== verification/Stepping.thy ===== *)
theory Stepping
  imports Machine_Invariant
begin

text \<open>
  Evaluation in bulk and tick by tick (machine_state.rs).  The counters of the stepping functions only
  add to what they are given, so that running \<^verbatim>\<open>n\<close> steps in one call of \<^verbatim>\<open>step_max_handle\<close> is the same as
  \<^verbatim>\<open>n\<close> single steps, each followed by the handling of its exception.
\<close>

section \<open>Shifting the counter of steps\<close>

lemma run_block_inner_shift:
  "run_block_inner lib is pc (k + d) c = (case run_block_inner lib is pc k c of (r, pc, k, c) \<Rightarrow> (r, pc, k + d, c))"
proof (induction "is" arbitrary: pc k c)
  case (Cons i "is")
  note IH = Cons [of _ "Suc k", simplified]
  show ?case by (simp add: Let_def IH split: prod.split sum.split ProgramCounterUpdate.split)
qed simp

lemma run_block_shift:
  "run_block lib is pc (k + d) c = (case run_block lib is pc k c of (r, k, c) \<Rightarrow> (r, k + d, c))"
  unfolding run_block_def run_block_inner_shift by (simp split: prod.split sum.split)

lemma run_partial_loop_shift:
  "run_partial_loop lib is pc (k + d) (n + d) p c =
     (case run_partial_loop lib is pc k n p c of (r, p, k, c) \<Rightarrow> (r, p, k + d, c))"
proof (induction "is" arbitrary: pc k p c)
  case (Cons i "is")
  note IH = Cons [of _ "Suc k", simplified]
  show ?case by (simp add: Let_def IH split: prod.split sum.split ProgramCounterUpdate.split)
qed simp

lemma run_partial_inner_shift:
  "run_partial_inner lib b c (k + d) (n + d) =
     (case run_partial_inner lib b c k n of (r, b, c, k) \<Rightarrow> (r, b, c, k + d))"
  unfolding run_partial_inner_def run_partial_loop_shift by (simp add: Let_def split: prod.split option.split)

definition shifted :: "nat \<Rightarrow> 'r \<times> nat \<times> 's \<Rightarrow> 'r \<times> nat \<times> 's" where
  "shifted d x = (case x of (r, k, s) \<Rightarrow> (r, k + d, s))"

lemma shifted_simp [simp]: "shifted d (r, k, s) = (r, k + d, s)"
  by (simp add: shifted_def)

lemma step_body_shift: "step_body lib (n + d) (k + d) s = shifted d (step_body lib n k s)"
proof -
  have p: "after_block (run_block_partial lib a b c (k + d) (n + d)) s = shifted d (after_block (run_block_partial lib a b c k n) s)"
    for a b c s
    by (simp add: run_block_partial_def run_partial_inner_shift after_block_def shifted_def Let_def split: prod.split)
  have f: "finish_step pc (k + d) x = shifted d (finish_step pc k x)" for pc x
    by (simp add: finish_step_def shifted_def split: prod.split sum.split)
  show ?thesis
    unfolding step_body_def Let_def p f run_block_shift
    by (simp split: prod.split sum.split option.split)
qed

lemma step_loop_shift_some:
  assumes "step_loop lib n k s = Some y"
  shows "step_loop lib (n + d) (k + d) s = Some (shifted d y)"
proof (rule step_loop.raw_induct
    [where P = "\<lambda>lib n k s y. step_loop lib (n + d) (k + d) s = Some (shifted d y)", OF _ assms], goal_cases)
  case (1 f lib n k s y)
  obtain r k1 s1 where b: "step_body lib n k s = (r, k1, s1)" using prod_cases3 by blast
  show ?case
    using 1(2) by (subst step_loop.simps) (cases r; auto simp: step_body_shift b split: if_splits intro: 1(1))
qed

lemma step_loop_shift_back:
  assumes "step_loop lib n' k' s = Some y"
  shows "n' = n + d \<longrightarrow> k' = k + d \<longrightarrow> (\<exists>y. step_loop lib n k s = Some y)"
proof -
  have "\<forall>n k. n' = n + d \<longrightarrow> k' = k + d \<longrightarrow> (\<exists>y. step_loop lib n k s = Some y)"
  proof (rule step_loop.raw_induct
      [where P = "\<lambda>lib n' k' s y. \<forall>n k. n' = n + d \<longrightarrow> k' = k + d \<longrightarrow> (\<exists>y. step_loop lib n k s = Some y)",
        OF _ assms], goal_cases)
    case (1 f lib n' k' s y)
    show ?case
    proof (intro allI impI)
      fix n k assume eq: "n' = n + d" "k' = k + d"
      obtain r k1 s1 where b: "step_body lib n k s = (r, k1, s1)" using prod_cases3 by blast
      show "\<exists>y. step_loop lib n k s = Some y"
      proof (cases "k < n \<and> r = Inr ()")
        case True
        then have "f lib n' (k1 + d) s1 = Some y" using 1(2) b eq by (simp add: step_body_shift)
        then have "\<exists>y. step_loop lib n k1 s1 = Some y" using 1(1) eq(1) by blast
        with True b show ?thesis by (subst step_loop.simps) simp
      next
        case False
        then show ?thesis using b by (subst step_loop.simps) (cases r; auto)
      qed
    qed
  qed
  then show ?thesis by blast
qed

lemma step_loop_shift: "step_loop lib (n + d) (k + d) s = map_option (shifted d) (step_loop lib n k s)"
  using step_loop_shift_some [of lib n k s _ d] step_loop_shift_back [of lib "n + d" "k + d" s _ n d k]
  by (cases "step_loop lib n k s"; cases "step_loop lib (n + d) (k + d) s") auto

lemma step_max_inner_shift:
  "step_max_inner lib (n + d) (k + d) s = map_option (shifted d) (step_max_inner lib n k s)"
proof -
  have c: "after_block (complete_current_block lib b c (k + d) (n + d)) s
      = shifted d (after_block (complete_current_block lib b c k n) s)" for b c
    by (simp add: complete_current_block_def run_partial_inner_shift after_block_def split: prod.split)
  show ?thesis
    unfolding step_max_inner_def c
    by (auto simp: step_loop_shift split: prod.split sum.split)
qed

section \<open>Bulk evaluation is repeated single steps\<close>

text \<open>One step, with the exception it raises handled; the result says whether evaluation may continue.\<close>

definition tick ::
  "('s, 'd) FloatLib \<Rightarrow> ('h \<Rightarrow> MachineState \<Rightarrow> EnvironException \<Rightarrow> ('e, bool) result \<times> 'h \<times> MachineState)
     \<Rightarrow> 'h \<Rightarrow> MachineState \<Rightarrow> (('e, bool) result \<times> 'h \<times> MachineState) option" where
  "tick lib handle env s =
     Option.bind (machine_step lib s) (\<lambda>(r, _, s).
       case r of Inr _ \<Rightarrow> Some (Inr True, env, s) | Inl cause \<Rightarrow> Some (handle env s cause))"

primrec ticks ::
  "('s, 'd) FloatLib \<Rightarrow> ('h \<Rightarrow> MachineState \<Rightarrow> EnvironException \<Rightarrow> ('e, bool) result \<times> 'h \<times> MachineState)
     \<Rightarrow> nat \<Rightarrow> nat \<Rightarrow> 'h \<Rightarrow> MachineState \<Rightarrow> ('e StepManyResult \<times> 'h \<times> MachineState) option" where
  "ticks lib handle 0 k env s = Some (\<lparr>smr_steps = k, smr_error = None\<rparr>, env, s)"
| "ticks lib handle (Suc n) k env s =
     Option.bind (tick lib handle env s) (\<lambda>(r, env, s).
       case r of
         Inl e \<Rightarrow> Some (\<lparr>smr_steps = k + 1, smr_error = Some e\<rparr>, env, s)
       | Inr go \<Rightarrow>
           if go then ticks lib handle n (k + 1) env s
           else Some (\<lparr>smr_steps = k + 1, smr_error = None\<rparr>, env, s))"

definition inner_result ::
  "(EnvironException, unit) result \<times> nat \<times> MachineState \<Rightarrow> EnvironException StepManyResult \<times> MachineState" where
  "inner_result x = (case x of (r, k, s) \<Rightarrow> (\<lparr>smr_steps = k, smr_error = (case r of Inl e \<Rightarrow> Some e | Inr _ \<Rightarrow> None)\<rparr>, s))"

lemma step_max_included: "step_max lib (Included n) s = map_option inner_result (step_max_inner lib n 0 s)"
proof (cases "step_max_inner lib n 0 s")
  case None
  then show ?thesis by (simp add: step_max_def step_max_loop.simps unwrap_bound_def)
next
  case (Some x)
  obtain r k s' where x: "x = (r, k, s')" using prod_cases3 by blast
  have "r = Inr u \<Longrightarrow> k = n" for u
    using step_max_inner_steps [OF Some] x by (cases r) simp_all
  with Some x show ?thesis
    by (cases r) (simp_all add: step_max_def step_max_loop.simps unwrap_bound_def inner_result_def less_than_bound_def)
qed

lemma step_max_inner_none: "step_max_inner lib n n s = Some (Inr (), n, s)"
  by (simp add: step_max_inner_def complete_current_block_def run_partial_inner_def after_block_def step_loop.simps)

lemma step_max_inner_first:
  assumes "machine_inv s"
  shows "step_max_inner lib (Suc n) 0 s = Option.bind (machine_step lib s) (\<lambda>(r, k, s1).
    case r of Inl e \<Rightarrow> Some (Inl e, 0, s1) | Inr _ \<Rightarrow> map_option (shifted 1) (step_max_inner lib n 0 s1))"
proof -
  have "partial_wf (ms_bcache s)" using assms by (simp add: machine_inv_def partial_inv_def)
  note sp = step_max_inner_split [OF this, of 1 "Suc n" lib 0]
  show ?thesis
  proof (cases "step_max_inner lib 1 0 s")
    case None
    with sp show ?thesis by (simp add: machine_step_def)
  next
    case (Some x)
    obtain r k s1 where x: "x = (r, k, s1)" using prod_cases3 by blast
    have k: "if is_ok r then k = 1 else k = 0"
      using step_max_inner_steps [OF Some] x by (cases r) simp_all
    show ?thesis
      using sp Some x k step_max_inner_shift [of lib n 1 0 s1] by (cases r) (simp_all add: machine_step_def)
  qed
qed

lemma bulk_first:
  assumes "machine_inv s" "k + Suc n \<le> USIZE_MAX"
  shows "step_max_handle_loop lib handle (Included (Suc n)) k env s =
    Option.bind (tick lib handle env s) (\<lambda>(r, env, s).
       case r of
         Inl e \<Rightarrow> Some (\<lparr>smr_steps = k + 1, smr_error = Some e\<rparr>, env, s)
       | Inr go \<Rightarrow>
           if go then step_max_handle_loop lib handle (Included n) (k + 1) env s
           else Some (\<lparr>smr_steps = k + 1, smr_error = None\<rparr>, env, s))"
proof (cases "machine_step lib s")
  case None
  with assms(1) show ?thesis
    by (simp add: step_max_handle_loop.simps [of lib handle "Included (Suc n)"] step_max_included step_max_inner_first tick_def)
next
  case (Some x)
  obtain r j s1 where x: "x = (r, j, s1)" using prod_cases3 by blast
  note unfolded = step_max_handle_loop.simps [of lib handle "Included (Suc n)"] step_max_included
    step_max_inner_first [OF assms(1)] Some x tick_def
  show ?thesis
  proof (cases r)
    case (Inl e)
    then show ?thesis
      using assms(2)
      by (simp add: unfolded inner_result_def saturating_add_def bound_saturating_sub_def Let_def
          split: prod.split sum.split)
  next
    case (Inr u)
    have add: "saturating_add k (Suc m) = saturating_add (Suc k) m" for m by (simp add: saturating_add_def)
    have sub: "bound_saturating_sub (Included (Suc n)) (Suc m) = bound_saturating_sub (Included n) m" for m
      by (simp add: bound_saturating_sub_def)
    note both = unfolded step_max_handle_loop.simps [of lib handle "Included n"] inner_result_def Inr add sub Let_def
    show ?thesis
    proof (cases "step_max_inner lib n 0 s1")
      case None
      then show ?thesis by (simp add: both)
    next
      case inner: (Some y)
      obtain q m s2 where y: "y = (q, m, s2)" using prod_cases3 by blast
      show ?thesis by (cases q) (simp_all add: both inner y)
    qed
  qed
qed

lemma tick_inv:
  assumes "tick lib handle env s = Some (r, env', s')" "handler_keeps Q handle" "Q env" "machine_inv s"
  shows "Q env' \<and> machine_inv s'"
proof -
  obtain q j s1 where m: "machine_step lib s = Some (q, j, s1)"
    using assms(1) by (cases "machine_step lib s") (auto simp: tick_def)
  then have "machine_inv s1"
    using step_max_inner_inv assms(4) by (auto simp: machine_step_def)
  with m assms show ?thesis
    by (cases q) (auto simp: tick_def handler_keeps_def)
qed

lemma bulk_is_ticks:
  assumes "machine_inv s" "k + n \<le> USIZE_MAX" "handler_keeps (\<lambda>_. True) handle"
  shows "step_max_handle_loop lib handle (Included n) k env s = ticks lib handle n k env s"
  using assms(1,2)
proof (induction n arbitrary: k env s)
  case 0
  then show ?case
    by (simp add: step_max_handle_loop.simps step_max_included step_max_inner_none inner_result_def saturating_add_def)
next
  case (Suc n)
  have "step_max_handle_loop lib handle (Included n) (k + 1) env' s' = ticks lib handle n (k + 1) env' s'"
    if "tick lib handle env s = Some (r, env', s')" for r env' s'
    using tick_inv [OF that assms(3)] Suc by simp
  then show ?case
    by (cases "tick lib handle env s") (auto simp: bulk_first [OF Suc.prems] split: sum.split)
qed

end
