(* ===== verification/Sbi.thy ===== *)
theory Sbi
  imports Boot
begin

text \<open>
  The supervisor binary interface of the virtual machine (pvm/sbi.rs, and its constants in
  kernel_sdk/constants).  The functions reach the machine only through \<^verbatim>\<open>machine.core\<close>.  Signatures and
  digests come from third-party crates: they are the parameter \<^verbatim>\<open>Crypto\<close>.  The hook for characters is the
  list of the characters written.  A call can fail with an error code for the guest, or with a panic of
  the node: \<^verbatim>\<open>vec![0; len]\<close> panics for a length above \<^verbatim>\<open>isize::MAX\<close>, and the guest chooses the length.
\<close>

section \<open>Constants and errors\<close>

definition SBI_CONSOLE_PUTCHAR :: u64 where "SBI_CONSOLE_PUTCHAR = 0x01"
definition SBI_SHUTDOWN :: u64 where "SBI_SHUTDOWN = 0x08"
definition SBI_DBCN :: u64 where "SBI_DBCN = 0x4442434E"
definition SBI_DBCN_CONSOLE_WRITE_BYTE :: u64 where "SBI_DBCN_CONSOLE_WRITE_BYTE = 0x02"
definition SBI_SRST :: u64 where "SBI_SRST = 0x53525354"
definition SBI_SRST_SYSTEM_RESET :: u64 where "SBI_SRST_SYSTEM_RESET = 0x00"
definition SBI_FIRMWARE_TEZOS :: u64 where "SBI_FIRMWARE_TEZOS = 0x0A000000"
definition SBI_TEZOS_INBOX_NEXT :: u64 where "SBI_TEZOS_INBOX_NEXT = 0x01"
definition SBI_TEZOS_METADATA_REVEAL :: u64 where "SBI_TEZOS_METADATA_REVEAL = 0x08"
definition SBI_TEZOS_ED25519_VERIFY :: u64 where "SBI_TEZOS_ED25519_VERIFY = 0x05"
definition SBI_TEZOS_ED25519_SIGN :: u64 where "SBI_TEZOS_ED25519_SIGN = 0x06"
definition SBI_TEZOS_BLAKE2B_HASH256 :: u64 where "SBI_TEZOS_BLAKE2B_HASH256 = 0x07"
definition MAX_INPUT_MESSAGE_SIZE :: nat where "MAX_INPUT_MESSAGE_SIZE = 4096"

lemmas sbi_consts = SBI_CONSOLE_PUTCHAR_def SBI_SHUTDOWN_def SBI_DBCN_def SBI_DBCN_CONSOLE_WRITE_BYTE_def
  SBI_SRST_def SBI_SRST_SYSTEM_RESET_def SBI_FIRMWARE_TEZOS_def SBI_TEZOS_INBOX_NEXT_def
  SBI_TEZOS_METADATA_REVEAL_def SBI_TEZOS_ED25519_VERIFY_def SBI_TEZOS_ED25519_SIGN_def
  SBI_TEZOS_BLAKE2B_HASH256_def

datatype SbiError = SbiFailed | SbiNotSupported | SbiInvalidParam | SbiDenied | SbiInvalidAddress
  | SbiAlreadyAvailable | SbiAlreadyStarted | SbiAlreadyStopped | SbiNoSharedMemory | SbiUnknown

fun sbi_error_code :: "SbiError \<Rightarrow> i64" where
  "sbi_error_code SbiFailed = - 1"
| "sbi_error_code SbiNotSupported = - 2"
| "sbi_error_code SbiInvalidParam = - 3"
| "sbi_error_code SbiDenied = - 4"
| "sbi_error_code SbiInvalidAddress = - 5"
| "sbi_error_code SbiAlreadyAvailable = - 6"
| "sbi_error_code SbiAlreadyStarted = - 7"
| "sbi_error_code SbiAlreadyStopped = - 8"
| "sbi_error_code SbiNoSharedMemory = - 9"
| "sbi_error_code SbiUnknown = 0x8000000000000000"

definition sbi_from_result :: "i64 \<Rightarrow> SbiError option" where
  "sbi_from_result result =
     (if result = - 1 then Some SbiFailed
      else if result = - 2 then Some SbiNotSupported
      else if result = - 3 then Some SbiInvalidParam
      else if result = - 4 then Some SbiDenied
      else if result = - 5 then Some SbiInvalidAddress
      else if result = - 6 then Some SbiAlreadyAvailable
      else if result = - 7 then Some SbiAlreadyStarted
      else if result = - 8 then Some SbiAlreadyStopped
      else if result = - 9 then Some SbiNoSharedMemory
      else if sint result < 0 then Some SbiUnknown
      else None)"

fun sbi_from_exception :: "Exception \<Rightarrow> SbiError" where
  "sbi_from_exception (InstructionAccessFault _) = SbiInvalidAddress"
| "sbi_from_exception (InstructionPageFault _) = SbiInvalidAddress"
| "sbi_from_exception (LoadAccessFault _) = SbiInvalidAddress"
| "sbi_from_exception (LoadPageFault _) = SbiInvalidAddress"
| "sbi_from_exception (StoreAMOAccessFault _) = SbiInvalidAddress"
| "sbi_from_exception (StoreAMOPageFault _) = SbiInvalidAddress"
| "sbi_from_exception IllegalInstruction = SbiFailed"
| "sbi_from_exception Breakpoint = SbiFailed"
| "sbi_from_exception EnvCallFromUMode = SbiFailed"
| "sbi_from_exception EnvCallFromSMode = SbiFailed"
| "sbi_from_exception EnvCallFromMMode = SbiFailed"

fun sbi_from_out_of_bounds :: "OutOfBounds \<Rightarrow> SbiError" where
  "sbi_from_out_of_bounds OutOfBounds = SbiInvalidAddress"

abbreviation "reg_a2 \<equiv> X12"
abbreviation "reg_a3 \<equiv> X13"
abbreviation "reg_a6 \<equiv> X16"
abbreviation "reg_a7 \<equiv> X17"

section \<open>Results\<close>

datatype SbiFailure = SbiErr SbiError | SbiPanic

type_synonym 'a sbi = "MachineCoreState \<Rightarrow> (SbiFailure, 'a) result \<times> MachineCoreState"

definition sbi_return_error :: "SbiError \<Rightarrow> MachineCoreState \<Rightarrow> MachineCoreState" where
  "sbi_return_error code s = core_write_x reg_a0 (sbi_error_code code) s"

definition sbi_return1 :: "XValue \<Rightarrow> MachineCoreState \<Rightarrow> MachineCoreState" where
  "sbi_return1 value s =
     (if sint value < 0 then sbi_return_error SbiFailed s else core_write_x reg_a0 value s)"

definition sbi_return_sbiret :: "SbiError option \<Rightarrow> XValue \<Rightarrow> MachineCoreState \<Rightarrow> MachineCoreState" where
  "sbi_return_sbiret error value s =
     (let s = core_write_x reg_a0 (case error of Some err \<Rightarrow> sbi_error_code err | None \<Rightarrow> 0) s
      in core_write_x reg_a1 value s)"

text \<open>\<^verbatim>\<open>False\<close> in the result stands for a panic of the closure.\<close>

definition sbi_wrap :: "XValue sbi \<Rightarrow> MachineCoreState \<Rightarrow> bool \<times> MachineCoreState" where
  "sbi_wrap inner s =
     (case inner s of
        (Inr value, s) \<Rightarrow> (True, sbi_return1 value s)
      | (Inl (SbiErr error), s) \<Rightarrow> (True, sbi_return_error error s)
      | (Inl SbiPanic, s) \<Rightarrow> (False, s))"

definition sbi_translate :: "Address \<Rightarrow> AccessType \<Rightarrow> Address sbi" where
  "sbi_translate va t s =
     (let (r, s) = translate va t s in (map_err (\<lambda>e. SbiErr (sbi_from_exception e)) r, s))"

definition sbi_read_all :: "Address \<Rightarrow> nat \<Rightarrow> u8 list sbi" where
  "sbi_read_all addr n s = (map_err (\<lambda>e. SbiErr (sbi_from_out_of_bounds e)) (bus_read_all (core_bus s) addr n), s)"

text \<open>Reading into a freshly allocated vector of a length that the guest has chosen.\<close>

definition sbi_read_vec :: "Address \<Rightarrow> u64 \<Rightarrow> u8 list sbi" where
  "sbi_read_vec addr len s = (if 2 ^ 63 \<le> len then (Inl SbiPanic, s) else sbi_read_all addr (unat len) s)"

definition sbi_write_all :: "Address \<Rightarrow> u8 list \<Rightarrow> unit sbi" where
  "sbi_write_all addr bytes s =
     (case bus_write_all (core_bus s) addr bytes of
        Inl e \<Rightarrow> (Inl (SbiErr (sbi_from_out_of_bounds e)), s)
      | Inr b \<Rightarrow> (Inr (), s\<lparr>core_bus := b\<rparr>))"

definition sbi_write :: "Address \<Rightarrow> u32 \<Rightarrow> unit sbi" where
  "sbi_write addr value s =
     (case bus_write (core_bus s) addr value of
        Inl e \<Rightarrow> (Inl (SbiErr (sbi_from_out_of_bounds e)), s)
      | Inr b \<Rightarrow> (Inr (), s\<lparr>core_bus := b\<rparr>))"

section \<open>Answers of the node\<close>

datatype PvmStatus = Evaluating | WaitingForInput | WaitingForMetadata

definition provide_no_input :: "PvmStatus \<Rightarrow> MachineCoreState \<Rightarrow> bool \<times> PvmStatus \<times> MachineCoreState" where
  "provide_no_input status s =
     (case status of
        WaitingForInput \<Rightarrow> (True, Evaluating, sbi_return1 0 s)
      | _ \<Rightarrow> (False, status, s))"

definition input_closure :: "u32 \<Rightarrow> u32 \<Rightarrow> u8 list \<Rightarrow> XValue sbi" where
  "input_closure level counter payload s =
     (let arg_buffer_addr = xr_read (core_xregs s) reg_a0;
          arg_buffer_size = xr_read (core_xregs s) reg_a1;
          arg_level_addr = xr_read (core_xregs s) reg_a2;
          arg_counter_addr = xr_read (core_xregs s) reg_a3
      in and_then (sbi_translate arg_buffer_addr AccStore) (\<lambda>phys_buffer_addr.
         and_then (sbi_translate arg_level_addr AccStore) (\<lambda>phys_level_addr.
         and_then (sbi_translate arg_counter_addr AccStore) (\<lambda>phys_counter_addr.
           let max_buffer_size = min (min (length payload) (unat arg_buffer_size)) MAX_INPUT_MESSAGE_SIZE
           in and_then (sbi_write_all phys_buffer_addr (take max_buffer_size payload)) (\<lambda>_.
              and_then (sbi_write phys_level_addr level) (\<lambda>_.
              and_then (sbi_write phys_counter_addr counter) (\<lambda>_ s.
                (Inr (of_nat max_buffer_size), s))))))) s)"

definition provide_input ::
  "PvmStatus \<Rightarrow> u32 \<Rightarrow> u32 \<Rightarrow> u8 list \<Rightarrow> MachineCoreState \<Rightarrow> bool \<times> PvmStatus \<times> MachineCoreState" where
  "provide_input status level counter payload s =
     (case status of
        WaitingForInput \<Rightarrow> (True, Evaluating, snd (sbi_wrap (input_closure level counter payload) s))
      | _ \<Rightarrow> (False, status, s))"

definition metadata_closure :: "u8 list \<Rightarrow> u32 \<Rightarrow> XValue sbi" where
  "metadata_closure rollup_address origination_level s =
     (let arg_buffer_addr = xr_read (core_xregs s) reg_a0
      in and_then (sbi_translate arg_buffer_addr AccStore) (\<lambda>phys_dest_addr.
         and_then (sbi_write_all phys_dest_addr rollup_address) (\<lambda>_ s.
           (Inr (ucast origination_level), s))) s)"

definition provide_metadata ::
  "PvmStatus \<Rightarrow> u8 list \<Rightarrow> u32 \<Rightarrow> MachineCoreState \<Rightarrow> bool \<times> PvmStatus \<times> MachineCoreState" where
  "provide_metadata status rollup_address origination_level s =
     (case status of
        WaitingForMetadata \<Rightarrow> (True, Evaluating, snd (sbi_wrap (metadata_closure rollup_address origination_level) s))
      | _ \<Rightarrow> (False, status, s))"

section \<open>Cryptography\<close>

record Crypto =
  cr_signing_key_ok :: "u8 list \<Rightarrow> bool"
  cr_sign :: "u8 list \<Rightarrow> u8 list \<Rightarrow> u8 list"
  cr_verifying_key_ok :: "u8 list \<Rightarrow> bool"
  cr_signature_ok :: "u8 list \<Rightarrow> bool"
  cr_verify_strict :: "u8 list \<Rightarrow> u8 list \<Rightarrow> u8 list \<Rightarrow> bool"
  cr_digest_256 :: "u8 list \<Rightarrow> u8 list"

definition sbi_check :: "bool \<Rightarrow> unit sbi" where
  "sbi_check ok s = (if ok then (Inr (), s) else (Inl (SbiErr SbiFailed), s))"

definition handle_tezos_inbox_next :: "PvmStatus \<Rightarrow> PvmStatus" where
  "handle_tezos_inbox_next status = WaitingForInput"

definition handle_tezos_metadata_reveal :: "PvmStatus \<Rightarrow> PvmStatus" where
  "handle_tezos_metadata_reveal status = WaitingForMetadata"

definition handle_tezos_ed25519_sign :: "Crypto \<Rightarrow> XValue sbi" where
  "handle_tezos_ed25519_sign crypto s =
     (let arg_sk_addr = xr_read (core_xregs s) reg_a0;
          arg_msg_addr = xr_read (core_xregs s) reg_a1;
          arg_msg_len = xr_read (core_xregs s) reg_a2;
          arg_sig_addr = xr_read (core_xregs s) reg_a3
      in and_then (sbi_translate arg_sk_addr AccLoad) (\<lambda>sk_addr.
         and_then (sbi_translate arg_msg_addr AccLoad) (\<lambda>msg_addr.
         and_then (sbi_translate arg_sig_addr AccStore) (\<lambda>sig_addr.
         and_then (sbi_read_all sk_addr 32) (\<lambda>sk_bytes.
         and_then (sbi_check (cr_signing_key_ok crypto sk_bytes)) (\<lambda>_.
         and_then (sbi_read_vec msg_addr arg_msg_len) (\<lambda>msg_bytes.
           let sig_bytes = cr_sign crypto sk_bytes msg_bytes
           in and_then (sbi_write_all sig_addr sig_bytes) (\<lambda>_ s.
                (Inr (of_nat (length sig_bytes)), s)))))))) s)"

definition handle_tezos_ed25519_verify :: "Crypto \<Rightarrow> XValue sbi" where
  "handle_tezos_ed25519_verify crypto s =
     (let arg_pk_addr = xr_read (core_xregs s) reg_a0;
          arg_sig_addr = xr_read (core_xregs s) reg_a1;
          arg_msg_addr = xr_read (core_xregs s) reg_a2;
          arg_msg_len = xr_read (core_xregs s) reg_a3
      in and_then (sbi_translate arg_pk_addr AccLoad) (\<lambda>pk_addr.
         and_then (sbi_translate arg_sig_addr AccStore) (\<lambda>sig_addr.
         and_then (sbi_translate arg_msg_addr AccLoad) (\<lambda>msg_addr.
         and_then (sbi_read_all pk_addr 32) (\<lambda>pk_bytes.
         and_then (sbi_read_all sig_addr 64) (\<lambda>sig_bytes.
         and_then (sbi_read_vec msg_addr arg_msg_len) (\<lambda>msg_bytes.
         and_then (sbi_check (cr_verifying_key_ok crypto pk_bytes)) (\<lambda>_.
         and_then (sbi_check (cr_signature_ok crypto sig_bytes)) (\<lambda>_ s.
           let valid = cr_verify_strict crypto pk_bytes msg_bytes sig_bytes
           in (Inr (of_bool valid), s))))))))) s)"

definition handle_tezos_blake2b_hash256 :: "Crypto \<Rightarrow> XValue sbi" where
  "handle_tezos_blake2b_hash256 crypto s =
     (let arg_out_addr = xr_read (core_xregs s) reg_a0;
          arg_msg_addr = xr_read (core_xregs s) reg_a1;
          arg_msg_len = xr_read (core_xregs s) reg_a2
      in and_then (sbi_translate arg_out_addr AccStore) (\<lambda>out_addr.
         and_then (sbi_translate arg_msg_addr AccLoad) (\<lambda>msg_addr.
         and_then (sbi_read_vec msg_addr arg_msg_len) (\<lambda>msg_bytes.
           let hash = cr_digest_256 crypto msg_bytes
           in and_then (sbi_write_all out_addr hash) (\<lambda>_ s.
                (Inr (of_nat (length hash)), s))))) s)"

section \<open>Calls of the guest\<close>

definition handle_not_supported :: "MachineCoreState \<Rightarrow> MachineCoreState" where
  "handle_not_supported s = sbi_return_error SbiNotSupported s"

definition handle_legacy_shutdown :: "MachineCoreState \<Rightarrow> MachineCoreState" where
  "handle_legacy_shutdown s = handle_not_supported s"

definition handle_legacy_console_putchar :: "u8 list \<Rightarrow> MachineCoreState \<Rightarrow> u8 list \<times> MachineCoreState" where
  "handle_legacy_console_putchar hooks s =
     (let char = ucast (xr_read (core_xregs s) reg_a0) in (hooks @ [char], sbi_return1 0 s))"

definition handle_debug_console_write_byte :: "u8 list \<Rightarrow> MachineCoreState \<Rightarrow> u8 list \<times> MachineCoreState" where
  "handle_debug_console_write_byte hooks s =
     (let char = ucast (xr_read (core_xregs s) reg_a0) in (hooks @ [char], sbi_return_sbiret None 0 s))"

definition handle_system_reset :: "MachineCoreState \<Rightarrow> MachineCoreState" where
  "handle_system_reset s = sbi_return_sbiret (Some SbiNotSupported) 0 s"

text \<open>The match on the extension and the function: the result is \<^verbatim>\<open>False\<close> where a closure panics.\<close>

definition dispatch_call ::
  "Crypto \<Rightarrow> PvmStatus \<times> u8 list \<Rightarrow> MachineCoreState \<Rightarrow> bool \<times> (PvmStatus \<times> u8 list) \<times> MachineCoreState" where
  "dispatch_call crypto env s =
     (let (status, hooks) = env;
          sbi_extension = xr_read (core_xregs s) reg_a7;
          sbi_function = xr_read (core_xregs s) reg_a6;
          wrap = (\<lambda>inner. let (ok, s) = sbi_wrap inner s in (ok, env, s))
      in if sbi_extension = SBI_CONSOLE_PUTCHAR
         then (let (hooks, s) = handle_legacy_console_putchar hooks s in (True, (status, hooks), s))
         else if sbi_extension = SBI_SHUTDOWN then (True, env, handle_legacy_shutdown s)
         else if sbi_extension = SBI_DBCN then
           (if sbi_function = SBI_DBCN_CONSOLE_WRITE_BYTE
            then (let (hooks, s) = handle_debug_console_write_byte hooks s in (True, (status, hooks), s))
            else (True, env, handle_not_supported s))
         else if sbi_extension = SBI_SRST then
           (if sbi_function = SBI_SRST_SYSTEM_RESET then (True, env, handle_system_reset s)
            else (True, env, handle_not_supported s))
         else if sbi_extension = SBI_FIRMWARE_TEZOS then
           (if sbi_function = SBI_TEZOS_INBOX_NEXT then (True, (handle_tezos_inbox_next status, hooks), s)
            else if sbi_function = SBI_TEZOS_METADATA_REVEAL then (True, (handle_tezos_metadata_reveal status, hooks), s)
            else if sbi_function = SBI_TEZOS_ED25519_SIGN then wrap (handle_tezos_ed25519_sign crypto)
            else if sbi_function = SBI_TEZOS_ED25519_VERIFY then wrap (handle_tezos_ed25519_verify crypto)
            else if sbi_function = SBI_TEZOS_BLAKE2B_HASH256 then wrap (handle_tezos_blake2b_hash256 crypto)
            else (True, env, handle_not_supported s))
         else (True, env, handle_not_supported s))"

datatype Panic = Panic

definition handle_call ::
  "Crypto \<Rightarrow> PvmStatus \<times> u8 list \<Rightarrow> MachineState \<Rightarrow> EnvironException
     \<Rightarrow> (Panic, bool) result \<times> (PvmStatus \<times> u8 list) \<times> MachineState" where
  "handle_call crypto env machine env_exception =
     (if env_exception = EnvironCallFromMMode
      then (Inr True, env, machine\<lparr>ms_core := sbi_return_error SbiFailed (ms_core machine)\<rparr>)
      else
        (let s = ms_core machine;
             pc = hart_pc (core_hart s) + width_u64 (uncacheable_width Ecall);
             s = core_write_pc pc s;
             (ok, env, s) = dispatch_call crypto env s;
             machine = machine\<lparr>ms_core := s\<rparr>
         in if \<not> ok then (Inl Panic, env, machine)
            else (Inr (fst env = Evaluating), env, machine)))"

section \<open>What a call may change\<close>

text \<open>The closures touch only the memory and the translation cache; their results go to a0 and a1.\<close>

definition quiet_step :: "MachineCoreState \<Rightarrow> MachineCoreState \<Rightarrow> bool" where
  "quiet_step s s' \<longleftrightarrow> core_hart s' = core_hart s \<and> bus_BYTES (core_bus s') = bus_BYTES (core_bus s)
     \<and> (tcache_wf (core_tcache s) \<longrightarrow> tcache_wf (core_tcache s'))"

definition quiet :: "'a sbi \<Rightarrow> bool" where
  "quiet m \<longleftrightarrow> (\<forall>s. quiet_step s (snd (m s)))"

lemma quiet_step_refl [simp]: "quiet_step s s"
  by (simp add: quiet_step_def)

lemma quiet_step_trans: "quiet_step s1 s2 \<Longrightarrow> quiet_step s2 s3 \<Longrightarrow> quiet_step s1 s3"
  by (simp add: quiet_step_def)

lemma quietI: "(\<And>s. quiet_step s (snd (m s))) \<Longrightarrow> quiet m"
  by (simp add: quiet_def)

lemma quietD: "quiet m \<Longrightarrow> m s = (r, s') \<Longrightarrow> quiet_step s s'"
  by (metis quiet_def snd_conv)

named_theorems quiet_intros

lemma quiet_step_and_then:
  assumes "quiet m" "\<And>a. quiet (f a)"
  shows "quiet_step s (snd (and_then m f s))"
proof -
  obtain r s1 where m: "m s = (r, s1)" by fastforce
  have f: "quiet_step s1 (snd (f a s1))" for a using assms(2) by (simp add: quiet_def)
  show ?thesis
    using m quiet_step_trans [OF quietD [OF assms(1) m] f] quietD [OF assms(1) m] by (cases r) (simp_all add: and_then_def)
qed

lemma quiet_and_then [quiet_intros]: "quiet m \<Longrightarrow> (\<And>a. quiet (f a)) \<Longrightarrow> quiet (and_then m f)"
  by (rule quietI) (rule quiet_step_and_then)

lemma quiet_return [quiet_intros]: "quiet (\<lambda>s. (r, s))"
  by (simp add: quiet_def)

lemma quiet_translate [quiet_intros]: "quiet (sbi_translate va t)"
proof (rule quietI)
  fix s
  obtain r s' where t: "translate va t s = (r, s')" by fastforce
  with translate_frame [OF t] translate_wf [of s va t] show "quiet_step s (snd (sbi_translate va t s))"
    by (simp add: quiet_step_def sbi_translate_def)
qed

lemma quiet_read [quiet_intros]: "quiet (sbi_read_all a n)" "quiet (sbi_read_vec a len)" "quiet (sbi_check ok)"
  by (simp_all add: quiet_def sbi_read_all_def sbi_read_vec_def sbi_check_def)

lemma quiet_write [quiet_intros]: "quiet (sbi_write_all a bs)" "quiet (sbi_write a v)"
  using bus_write_all_BYTES bus_write_layout(1)
  by (auto simp: quiet_def quiet_step_def sbi_write_all_def sbi_write_def split: sum.split)

lemma quiet_closures:
  "quiet (input_closure level counter payload)" "quiet (metadata_closure address origination)"
  "quiet (handle_tezos_ed25519_sign crypto)" "quiet (handle_tezos_ed25519_verify crypto)"
  "quiet (handle_tezos_blake2b_hash256 crypto)"
  by (rule quietI; unfold input_closure_def metadata_closure_def handle_tezos_ed25519_sign_def
      handle_tezos_ed25519_verify_def handle_tezos_blake2b_hash256_def Let_def;
      intro quiet_step_and_then quiet_intros)+

definition only_results :: "MachineCoreState \<Rightarrow> MachineCoreState \<Rightarrow> bool" where
  "only_results s s' \<longleftrightarrow>
     (\<forall>r. r \<noteq> reg_a0 \<longrightarrow> r \<noteq> reg_a1 \<longrightarrow> xr_read (core_xregs s') r = xr_read (core_xregs s) r)
     \<and> hart_fregs (core_hart s') = hart_fregs (core_hart s) \<and> hart_csrs (core_hart s') = hart_csrs (core_hart s)
     \<and> hart_mode (core_hart s') = hart_mode (core_hart s) \<and> hart_pc (core_hart s') = hart_pc (core_hart s)
     \<and> hart_reservation (core_hart s') = hart_reservation (core_hart s)
     \<and> bus_BYTES (core_bus s') = bus_BYTES (core_bus s)
     \<and> (tcache_wf (core_tcache s) \<longrightarrow> tcache_wf (core_tcache s'))"

lemma only_results_quiet: "quiet_step s s' \<Longrightarrow> only_results s s'"
  by (simp add: only_results_def quiet_step_def)

lemma only_results_trans: "only_results s1 s2 \<Longrightarrow> only_results s2 s3 \<Longrightarrow> only_results s1 s3"
  by (simp add: only_results_def)

lemma xr_read_write_other: "r \<noteq> r' \<Longrightarrow> xr_read (xr_write regs r' v) r = xr_read regs r"
  by (simp add: xr_read_def xr_write_def)

lemma only_results_write: "r = reg_a0 \<or> r = reg_a1 \<Longrightarrow> only_results s (core_write_x r v s)"
  by (elim disjE) (simp_all add: only_results_def core_write_x_def xr_read_write_other)

lemma only_results_returns:
  "only_results s (sbi_return_error code s)" "only_results s (sbi_return1 v s)" "only_results s (sbi_return_sbiret err v s)"
  using only_results_trans [OF only_results_write [of reg_a0] only_results_write [of reg_a1]]
  by (simp_all add: sbi_return_error_def sbi_return1_def sbi_return_sbiret_def only_results_write)

lemma only_results_wrap:
  assumes "quiet m" "sbi_wrap m s = (ok, s')"
  shows "only_results s s'"
proof -
  obtain r s1 where m: "m s = (r, s1)" by fastforce
  note q = only_results_quiet [OF quietD [OF assms(1) m]]
  show ?thesis
    using assms(2) m q only_results_trans [OF q only_results_returns(1)] only_results_trans [OF q only_results_returns(2)]
    by (auto simp: sbi_wrap_def split: sum.splits SbiFailure.splits)
qed

lemma only_results_inv: "only_results s s' \<Longrightarrow> core_inv s \<Longrightarrow> core_inv s'"
  by (simp add: only_results_def core_inv_def)

lemma only_results_pc: "only_results s s' \<Longrightarrow> hart_pc (core_hart s') = hart_pc (core_hart s)"
  by (simp add: only_results_def)

text \<open>The requests that suspend the machine, and the characters that a call prints.\<close>

definition requested :: "MachineCoreState \<Rightarrow> PvmStatus option" where
  "requested s =
     (if xr_read (core_xregs s) reg_a7 = SBI_FIRMWARE_TEZOS then
        (if xr_read (core_xregs s) reg_a6 = SBI_TEZOS_INBOX_NEXT then Some WaitingForInput
         else if xr_read (core_xregs s) reg_a6 = SBI_TEZOS_METADATA_REVEAL then Some WaitingForMetadata
         else None)
      else None)"

definition printed :: "MachineCoreState \<Rightarrow> u8 list" where
  "printed s =
     (if xr_read (core_xregs s) reg_a7 = SBI_CONSOLE_PUTCHAR
        \<or> xr_read (core_xregs s) reg_a7 = SBI_DBCN \<and> xr_read (core_xregs s) reg_a6 = SBI_DBCN_CONSOLE_WRITE_BYTE
      then [ucast (xr_read (core_xregs s) reg_a0)] else [])"

lemma sbi_extensions_differ [simp]:
  "SBI_CONSOLE_PUTCHAR \<noteq> SBI_FIRMWARE_TEZOS" "SBI_SHUTDOWN \<noteq> SBI_FIRMWARE_TEZOS" "SBI_DBCN \<noteq> SBI_FIRMWARE_TEZOS"
  "SBI_SRST \<noteq> SBI_FIRMWARE_TEZOS" "SBI_SHUTDOWN \<noteq> SBI_DBCN" "SBI_SHUTDOWN \<noteq> SBI_CONSOLE_PUTCHAR"
  "SBI_DBCN \<noteq> SBI_CONSOLE_PUTCHAR" "SBI_SRST \<noteq> SBI_CONSOLE_PUTCHAR" "SBI_SRST \<noteq> SBI_DBCN"
  "SBI_FIRMWARE_TEZOS \<noteq> SBI_CONSOLE_PUTCHAR" "SBI_FIRMWARE_TEZOS \<noteq> SBI_SHUTDOWN"
  "SBI_FIRMWARE_TEZOS \<noteq> SBI_DBCN" "SBI_FIRMWARE_TEZOS \<noteq> SBI_SRST" "SBI_SRST \<noteq> SBI_SHUTDOWN"
  "SBI_TEZOS_INBOX_NEXT \<noteq> SBI_TEZOS_METADATA_REVEAL" "SBI_TEZOS_METADATA_REVEAL \<noteq> SBI_TEZOS_INBOX_NEXT"
  by (simp_all add: sbi_consts)

lemma third_if: "P (snd (snd x)) \<Longrightarrow> P (snd (snd y)) \<Longrightarrow> P (snd (snd (if b then x else y)))"
  by simp

lemma dispatch_call_effect:
  assumes "dispatch_call crypto (status, hooks) s = (ok, (status', hooks'), s')"
  shows "status' = (case requested s of Some st \<Rightarrow> st | None \<Rightarrow> status)" "hooks' = hooks @ printed s"
    "only_results s s'" "requested s \<noteq> None \<Longrightarrow> ok \<and> s' = s"
proof -
  note handlers = handle_not_supported_def handle_legacy_shutdown_def handle_system_reset_def
    handle_legacy_console_putchar_def handle_debug_console_write_byte_def
    handle_tezos_inbox_next_def handle_tezos_metadata_reveal_def Let_def
  note opened = dispatch_call_def handlers split_beta prod.sel
  have env: "fst (snd (dispatch_call crypto (status, hooks) s))
      = ((case requested s of Some st \<Rightarrow> st | None \<Rightarrow> status), hooks @ printed s)"
    unfolding opened requested_def printed_def by simp
  then show "status' = (case requested s of Some st \<Rightarrow> st | None \<Rightarrow> status)" "hooks' = hooks @ printed s"
    using assms by simp_all
  have wrapped: "quiet m \<Longrightarrow> only_results s (snd (sbi_wrap m s))" for m
    by (rule only_results_wrap [OF _ prod.collapse [symmetric]])
  have "only_results s (snd (snd (dispatch_call crypto (status, hooks) s)))"
    unfolding opened
    by (intro third_if [where P = "only_results s"])
      (simp_all only: prod.sel wrapped quiet_closures only_results_returns only_results_quiet quiet_step_refl)
  then show "only_results s s'" using assms by simp
  have "fst (dispatch_call crypto (status, hooks) s) \<and> snd (snd (dispatch_call crypto (status, hooks) s)) = s"
    if "xr_read (core_xregs s) reg_a7 = SBI_FIRMWARE_TEZOS"
      "xr_read (core_xregs s) reg_a6 = SBI_TEZOS_INBOX_NEXT \<or> xr_read (core_xregs s) reg_a6 = SBI_TEZOS_METADATA_REVEAL"
    using that by (elim disjE) (simp_all add: dispatch_call_def)
  with assms show "requested s \<noteq> None \<Longrightarrow> ok \<and> s' = s"
    by (auto simp: requested_def split: if_splits)
qed

section \<open>Handling a call\<close>

lemma handle_call_effect:
  assumes "handle_call crypto (status, hooks) m cause = (r, (status', hooks'), m')" "cause \<noteq> EnvironCallFromMMode"
  shows "hart_pc (core_hart (ms_core m')) = hart_pc (core_hart (ms_core m)) + 4"
    "only_results (core_write_pc (hart_pc (core_hart (ms_core m)) + 4) (ms_core m)) (ms_core m')"
    "status' = (case requested (ms_core m) of Some st \<Rightarrow> st | None \<Rightarrow> status)"
    "hooks' = hooks @ printed (ms_core m)"
    "r = Inl Panic \<or> r = Inr (status' = Evaluating)"
    "m' = m\<lparr>ms_core := ms_core m'\<rparr>"
proof -
  define s where "s = core_write_pc (hart_pc (core_hart (ms_core m)) + 4) (ms_core m)"
  have s: "requested s = requested (ms_core m)" "printed s = printed (ms_core m)"
    "hart_pc (core_hart s) = hart_pc (core_hart (ms_core m)) + 4"
    by (simp_all add: s_def core_write_pc_def requested_def printed_def)
  obtain ok env s' where d': "dispatch_call crypto (status, hooks) s = (ok, env, s')" by (metis prod_cases3)
  have h: "handle_call crypto (status, hooks) m cause
      = ((if ok then Inr (fst env = Evaluating) else Inl Panic), env, m\<lparr>ms_core := s'\<rparr>)"
    using assms(2) d' by (simp add: handle_call_def s_def Let_def width_u64_def)
  have r: "r = (if ok then Inr (status' = Evaluating) else Inl Panic)" "env = (status', hooks')" "m' = m\<lparr>ms_core := s'\<rparr>"
    using assms(1) unfolding h prod.inject by auto
  have s': "s' = ms_core m'" using r(3) by simp
  note d = d' [unfolded r(2) s']
  note e = dispatch_call_effect [OF d]
  show "only_results (core_write_pc (hart_pc (core_hart (ms_core m)) + 4) (ms_core m)) (ms_core m')"
    using e(3) by (simp add: s_def)
  show "hart_pc (core_hart (ms_core m')) = hart_pc (core_hart (ms_core m)) + 4"
    using only_results_pc [OF e(3)] s(3) by simp
  show "status' = (case requested (ms_core m) of Some st \<Rightarrow> st | None \<Rightarrow> status)" "hooks' = hooks @ printed (ms_core m)"
    "r = Inl Panic \<or> r = Inr (status' = Evaluating)" "m' = m\<lparr>ms_core := ms_core m'\<rparr>"
    using e(1,2) s r by simp_all
qed

lemma handle_call_keeps: "handler_keeps (\<lambda>_. True) (handle_call crypto)"
  unfolding handler_keeps_def
proof (intro allI impI conjI TrueI)
  fix env m cause r env' m'
  assume h: "handle_call crypto env m cause = (r, env', m')" and i: "machine_inv m"
  obtain st out st' out' where e: "env = (st, out)" "env' = (st', out')" by fastforce
  show "machine_inv m'"
  proof (cases "cause = EnvironCallFromMMode")
    case True
    with h i show ?thesis by (auto simp: handle_call_def sbi_return_error_def machine_inv_def)
  next
    case False
    note c = handle_call_effect [OF h [unfolded e] False]
    have "core_inv (core_write_pc (hart_pc (core_hart (ms_core m)) + 4) (ms_core m))"
      using i by (intro core_inv_write_pc) (simp_all add: machine_inv_def core_inv_def)
    then have "core_inv (ms_core m')" by (rule only_results_inv [OF c(2)])
    with i c(6) show ?thesis by (cases m; cases m') (simp add: machine_inv_def)
  qed
qed

section \<open>Translated arguments\<close>

lemma translate_with_prefetch_pc [simp]:
  "translate_with_prefetch (core_write_pc pc s) = translate_with_prefetch s"
  by (intro ext) (simp add: translate_with_prefetch_def effective_translation_alg_def
      effective_translation_hart_mode_def Let_def core_write_pc_def)

lemma translate_without_cache_other [simp]:
  "translate_without_cache (core_write_pc pc s) = translate_without_cache s"
  "translate_without_cache (s\<lparr>core_tcache := tc\<rparr>) = translate_without_cache s"
  by (intro ext; simp add: translate_without_cache_def; simp add: core_write_pc_def)+

lemma tcache_coherent_pc [simp]: "tcache_coherent (core_write_pc pc s) = tcache_coherent s"
  unfolding tcache_coherent_def by (simp; simp add: core_write_pc_def)

lemma sbi_translate_step:
  assumes "tcache_coherent s" "translate_without_cache s va t = Inr pa"
  shows "\<exists>tc. sbi_translate va t s = (Inr pa, s\<lparr>core_tcache := tc\<rparr>) \<and> tcache_coherent (s\<lparr>core_tcache := tc\<rparr>)"
proof -
  obtain r s' where t: "translate va t s = (r, s')" by fastforce
  then have "r = Inr pa" "tcache_coherent s'"
    using translate_coherent [OF assms(1), of va t] translate_keeps_coherent [OF assms(1), of va t] assms(2) by simp_all
  moreover have "s' = s\<lparr>core_tcache := core_tcache s'\<rparr>"
    using translate_frame [OF t] by simp
  ultimately show ?thesis using t by (auto simp: sbi_translate_def intro: exI [of _ "core_tcache s'"])
qed

text \<open>The guest chooses the length of the message: one above \<^verbatim>\<open>isize::MAX\<close> ends the node.\<close>

lemma blake2b_panics:
  assumes "tcache_coherent s" "2 ^ 63 \<le> xr_read (core_xregs s) reg_a2"
    and "translate_without_cache s (xr_read (core_xregs s) reg_a0) AccStore = Inr out_addr"
    and "translate_without_cache s (xr_read (core_xregs s) reg_a1) AccLoad = Inr msg_addr"
  shows "fst (sbi_wrap (handle_tezos_blake2b_hash256 crypto) s) = False"
proof -
  obtain tc where t: "sbi_translate (xr_read (core_xregs s) reg_a0) AccStore s = (Inr out_addr, s\<lparr>core_tcache := tc\<rparr>)"
    "tcache_coherent (s\<lparr>core_tcache := tc\<rparr>)"
    using sbi_translate_step [OF assms(1,3)] by blast
  obtain tc' where "sbi_translate (xr_read (core_xregs s) reg_a1) AccLoad (s\<lparr>core_tcache := tc\<rparr>)
      = (Inr msg_addr, s\<lparr>core_tcache := tc'\<rparr>)"
    using sbi_translate_step [OF t(2)] assms(4) by fastforce
  with t assms(2) show ?thesis
    by (simp add: sbi_wrap_def handle_tezos_blake2b_hash256_def and_then_def sbi_read_vec_def)
qed

lemma huge_message_panics:
  assumes "tcache_coherent (ms_core m)" "cause \<noteq> EnvironCallFromMMode"
    and "xr_read (core_xregs (ms_core m)) reg_a7 = SBI_FIRMWARE_TEZOS"
    and "xr_read (core_xregs (ms_core m)) reg_a6 = SBI_TEZOS_BLAKE2B_HASH256"
    and "2 ^ 63 \<le> xr_read (core_xregs (ms_core m)) reg_a2"
    and "translate_without_cache (ms_core m) (xr_read (core_xregs (ms_core m)) reg_a0) AccStore = Inr out_addr"
    and "translate_without_cache (ms_core m) (xr_read (core_xregs (ms_core m)) reg_a1) AccLoad = Inr msg_addr"
  shows "fst (handle_call crypto env m cause) = Inl Panic"
proof -
  let ?s = "core_write_pc (hart_pc (core_hart (ms_core m)) + width_u64 (uncacheable_width Ecall)) (ms_core m)"
  have r: "xr_read (core_xregs ?s) r = xr_read (core_xregs (ms_core m)) r" for r
    by (simp add: core_write_pc_def)
  have "fst (sbi_wrap (handle_tezos_blake2b_hash256 crypto) ?s) = False"
    using assms by (intro blake2b_panics) (simp_all add: r del: uncacheable_width.simps)
  then have "fst (dispatch_call crypto env ?s) = False"
    using assms(3,4) unfolding dispatch_call_def r by (simp add: sbi_consts split_beta)
  then show ?thesis
    using assms(2) by (simp add: handle_call_def split_beta Let_def)
qed

section \<open>Delivery of input\<close>

definition overlay :: "nat \<Rightarrow> u8 list \<Rightarrow> (nat \<Rightarrow> u8 option) \<Rightarrow> nat \<Rightarrow> u8 option" where
  "overlay p bs f a = (if p \<le> a \<and> a < p + length bs then Some (bs ! (a - p)) else f a)"

definition room :: "MachineCoreState \<Rightarrow> Address \<Rightarrow> nat \<Rightarrow> bool" where
  "room s addr n \<longleftrightarrow> DEV \<le> unat addr \<and> unat addr + max 1 n \<le> DEV + bus_BYTES (core_bus s)"

lemma sbi_write_all_fits:
  assumes "bus_wf (core_bus s)" "room s addr (length bs)"
  shows "\<exists>b'. sbi_write_all addr bs s = (Inr (), s\<lparr>core_bus := b'\<rparr>) \<and> bus_wf b'
    \<and> bus_BYTES b' = bus_BYTES (core_bus s) \<and> byte_at b' = overlay (unat addr) bs (byte_at (core_bus s))"
proof -
  obtain b' where b': "bus_write_all (core_bus s) addr bs = Inr b'"
    using bus_write_all_fits [OF assms(1)] assms(2) unfolding room_def by blast
  note w = bus_write_all_bytes [OF assms(1) b']
  have "byte_at b' = overlay (unat addr) bs (byte_at (core_bus s))"
    by (rule ext) (simp only: w(3) overlay_def)
  with b' w(1) assms(1) show ?thesis
    by (intro exI [of _ b']) (simp add: sbi_write_all_def bus_wf_def)
qed

lemma sbi_write_fits:
  assumes "bus_wf (core_bus s)" "room s addr 4"
  shows "\<exists>b'. sbi_write addr v s = (Inr (), s\<lparr>core_bus := b'\<rparr>) \<and> bus_wf b'
    \<and> bus_BYTES b' = bus_BYTES (core_bus s) \<and> byte_at b' = overlay (unat addr) (to_stored v) (byte_at (core_bus s))"
proof -
  let ?m = "bus_memory (core_bus s)"
  define b' where "b' = (core_bus s)\<lparr>bus_memory := ?m\<lparr>mm_data := dyn_region_write (mm_data ?m) (unat addr - DEV) v\<rparr>\<rparr>"
  have w: "bus_write (core_bus s) addr v = Inr b'"
    using assms(2) by (simp add: bus_write_eq [OF assms(1)] elem_size_def in_memory_def room_def b'_def)
  have "byte_at b' a = overlay (unat addr) (to_stored v) (byte_at (core_bus s)) a" for a
  proof (cases "unat addr \<le> a \<and> a < unat addr + 4")
    case True
    then have "unat addr - DEV \<le> a - DEV \<and> a - DEV < unat addr - DEV + 4" "a - DEV - (unat addr - DEV) = a - unat addr"
      "DEV \<le> a \<and> a < DEV + bus_BYTES (core_bus s)"
      using assms(2) unfolding room_def by linarith+
    with True show ?thesis by (simp add: b'_def byte_at_def overlay_def dyn_region_write_def elem_size_def to_stored_def)
  next
    case False
    have "\<not> (unat addr - DEV \<le> a - DEV \<and> a - DEV < unat addr - DEV + 4)" if "DEV \<le> a"
      using that False assms(2) unfolding room_def by linarith
    then have "dyn_region_write (mm_data ?m) (unat addr - DEV) v (a - DEV) = mm_data ?m (a - DEV)" if "DEV \<le> a"
      using that by (auto simp: dyn_region_write_def elem_size_def)
    moreover have "length (to_stored v) = 4" by (simp add: to_stored_def)
    ultimately show ?thesis using False by (auto simp: b'_def byte_at_def overlay_def)
  qed
  then have "byte_at b' = overlay (unat addr) (to_stored v) (byte_at (core_bus s))" by blast
  moreover have "bus_wf b'" "bus_BYTES b' = bus_BYTES (core_bus s)" using assms(1) by (simp_all add: b'_def bus_wf_def)
  ultimately show ?thesis using w by (intro exI [of _ b']) (simp add: sbi_write_def)
qed

lemma provide_input_ok:
  assumes "tcache_coherent s" "bus_wf (core_bus s)"
    and "translate_without_cache s (xr_read (core_xregs s) reg_a0) AccStore = Inr buffer"
    and "translate_without_cache s (xr_read (core_xregs s) reg_a2) AccStore = Inr level_addr"
    and "translate_without_cache s (xr_read (core_xregs s) reg_a3) AccStore = Inr counter_addr"
    and n: "n = min (min (length payload) (unat (xr_read (core_xregs s) reg_a1))) MAX_INPUT_MESSAGE_SIZE"
    and "room s buffer n" "room s level_addr 4" "room s counter_addr 4"
  shows "\<exists>s'. provide_input WaitingForInput level counter payload s = (True, Evaluating, s')
    \<and> core_hart s' = (core_hart s)\<lparr>hart_xregs := xr_write (core_xregs s) reg_a0 (of_nat n)\<rparr>
    \<and> byte_at (core_bus s') = overlay (unat counter_addr) (to_stored counter)
          (overlay (unat level_addr) (to_stored level)
            (overlay (unat buffer) (take n payload) (byte_at (core_bus s))))"
proof -
  obtain tc1 where 1: "sbi_translate (xr_read (core_xregs s) reg_a0) AccStore s = (Inr buffer, s\<lparr>core_tcache := tc1\<rparr>)"
    "tcache_coherent (s\<lparr>core_tcache := tc1\<rparr>)"
    using sbi_translate_step [OF assms(1,3)] by blast
  obtain tc2 where 2: "sbi_translate (xr_read (core_xregs s) reg_a2) AccStore (s\<lparr>core_tcache := tc1\<rparr>)
      = (Inr level_addr, s\<lparr>core_tcache := tc2\<rparr>)" "tcache_coherent (s\<lparr>core_tcache := tc2\<rparr>)"
    using sbi_translate_step [OF 1(2)] assms(4) by fastforce
  obtain tc3 where 3: "sbi_translate (xr_read (core_xregs s) reg_a3) AccStore (s\<lparr>core_tcache := tc2\<rparr>)
      = (Inr counter_addr, s\<lparr>core_tcache := tc3\<rparr>)"
    using sbi_translate_step [OF 2(2)] assms(5) by fastforce
  have len: "length (take n payload) = n" using n by simp
  obtain b1 where b1: "sbi_write_all buffer (take n payload) (s\<lparr>core_tcache := tc3\<rparr>)
      = (Inr (), s\<lparr>core_tcache := tc3, core_bus := b1\<rparr>)" "bus_wf b1" "bus_BYTES b1 = bus_BYTES (core_bus s)"
    "byte_at b1 = overlay (unat buffer) (take n payload) (byte_at (core_bus s))"
    using sbi_write_all_fits [of "s\<lparr>core_tcache := tc3\<rparr>" buffer "take n payload"] assms(2,7) len
    by (auto simp: room_def)
  obtain b2 where b2: "sbi_write level_addr level (s\<lparr>core_tcache := tc3, core_bus := b1\<rparr>)
      = (Inr (), s\<lparr>core_tcache := tc3, core_bus := b2\<rparr>)" "bus_wf b2" "bus_BYTES b2 = bus_BYTES (core_bus s)"
    "byte_at b2 = overlay (unat level_addr) (to_stored level) (byte_at b1)"
    using sbi_write_fits [of "s\<lparr>core_tcache := tc3, core_bus := b1\<rparr>" level_addr level] assms(8) b1(2,3)
    by (auto simp: room_def)
  obtain b3 where b3: "sbi_write counter_addr counter (s\<lparr>core_tcache := tc3, core_bus := b2\<rparr>)
      = (Inr (), s\<lparr>core_tcache := tc3, core_bus := b3\<rparr>)"
    "byte_at b3 = overlay (unat counter_addr) (to_stored counter) (byte_at b2)"
    using sbi_write_fits [of "s\<lparr>core_tcache := tc3, core_bus := b2\<rparr>" counter_addr counter] assms(9) b2(2,3)
    by (auto simp: room_def)
  have "n \<le> 4096" using n by (simp add: MAX_INPUT_MESSAGE_SIZE_def)
  then have "\<not> sint (of_nat n :: u64) < 0"
    by (simp add: signed_of_nat signed_take_bit_int_eq_self)
  then have ret: "sbi_return1 (of_nat n) s1 = core_write_x reg_a0 (of_nat n) s1" for s1
    by (simp add: sbi_return1_def)
  have c: "input_closure level counter payload s = (Inr (of_nat n), s\<lparr>core_tcache := tc3, core_bus := b3\<rparr>)"
    unfolding input_closure_def Let_def and_then_def n [symmetric] by (simp add: 1(1) 2(1) 3 b1(1) b2(1) b3(1))
  have "snd (sbi_wrap (input_closure level counter payload) s)
      = core_write_x reg_a0 (of_nat n) (s\<lparr>core_tcache := tc3, core_bus := b3\<rparr>)"
    unfolding sbi_wrap_def c by (simp add: ret)
  then show ?thesis
    using b1(4) b2(4) b3(2) by (simp add: provide_input_def core_write_x_def)
qed

end
