(* ===== verification/Pvm.thy ===== *)
theory Pvm
  imports Sbi Stepping Allocation
begin

text \<open>
  The proof-generating virtual machine (pvm/common.rs): the machine, its status, and the operations of the
  node on it.  A panic of the handler of environment calls ends the evaluation: it is the error of the
  closure given to \<^verbatim>\<open>step_max_handle\<close>, which in the source has no error of its own (\<^verbatim>\<open>Infallible\<close>).
\<close>

section \<open>State and operations\<close>

definition INITIAL_VERSION :: u64 where "INITIAL_VERSION = 0"

definition PvmStatus_DEFAULT :: PvmStatus where "PvmStatus_DEFAULT = Evaluating"

fun PvmStatus_fmt :: "PvmStatus \<Rightarrow> string" where
  "PvmStatus_fmt Evaluating = ''Evaluating''"
| "PvmStatus_fmt WaitingForInput = ''Waiting for input message''"
| "PvmStatus_fmt WaitingForMetadata = ''Waiting for metadata''"

record Pvm =
  pvm_version :: u64
  pvm_machine_state :: MachineState
  pvm_status :: PvmStatus

text \<open>\<^verbatim>\<open>Pvm::bind\<close> of a fresh allocation.\<close>

definition pvm_allocate :: "nat \<Rightarrow> Pvm" where
  "pvm_allocate BYTES =
     \<lparr>pvm_version = 0, pvm_machine_state = machine_allocate BYTES, pvm_status = PvmStatus_DEFAULT\<rparr>"

definition pvm_reset :: "Pvm \<Rightarrow> Pvm" where
  "pvm_reset pvm =
     pvm\<lparr>pvm_version := INITIAL_VERSION,
         pvm_machine_state := machine_reset (pvm_machine_state pvm),
         pvm_status := PvmStatus_DEFAULT\<rparr>"

definition pvm_handle_exception ::
  "Crypto \<Rightarrow> u8 list \<Rightarrow> EnvironException \<Rightarrow> Pvm \<Rightarrow> (Panic, bool) result \<times> u8 list \<times> Pvm" where
  "pvm_handle_exception crypto hooks exception pvm =
     (let (r, (status, hooks), machine) =
            handle_call crypto (pvm_status pvm, hooks) (pvm_machine_state pvm) exception
      in (r, hooks, pvm\<lparr>pvm_machine_state := machine, pvm_status := status\<rparr>))"

definition eval_one ::
  "('s, 'd) FloatLib \<Rightarrow> Crypto \<Rightarrow> u8 list \<Rightarrow> Pvm \<Rightarrow> ((Panic, unit) result \<times> u8 list \<times> Pvm) option" where
  "eval_one lib crypto hooks pvm =
     Option.bind (machine_step lib (pvm_machine_state pvm)) (\<lambda>(r, _, machine).
       let pvm = pvm\<lparr>pvm_machine_state := machine\<rparr>
       in case r of
            Inr _ \<Rightarrow> Some (Inr (), hooks, pvm)
          | Inl exc \<Rightarrow>
              (let (r, hooks, pvm) = pvm_handle_exception crypto hooks exc pvm
               in Some (map_ok (\<lambda>_. ()) r, hooks, pvm)))"

definition pvm_result ::
  "Pvm \<Rightarrow> Panic StepManyResult \<times> (PvmStatus \<times> u8 list) \<times> MachineState \<Rightarrow> (Panic, nat) result \<times> u8 list \<times> Pvm" where
  "pvm_result pvm x =
     (case x of (result, (status, hooks), machine) \<Rightarrow>
        (case smr_error result of Some e \<Rightarrow> Inl e | None \<Rightarrow> Inr (smr_steps result),
          hooks, pvm\<lparr>pvm_machine_state := machine, pvm_status := status\<rparr>))"

definition eval_max ::
  "('s, 'd) FloatLib \<Rightarrow> Crypto \<Rightarrow> u8 list \<Rightarrow> Bound \<Rightarrow> Pvm \<Rightarrow> ((Panic, nat) result \<times> u8 list \<times> Pvm) option" where
  "eval_max lib crypto hooks step_bounds pvm =
     map_option (pvm_result pvm)
       (step_max_handle lib (handle_call crypto) step_bounds (pvm_status pvm, hooks) (pvm_machine_state pvm))"

definition with_core ::
  "(PvmStatus \<Rightarrow> MachineCoreState \<Rightarrow> bool \<times> PvmStatus \<times> MachineCoreState) \<Rightarrow> Pvm \<Rightarrow> bool \<times> Pvm" where
  "with_core f pvm =
     (let (ok, status, core) = f (pvm_status pvm) (ms_core (pvm_machine_state pvm))
      in (ok, pvm\<lparr>pvm_machine_state := (pvm_machine_state pvm)\<lparr>ms_core := core\<rparr>, pvm_status := status\<rparr>))"

definition pvm_provide_no_input :: "Pvm \<Rightarrow> bool \<times> Pvm" where
  "pvm_provide_no_input = with_core provide_no_input"

definition pvm_provide_input :: "u32 \<Rightarrow> u32 \<Rightarrow> u8 list \<Rightarrow> Pvm \<Rightarrow> bool \<times> Pvm" where
  "pvm_provide_input level counter payload =
     with_core (\<lambda>status s. provide_input status level counter payload s)"

definition pvm_provide_metadata :: "u8 list \<Rightarrow> u32 \<Rightarrow> Pvm \<Rightarrow> bool \<times> Pvm" where
  "pvm_provide_metadata rollup_address origination_level =
     with_core (\<lambda>status s. provide_metadata status rollup_address origination_level s)"

section \<open>Evaluation in bulk\<close>

text \<open>Single evaluations, as long as the machine is evaluating.\<close>

primrec eval_while ::
  "('s, 'd) FloatLib \<Rightarrow> Crypto \<Rightarrow> nat \<Rightarrow> nat \<Rightarrow> u8 list \<Rightarrow> Pvm \<Rightarrow> ((Panic, nat) result \<times> u8 list \<times> Pvm) option" where
  "eval_while lib crypto 0 k hooks pvm = Some (Inr k, hooks, pvm)"
| "eval_while lib crypto (Suc n) k hooks pvm =
     (if pvm_status pvm \<noteq> Evaluating then Some (Inr k, hooks, pvm)
      else Option.bind (eval_one lib crypto hooks pvm) (\<lambda>(r, hooks, pvm).
             case r of
               Inl e \<Rightarrow> Some (Inl e, hooks, pvm)
             | Inr _ \<Rightarrow> eval_while lib crypto n (k + 1) hooks pvm))"

lemma handle_call_continue:
  assumes "handle_call crypto (Evaluating, hooks) m cause = (Inr go, (status', hooks'), m')"
  shows "go = (status' = Evaluating)"
proof (cases "cause = EnvironCallFromMMode")
  case True
  with assms show ?thesis by (simp add: handle_call_def)
next
  case False
  with handle_call_effect(5) [OF assms] show ?thesis by simp
qed

lemma pvm_result_upd [simp]:
  "pvm_result (pvm\<lparr>pvm_machine_state := m, pvm_status := st\<rparr>) = pvm_result pvm"
  by (simp add: pvm_result_def fun_eq_iff)

lemma eval_while_ticks:
  assumes "pvm_status pvm = Evaluating"
  shows "eval_while lib crypto n k hooks pvm
    = map_option (pvm_result pvm) (ticks lib (handle_call crypto) n k (Evaluating, hooks) (pvm_machine_state pvm))"
  using assms
proof (induction n arbitrary: k hooks pvm)
  case 0
  then show ?case by (simp add: pvm_result_def)
next
  case (Suc n)
  show ?case
  proof (cases "machine_step lib (pvm_machine_state pvm)")
    case None
    with Suc.prems show ?thesis by (simp add: eval_one_def tick_def)
  next
    case (Some x)
    obtain r j m where x: "x = (r, j, m)" using prod_cases3 by blast
    show ?thesis
    proof (cases r)
      case (Inr u)
      have "pvm_result (pvm\<lparr>pvm_machine_state := m\<rparr>) = pvm_result pvm"
        by (simp add: pvm_result_def fun_eq_iff)
      then show ?thesis
        using Suc.IH [of "pvm\<lparr>pvm_machine_state := m\<rparr>" "k + 1" hooks] Suc.prems Some x Inr
        by (simp add: eval_one_def tick_def)
    next
      case (Inl cause)
      obtain q st out m' where h: "handle_call crypto (Evaluating, hooks) m cause = (q, (st, out), m')"
        by (metis prod.collapse)
      let ?p = "pvm\<lparr>pvm_machine_state := m', pvm_status := st\<rparr>"
      have one: "eval_one lib crypto hooks pvm = Some (map_ok (\<lambda>_. ()) q, out, ?p)"
        using Some x Inl h Suc.prems by (simp add: eval_one_def pvm_handle_exception_def)
      have t: "tick lib (handle_call crypto) (Evaluating, hooks) (pvm_machine_state pvm) = Some (q, (st, out), m')"
        using Some x Inl h by (simp add: tick_def)
      show ?thesis
      proof (cases q)
        case (Inl e)
        then show ?thesis using one t Suc.prems by (simp add: pvm_result_def map_ok_def)
      next
        case (Inr go)
        then have go: "go = (st = Evaluating)" using handle_call_continue h by blast
        show ?thesis
        proof (cases "st = Evaluating")
          case True
          then show ?thesis
            using Suc.IH [of ?p "k + 1" out] one t Inr go Suc.prems by (simp add: map_ok_def)
        next
          case False
          then have "eval_while lib crypto n (k + 1) out ?p = Some (Inr (k + 1), out, ?p)" by (cases n) simp_all
          with False show ?thesis
            using one t Inr go Suc.prems by (simp add: map_ok_def pvm_result_def)
        qed
      qed
    qed
  qed
qed

lemma eval_max_while:
  assumes "machine_inv (pvm_machine_state pvm)" "pvm_status pvm = Evaluating" "n \<le> USIZE_MAX"
  shows "eval_max lib crypto hooks (Included n) pvm = eval_while lib crypto n 0 hooks pvm"
proof -
  have "step_max_handle lib (handle_call crypto) (Included n) (Evaluating, hooks) (pvm_machine_state pvm)
      = ticks lib (handle_call crypto) n 0 (Evaluating, hooks) (pvm_machine_state pvm)"
    unfolding step_max_handle_def using assms(3) by (intro bulk_is_ticks [OF assms(1) _ handle_call_keeps]) simp
  then show ?thesis
    by (simp add: eval_while_ticks [OF assms(2)] eval_max_def assms(2))
qed

section \<open>The invariant of the virtual machine\<close>

lemma with_core_inv:
  assumes "\<And>st s ok st' s'. f st s = (ok, st', s') \<Longrightarrow> only_results s s'" "machine_inv (pvm_machine_state pvm)"
  shows "machine_inv (pvm_machine_state (snd (with_core f pvm)))"
proof -
  obtain ok st s where f: "f (pvm_status pvm) (ms_core (pvm_machine_state pvm)) = (ok, st, s)"
    using prod_cases3 by blast
  have "core_inv s"
    by (rule only_results_inv [OF assms(1) [OF f]]) (use assms(2) in \<open>simp add: machine_inv_def\<close>)
  with f assms(2) show ?thesis by (simp add: with_core_def machine_inv_def)
qed

lemma provide_only_results:
  "provide_no_input st s = (ok, st', s') \<Longrightarrow> only_results s s'"
  "provide_input st level counter payload s = (ok, st', s') \<Longrightarrow> only_results s s'"
  "provide_metadata st address origination s = (ok, st', s') \<Longrightarrow> only_results s s'"
proof -
  have w: "only_results s (snd (sbi_wrap m s))" if "quiet m" for m
    by (rule only_results_wrap [OF that prod.collapse [symmetric]])
  have refl: "only_results s s" by (simp add: only_results_quiet)
  show "provide_no_input st s = (ok, st', s') \<Longrightarrow> only_results s s'"
    using refl only_results_returns(2) by (auto simp: provide_no_input_def split: PvmStatus.splits)
  show "provide_input st level counter payload s = (ok, st', s') \<Longrightarrow> only_results s s'"
    using refl w [OF quiet_closures(1)] by (auto simp: provide_input_def split: PvmStatus.splits)
  show "provide_metadata st address origination s = (ok, st', s') \<Longrightarrow> only_results s s'"
    using refl w [OF quiet_closures(2)] by (auto simp: provide_metadata_def split: PvmStatus.splits)
qed

lemma pvm_provide_inv:
  assumes "machine_inv (pvm_machine_state pvm)"
  shows "machine_inv (pvm_machine_state (snd (pvm_provide_no_input pvm)))"
    "machine_inv (pvm_machine_state (snd (pvm_provide_input level counter payload pvm)))"
    "machine_inv (pvm_machine_state (snd (pvm_provide_metadata address origination pvm)))"
  unfolding pvm_provide_no_input_def pvm_provide_input_def pvm_provide_metadata_def
  by (rule with_core_inv [OF _ assms]; erule provide_only_results)+

lemma pvm_handle_exception_inv:
  assumes "pvm_handle_exception crypto hooks exc pvm = (r, hooks', pvm')" "machine_inv (pvm_machine_state pvm)"
  shows "machine_inv (pvm_machine_state pvm')"
proof -
  obtain q st out m where h: "handle_call crypto (pvm_status pvm, hooks) (pvm_machine_state pvm) exc = (q, (st, out), m)"
    by (metis prod.collapse)
  have "machine_inv m" using handle_call_keeps [of crypto] h assms(2) unfolding handler_keeps_def by blast
  with assms(1) h show ?thesis by (auto simp: pvm_handle_exception_def)
qed

lemma eval_one_inv:
  assumes "eval_one lib crypto hooks pvm = Some (r, hooks', pvm')" "machine_inv (pvm_machine_state pvm)"
  shows "machine_inv (pvm_machine_state pvm')"
proof -
  obtain q j m where m: "machine_step lib (pvm_machine_state pvm) = Some (q, j, m)"
    using assms(1) by (cases "machine_step lib (pvm_machine_state pvm)") (auto simp: eval_one_def)
  have i: "machine_inv m" using m step_max_inner_inv assms(2) by (auto simp: machine_step_def)
  show ?thesis
  proof (cases q)
    case (Inr u)
    with m i assms(1) show ?thesis by (auto simp: eval_one_def)
  next
    case (Inl exc)
    obtain q' out p where h: "pvm_handle_exception crypto hooks exc (pvm\<lparr>pvm_machine_state := m\<rparr>) = (q', out, p)"
      using prod_cases3 by blast
    with pvm_handle_exception_inv [OF h] i m Inl assms(1) show ?thesis by (auto simp: eval_one_def)
  qed
qed

lemma eval_max_ok:
  assumes "eval_max lib crypto hooks b pvm = Some (r, hooks', pvm')" "machine_inv (pvm_machine_state pvm)"
  shows "machine_inv (pvm_machine_state pvm')" "bounded b \<Longrightarrow> r = Inr n \<Longrightarrow> n \<le> unwrap_bound b"
proof -
  obtain result st out m where
    l: "step_max_handle_loop lib (handle_call crypto) b 0 (pvm_status pvm, hooks) (pvm_machine_state pvm)
      = Some (result, (st, out), m)"
    and e: "r = (case smr_error result of Some e \<Rightarrow> Inl e | None \<Rightarrow> Inr (smr_steps result))"
      "pvm' = pvm\<lparr>pvm_machine_state := m, pvm_status := st\<rparr>"
    using assms(1) by (auto simp: eval_max_def pvm_result_def step_max_handle_def)
  note k = step_max_handle_loop_ok [OF l handle_call_keeps TrueI assms(2)]
  show "machine_inv (pvm_machine_state pvm')" using k e(2) by simp
  show "n \<le> unwrap_bound b" if "bounded b" "r = Inr n"
    using k that e(1) by (auto split: option.splits)
qed

text \<open>The states that the node can bring the virtual machine to: from a freshly allocated one, by booting any
  of the given programs, by evaluating and by answering requests.  A failed boot ends the node with a
  panic.\<close>

inductive pvm_reachable :: "('s, 'd) FloatLib \<Rightarrow> Crypto \<Rightarrow> 'v Fdt \<Rightarrow> Program set \<Rightarrow> Pvm \<Rightarrow> bool"
  for lib crypto fdt programs where
  Allocate: "pvm_reachable lib crypto fdt programs (pvm_allocate BYTES)"
| Reset: "pvm_reachable lib crypto fdt programs pvm \<Longrightarrow> pvm_reachable lib crypto fdt programs (pvm_reset pvm)"
| Boot: "pvm_reachable lib crypto fdt programs pvm \<Longrightarrow> program \<in> programs \<Longrightarrow>
    setup_boot fdt program initrd mode (pvm_machine_state pvm) = (Inr (), m) \<Longrightarrow>
    pvm_reachable lib crypto fdt programs (pvm\<lparr>pvm_machine_state := m\<rparr>)"
| One: "pvm_reachable lib crypto fdt programs pvm \<Longrightarrow>
    eval_one lib crypto hooks pvm = Some (Inr (), hooks', pvm') \<Longrightarrow> pvm_reachable lib crypto fdt programs pvm'"
| Max: "pvm_reachable lib crypto fdt programs pvm \<Longrightarrow>
    eval_max lib crypto hooks b pvm = Some (Inr n, hooks', pvm') \<Longrightarrow> pvm_reachable lib crypto fdt programs pvm'"
| No_Input: "pvm_reachable lib crypto fdt programs pvm \<Longrightarrow>
    pvm_reachable lib crypto fdt programs (snd (pvm_provide_no_input pvm))"
| Input: "pvm_reachable lib crypto fdt programs pvm \<Longrightarrow>
    pvm_reachable lib crypto fdt programs (snd (pvm_provide_input level counter payload pvm))"
| Metadata: "pvm_reachable lib crypto fdt programs pvm \<Longrightarrow>
    pvm_reachable lib crypto fdt programs (snd (pvm_provide_metadata address origination pvm))"

lemma pvm_reachable_inv:
  assumes "pvm_reachable lib crypto fdt programs pvm" "\<forall>program \<in> programs. even (prog_entrypoint program)"
  shows "machine_inv (pvm_machine_state pvm)"
  using assms(1)
proof (induction rule: pvm_reachable.induct)
  case (Allocate BYTES)
  then show ?case by (simp add: pvm_allocate_def machine_allocate_inv)
next
  case (Reset pvm)
  then show ?case by (simp add: pvm_reset_def machine_inv_reset)
next
  case (Boot pvm program initrd mode m)
  then have "even (prog_entrypoint program)" using assms(2) by blast
  from setup_boot_inv [OF Boot.IH this, of fdt initrd mode] Boot.hyps show ?case by simp
next
  case (One pvm hooks hooks' pvm')
  then show ?case using eval_one_inv by blast
next
  case (Max pvm hooks b n hooks' pvm')
  then show ?case using eval_max_ok(1) by blast
qed (simp_all add: pvm_provide_inv)

text \<open>An answer is accepted exactly when it was asked for; a refused one changes nothing.\<close>

lemma provide_protocol:
  "fst (pvm_provide_no_input pvm) = (pvm_status pvm = WaitingForInput)"
  "fst (pvm_provide_input level counter payload pvm) = (pvm_status pvm = WaitingForInput)"
  "fst (pvm_provide_metadata address origination pvm) = (pvm_status pvm = WaitingForMetadata)"
  "(ok, pvm') \<in> {pvm_provide_no_input pvm, pvm_provide_input level counter payload pvm,
     pvm_provide_metadata address origination pvm} \<Longrightarrow>
   if ok then pvm_status pvm' = Evaluating else pvm' = pvm"
  unfolding pvm_provide_no_input_def pvm_provide_input_def pvm_provide_metadata_def with_core_def
    provide_no_input_def provide_input_def provide_metadata_def
  by (cases "pvm_status pvm"; force)+

end
