(* ===== verification/Pvm_Samples.thy ===== *)
theory Pvm_Samples
  imports Samples Pvm
begin

text \<open>
  Concrete instances for the properties of loading, booting and environment calls: an executable of two
  segments, a library of cryptography that answers with constants, and machines with arguments in their
  registers.
\<close>

definition sample_crypto :: Crypto where
  "sample_crypto =
     \<lparr>cr_signing_key_ok = (\<lambda>_. True), cr_sign = (\<lambda>_ _. replicate 64 0), cr_verifying_key_ok = (\<lambda>_. True),
      cr_signature_ok = (\<lambda>_. True), cr_verify_strict = (\<lambda>_ _ _. True), cr_digest_256 = (\<lambda>_. replicate 32 0)\<rparr>"

text \<open>The parser of executables: the first two bytes of a file are its two segments.\<close>

definition sample_elf :: Elf where
  "sample_elf =
     \<lparr>elf_program_headers =
        [\<lparr>ph_type = 1, ph_vaddr = 0x80000000, ph_paddr = 0x80000000, ph_filesz = 1, ph_memsz = 3, ph_file_range = (0, 1)\<rparr>,
         \<lparr>ph_type = 6, ph_vaddr = 0, ph_paddr = 0, ph_filesz = 9, ph_memsz = 9, ph_file_range = (0, 9)\<rparr>,
         \<lparr>ph_type = 1, ph_vaddr = 0x80000010, ph_paddr = 0x80000010, ph_filesz = 1, ph_memsz = 1, ph_file_range = (1, 2)\<rparr>],
      elf_entry = 0x80000000, elf_e_type = 2, elf_e_entry = 0x80000000, elf_dynrelas = []\<rparr>"

definition sample_goblin :: "unit Goblin" where
  "sample_goblin =
     \<lparr>gb_parse = (\<lambda>_. Inr sample_elf), gb_PT_LOAD = 1, gb_ET_EXEC = 2, gb_ET_DYN = 3, gb_R_RISCV_RELATIVE = 3\<rparr>"

definition sample_program :: Program where
  "sample_program = \<lparr>prog_entrypoint = 0x80000000, prog_segments = [(0x80000000, [0x13, 0, 0, 0])]\<rparr>"

definition sample_fdt :: "unit Fdt" where
  "sample_fdt calls = Inr [0xD0, 0x0D]"

text \<open>The sample machine with arguments in a0 to a3, a6 and a7.\<close>

definition sample_args :: "u64 \<Rightarrow> u64 \<Rightarrow> u64 \<Rightarrow> u64 \<Rightarrow> u64 \<Rightarrow> u64 \<Rightarrow> MachineCoreState" where
  "sample_args v0 v1 v2 v3 v6 v7 =
     core_write_x reg_a7 v7 (core_write_x reg_a6 v6 (core_write_x reg_a3 v3 (core_write_x reg_a2 v2
       (core_write_x reg_a1 v1 (core_write_x reg_a0 v0 sample_core)))))"

definition sample_pvm :: Pvm where
  "sample_pvm = pvm_reset \<lparr>pvm_version = 7, pvm_machine_state = sample_machine, pvm_status = WaitingForInput\<rparr>"

section \<open>Facts about the samples\<close>

lemma sample_args_regs [simp]:
  "xr_read (core_xregs (sample_args v0 v1 v2 v3 v6 v7)) reg_a0 = v0"
  "xr_read (core_xregs (sample_args v0 v1 v2 v3 v6 v7)) reg_a1 = v1"
  "xr_read (core_xregs (sample_args v0 v1 v2 v3 v6 v7)) reg_a2 = v2"
  "xr_read (core_xregs (sample_args v0 v1 v2 v3 v6 v7)) reg_a3 = v3"
  "xr_read (core_xregs (sample_args v0 v1 v2 v3 v6 v7)) reg_a6 = v6"
  "xr_read (core_xregs (sample_args v0 v1 v2 v3 v6 v7)) reg_a7 = v7"
  by (simp_all add: sample_args_def core_write_x_def xr_read_write_other)

lemma sample_args_bus [simp]: "core_bus (sample_args v0 v1 v2 v3 v6 v7) = sample_bus"
  by (simp add: sample_args_def core_write_x_def)

lemma sample_args_coherent: "tcache_coherent (sample_args v0 v1 v2 v3 v6 v7)"
  by (rule reset_tcache_coherent) (simp add: sample_args_def core_write_x_def sample_tcache_def)

lemma sample_args_translate: "t \<noteq> AccInstruction \<Longrightarrow> translate_without_cache (sample_args v0 v1 v2 v3 v6 v7) va t = Inr va"
  by (cases t) (simp_all add: translate_without_cache_def translate_with_prefetch_def effective_translation_alg_def
      effective_translation_hart_mode_def sample_args_def core_write_x_def sample_defs)

lemma sample_pvm_ok: "machine_inv (pvm_machine_state sample_pvm)" "pvm_status sample_pvm = Evaluating"
  by (simp_all add: sample_pvm_def pvm_reset_def machine_inv_reset PvmStatus_DEFAULT_def)

lemma sample_program_ok: "segs_ok (prog_segments sample_program)"
  by (simp add: sample_program_def segs_ok_def bt_wf_def seg_map_ok_def)

text \<open>Every machine with one page of memory boots the sample program.\<close>

lemma boots_small:
  assumes "bus_wf (core_bus (ms_core s))" "bus_BYTES (core_bus (ms_core s)) = 4096"
  shows "\<exists>s'. setup_boot sample_fdt sample_program (Some [5, 6]) Supervisor s = (Inr (), s')"
proof -
  let ?s0 = "(ms_core s)\<lparr>core_hart := hart_reset 0x80000000 (core_hart (ms_core s))\<rparr>"
  obtain b1 where b1: "(boot_write_all 0x80000000 [0x13, 0, 0, 0] ?s0 :: (unit MachineError, unit) result \<times> MachineCoreState)
      = (Inr (), ?s0\<lparr>core_bus := b1\<rparr>)" "bus_BYTES b1 = 4096"
    using boot_write_all_fits [where 'a = unit, of ?s0 "0x80000000" "[0x13, 0, 0, 0]"] assms by auto
  let ?s1 = "core_write_x reg_a0 0 (?s0\<lparr>core_bus := b1\<rparr>)"
  have "core_bus ?s1 = b1" by (simp add: core_write_x_def)
  then obtain b2 where b2: "(boot_write_all 0x80000004 [5, 6] ?s1 :: (unit MachineError, unit) result \<times> MachineCoreState)
      = (Inr (), ?s1\<lparr>core_bus := b2\<rparr>)" "bus_BYTES b2 = 4096"
    using boot_write_all_fits [where 'a = unit, of ?s1 "0x80000004" "[5, 6]"] b1(2) by (auto simp: bus_wf_def)
  obtain b3 where b3: "(boot_write_all 0x80000006 [0xD0, 0x0D] (?s1\<lparr>core_bus := b2\<rparr>) :: (unit MachineError, unit) result \<times> MachineCoreState)
      = (Inr (), ?s1\<lparr>core_bus := b3\<rparr>)"
    using boot_write_all_fits [where 'a = unit, of "?s1\<lparr>core_bus := b2\<rparr>" "0x80000006" "[0xD0, 0x0D]"] b2(2) by (auto simp: bus_wf_def)
  show ?thesis
    using b1(1) b2(1) b3
    by (simp add: setup_boot_def core_setup_boot_def Let_def sample_program_def segments_end_def
        and_then_def write_initrd_def generate_def generate_custom_def sample_fdt_def)
qed

lemma sample_boots: "\<exists>s'. setup_boot sample_fdt sample_program (Some [5, 6]) Supervisor sample_machine = (Inr (), s')"
  by (rule boots_small) (use sample_bus_wf in \<open>simp_all add: sample_machine_def\<close>)

lemma allocated_boots:
  "\<exists>s'. setup_boot sample_fdt sample_program (Some [5, 6]) Supervisor (pvm_machine_state (pvm_allocate 4096)) = (Inr (), s')"
  by (rule boots_small)
    (simp_all add: pvm_allocate_def machine_allocate_def core_allocate_def bus_allocate_def mm_allocate_def bus_wf_def)

end
