(* ===== verification/Spec2Isabelle.thy ===== *)
theory Spec2Isabelle
  imports Prelude Bits Registers Traps Xstatus Satp CSRegisters Memory Hart Instruction Parser
    Parser_C Encoding Fence_Cache Sv_Walk Translation_Cache Address_Translation Interp_I Interp_M
    Interp_A Interp_C Zicsr_Priv Float Float_SD Instruction_Cache Dispatch Block_Cache Machine_State
    Decoded Machine_Invariant Allocation Samples Kernel_Loader Program Boot Stepping Sbi Pvm Pvm_Samples
begin

text \<open>
  \<^bold>\<open>The RISC-V machine of the smart rollup node.\<close>  The program is the RISC-V proof-generating virtual
  machine under \<^verbatim>\<open>src/src/riscv/lib/src\<close>: an RV64GC interpreter with machine, supervisor and user
  modes, Sv39 to Sv57 address translation, and caches for translations, decoded instructions and
  blocks of instructions.  A rollup runs a kernel on it; every node must compute the same states, so
  the machine has to be deterministic down to the way its steps are grouped.

  \<^bold>\<open>Conventions.\<close>  A struct is a record and each method a function from the old state to the new one.
  \<^verbatim>\<open>Result<T, E>\<close> is the sum type \<^verbatim>\<open>('e, 't) result\<close> with the error on the left; a method that mutates
  and can fail is of type \<^verbatim>\<open>('s, 'a) exec\<close>, a function to a result and the state that the failing
  method leaves behind.  Machine integers are words of their width, with wrapping arithmetic where the
  source wraps; \<^verbatim>\<open>usize\<close> counters of steps are natural numbers.  A loop that may not end is a
  \<^verbatim>\<open>partial_function (option)\<close>, for which \<^verbatim>\<open>None\<close> is divergence; no fuel is used.  A
  panic of the node on what a kernel asks is a value of the model.  The debug assertions of the compressed
  interpreters are predicates on instructions that C5 proves; those of bits.rs are on literal bounds, and
  that of \<^verbatim>\<open>get_block\<close> is not modelled.

  \<^bold>\<open>Parts of the program and the theories that model them.\<close>
  \<^item> \<^verbatim>\<open>Prelude\<close>: results, executions and shared facts on words and lists.
  \<^item> \<^verbatim>\<open>Bits\<close> (bits.rs): packed fields.  The trait \<^verbatim>\<open>Bits64\<close> is a locale with an interpretation for every
    instance.
  \<^item> \<^verbatim>\<open>Registers\<close> (registers.rs), \<^verbatim>\<open>Traps\<close> (mode.rs, traps.rs), \<^verbatim>\<open>Xstatus\<close>, \<^verbatim>\<open>Satp\<close> and \<^verbatim>\<open>CSRegisters\<close>
    (csregisters.rs and its submodules): the state of the hart and the laws of reading and writing it.
  \<^item> \<^verbatim>\<open>Memory\<close> (bus.rs, main_memory.rs, devices.rs, and the region operations of owned_backend.rs that
    they call): byte-addressed memory; the locale \<^verbatim>\<open>addressable\<close> states what its clients rely on.
  \<^item> \<^verbatim>\<open>Hart\<close> (hart_state.rs, reservation_set.rs): trap entry and load reservations.
  \<^item> \<^verbatim>\<open>Instruction\<close>, \<^verbatim>\<open>Parser\<close>, \<^verbatim>\<open>Parser_C\<close> (parser.rs, parser/instruction.rs): instructions and their
    decoding; \<^verbatim>\<open>Encoding\<close> is the encoding of the unprivileged specification, used as the inverse.
  \<^item> \<^verbatim>\<open>Fence_Cache\<close> (cache_utils.rs): fence counters; the locale \<^verbatim>\<open>fence_cache\<close> proves once, for the three
    caches that use them, that advancing the counter invalidates every entry.
  \<^item> \<^verbatim>\<open>Sv_Walk\<close>, \<^verbatim>\<open>Translation_Cache\<close>, \<^verbatim>\<open>Address_Translation\<close> (address_translation.rs and its submodules,
    common_memory.rs): the page walk, its cache, and loads and stores.
  \<^item> \<^verbatim>\<open>Interp_I\<close>, \<^verbatim>\<open>Interp_M\<close>, \<^verbatim>\<open>Interp_A\<close>, \<^verbatim>\<open>Interp_C\<close>, \<^verbatim>\<open>Zicsr_Priv\<close>, \<^verbatim>\<open>Float\<close>, \<^verbatim>\<open>Float_SD\<close> (interpreter/*.rs): one
    function per instruction.  The arithmetic of floats is the third-party crate \<^verbatim>\<open>rustc_apfloat\<close>; it is
    the parameter \<^verbatim>\<open>FloatLib\<close>, and what is proved needs only that its values are their bit patterns
    (\<^verbatim>\<open>bits_format\<close> for C24, the converse for C25).
  \<^item> \<^verbatim>\<open>Instruction_Cache\<close>, \<^verbatim>\<open>Block_Cache\<close> (instruction_cache.rs, block_cache.rs), \<^verbatim>\<open>Dispatch\<close> and \<^verbatim>\<open>Machine_State\<close>
    (machine_state.rs, range_utils.rs, rv64zifencei.rs): fetching, executing, and the stepping loops.
  \<^item> \<^verbatim>\<open>Decoded\<close> and \<^verbatim>\<open>Machine_Invariant\<close>: what the decoder guarantees to the interpreter, the invariant
    of the machine and its preservation by every step, and the progress of the loops.
  \<^item> \<^verbatim>\<open>Allocation\<close> (the layouts of the components over the owned backend, default.rs): the state that a fresh
    allocation holds, in which the node boots a kernel without a reset.
  \<^item> \<^verbatim>\<open>Stepping\<close>: bulk evaluation by \<^verbatim>\<open>step_max_handle\<close> as repeated single steps.
  \<^item> \<^verbatim>\<open>Kernel_Loader\<close> and \<^verbatim>\<open>Program\<close> (kernel_loader.rs, program.rs): loading executables.  The trait \<^verbatim>\<open>Memory\<close>
    that the loader writes to is the locale \<^verbatim>\<open>loader_memory\<close>, interpreted on the segments of a program; the
    ELF parser is the third-party crate \<^verbatim>\<open>goblin\<close>, the parameter \<^verbatim>\<open>Goblin\<close>.
  \<^item> \<^verbatim>\<open>Boot\<close> (devicetree.rs, \<^verbatim>\<open>setup_boot\<close> of machine_state.rs): the device tree, as the calls to the writer of
    the crate \<^verbatim>\<open>vm_fdt\<close>, which is the parameter \<^verbatim>\<open>Fdt\<close>, and booting.
  \<^item> \<^verbatim>\<open>Sbi\<close> (pvm/sbi.rs, kernel_sdk/constants) and \<^verbatim>\<open>Pvm\<close> (pvm/common.rs): environment calls of the kernel,
    answers of the node, and the virtual machine.  Signatures and digests are the parameter \<^verbatim>\<open>Crypto\<close>; a
    panic of the node is a value; the characters printed are a list.
  \<^item> \<^verbatim>\<open>Samples\<close> and \<^verbatim>\<open>Pvm_Samples\<close>: concrete states on which the properties are instantiated.

  \<^bold>\<open>Specifications.\<close>  Where the instruction set prescribes a behaviour, the lemmas compare the code with a
  definition that is written from it and shares nothing with the code: the page table (\<^verbatim>\<open>page_leaf\<close> in
  \<^verbatim>\<open>Sv_Walk\<close>), delegation, causes and handlers of traps (\<^verbatim>\<open>delegated\<close>, \<^verbatim>\<open>spec_cause\<close>, \<^verbatim>\<open>spec_handler\<close> in \<^verbatim>\<open>Hart\<close>),
  rounding modes (\<^verbatim>\<open>spec_round\<close> in \<^verbatim>\<open>Float\<close>), atomic operations (\<^verbatim>\<open>isa_amo\<close> in \<^verbatim>\<open>Dispatch\<close>) and the encoding.

  \<^bold>\<open>What is shown.\<close>  Decoding inverts encoding, is exact in its widths and agrees with the jump table
  (C1 to C5).  Registers read back what was written and hold legal values after a reset, with the
  exception of the delegation registers that C7 describes; CSR instructions are one read-modify-write; privilege moves only where traps and returns allow it (C6 to
  C12).  Memory, translation and their caches are coherent up to the explicit flushes (C13 to C18).
  Instructions compute the functions of the instruction set (C19 to C26).  The caches hold only decoded
  instructions and are emptied by fences; stepping is independent of the division into runs, counts steps
  exactly, and returns, with the one exception that C32 exhibits (C27 to C32).  Executables are loaded to
  exactly their image and booting places them in memory (C33 to C35).  Every state that the node can reach
  from an allocation, with programs whose entry point is even, satisfies the machine invariant; bulk evaluation is repeated single evaluation; environment calls and
  answers change only what they should, with the panic that C40 exhibits (C36 to C40).

  \<^bold>\<open>What is not modelled.\<close>  The state backend (generic layouts and managers, copying, hashing and serialisation of regions),
  proofs over it, the storage of states on disk, and the OCaml bindings: their content is the memory
  layout and I/O.  The steppers of the sandbox are front ends over the operations modelled here.  The
  loader's \<^verbatim>\<open>Memory\<close> for \<^verbatim>\<open>std::io::Cursor\<close> is used by tests only.  The sizes of the caches are generic in
  the source; the model fixes those of \<^verbatim>\<open>DefaultCacheLayouts\<close>, which the stepper uses, while node_pvm.rs
  binds the machine with the smaller \<^verbatim>\<open>TestCacheLayouts\<close>.  The textual form of instructions (\<^verbatim>\<open>Display\<close>) is not
  modelled.  Device memory has no devices in the source and every access to it fails, as in the model.
  Failures of allocations that are not too large for their type are not modelled.
\<close>

section \<open>Decoding\<close>

text \<open>C1. Decoding inverts encoding: an instruction of RV64I, RV64M or RV64A whose operands fit its
  format, encoded as the unprivileged specification prescribes, is decoded to itself.\<close>

theorem decode_encode_roundtrip:
  assumes "encode i = Some w" "encodable i"
  shows "parse_uncompressed_instruction w = Cacheable i"
  using assms by (rule decode_encode)

theorem decode_encode_roundtrip_witness:
  "parse_uncompressed_instruction (encode_b (Bne (SBTypeArgs X5 X6 (- 8))))
   = Cacheable (RV64I_B (Bne (SBTypeArgs X5 X6 (- 8))))"
  by (rule decode_encode_roundtrip) (simp_all add: branch_imm_ok_def fits_def)

text \<open>C2. The width of a decoded instruction is the width of its encoding: what \<^verbatim>\<open>parse\<close>
  returns advances the program counter by two bytes exactly when the first halfword is a compressed
  encoding, and by four bytes otherwise.\<close>

theorem parse_width_exact:
  assumes "parse bytes next_half = Inr i"
  shows "width_u64 (instr_width i) = (if is_compressed bytes then 2 else 4)"
  using parse_width [OF assms] by (simp add: width_u64_def)

theorem parse_width_exact_witness:
  "width_u64 (instr_width (parse_uncompressed_instruction (push_bit 16 (ucast (0x0010 :: u16))
     OR ucast (0x0093 :: u16)))) = 4"
proof -
  have "parse 0x0093 (Inr 0x0010 :: (unit, u16) result)
      = Inr (parse_uncompressed_instruction (push_bit 16 (ucast (0x0010 :: u16))
          OR ucast (0x0093 :: u16)))"
    by (simp add: parse_def)
  from parse_width_exact [OF this] show ?thesis by (simp add: is_compressed_def)
qed

text \<open>C3. The table of all compressed instructions that the program builds at compile time agrees
  with the decoder on every one of the 65536 indices.\<close>

theorem jump_table_complete:
  "parse_compressed_instruction bytes = parse_compressed_instruction_inner bytes"
  by (rule parse_compressed_instruction_eq)

text \<open>C4. Decoding a block of bytes is compositional at instruction boundaries: when the decoded
  instructions of a first part account for all its bytes, decoding the concatenation decodes both
  parts.\<close>

theorem parse_block_compositional:
  assumes "block_width (parse_block bs) = length bs"
  shows "parse_block (bs @ cs) = parse_block bs @ parse_block cs"
  using assms by (rule parse_block_append)

theorem parse_block_compositional_witness:
  "parse_block ([0x01, 0x00] @ [0x93, 0x00, 0x10, 0x00])
   = parse_block [0x01, 0x00] @ parse_block [0x93, 0x00, 0x10, 0x00]"
  by (rule parse_block_compositional)
    (simp add: parse_block_def is_compressed_def parse_compressed_width width_u64_def)

section \<open>Decoded instructions\<close>

text \<open>C5. Every instruction the decoder produces, from any word and from any halfword, satisfies the
  debug assertions of the interpreters of compressed instructions (rv32c.rs, rv64c.rs and rv64dc.rs) and
  has an even jump offset.\<close>

theorem decoder_meets_assertions:
  "instr_ok (parse_uncompressed_instruction w) \<and> instr_ok (parse_compressed_instruction c)"
  by (intro conjI parse_uncompressed_ok parse_compressed_ok)

section \<open>Control and status registers\<close>

text \<open>C6. Reading a control and status register after writing it gives the written value with its
  reserved fields legalised, or the old value where the register ignores the write.\<close>

theorem csr_write_then_read:
  "csr_read (csr_write s reg v) reg =
   (case make_value_writable reg v of None \<Rightarrow> csr_read s reg | Some w \<Rightarrow> legalised reg w)"
  by (rule csr_read_write_same)

text \<open>C7. After reset and any sequence of register writes, the stored registers hold only legal values:
  aligned trap vectors and exception program counters, masked interrupt enables, the listed causes in
  \<^verbatim>\<open>mcause\<close> and \<^verbatim>\<open>scause\<close>, no reserved bit in the configuration registers, the fixed \<^verbatim>\<open>misa\<close>, and a zero
  \<^verbatim>\<open>satp\<close> whenever translation is off.  The delegation registers hold the last value written to them under
  their mask; before the first write they hold their reset value, whose bits outside the mask no write
  can set.\<close>

theorem csr_contents_legal:
  "let s' = fold (\<lambda>(reg, v) s. csr_write s reg v) ws (csr_reset s) in
   csr_wf WARL_MISA_VALUE s'
   \<and> csr_raw s' CSR_medeleg = (case find (\<lambda>w. fst w = CSR_medeleg) (rev ws) of
       None \<Rightarrow> 2 ^ 64 - 1 | Some w \<Rightarrow> snd w AND WARL_MASK_MEDELEG)
   \<and> csr_raw s' CSR_mideleg = (case find (\<lambda>w. fst w = CSR_mideleg) (rev ws) of
       None \<Rightarrow> 2 ^ 64 - 1 | Some w \<Rightarrow> snd w AND WARL_MASK_MIDELEG)"
proof -
  have wf: "csr_wf WARL_MISA_VALUE (fold (\<lambda>(reg, v) s. csr_write s reg v) ws s')" if "csr_wf WARL_MISA_VALUE s'" for s'
    using that by (induction ws arbitrary: s') (auto simp: csr_wf_write)
  have "csr_raw (csr_reset s) CSR_medeleg = 2 ^ 64 - 1" "csr_raw (csr_reset s) CSR_mideleg = 2 ^ 64 - 1"
    using csr_reset_legal_roots [of CSR_medeleg s] csr_reset_legal_roots [of CSR_mideleg s]
    by (simp_all add: default_value_def ones_def mask_eq_exp_minus_1)
  with wf [OF csr_wf_reset] show ?thesis by (simp only: Let_def delegation_history simp_thms)
qed

text \<open>The reset value of the delegation registers is outside their masks.\<close>

lemma delegation_reset_illegal:
  "csr_read (csr_reset s) CSR_medeleg AND WARL_MASK_MEDELEG \<noteq> csr_read (csr_reset s) CSR_medeleg
   \<and> csr_read (csr_reset s) CSR_mideleg AND WARL_MASK_MIDELEG \<noteq> csr_read (csr_reset s) CSR_mideleg"
proof -
  have "WARL_MASK_MEDELEG \<noteq> - 1" "WARL_MASK_MIDELEG \<noteq> - 1" by code_simp+
  moreover have "(mask 64 :: u64) = - 1" by code_simp
  then have "csr_read (csr_reset s) CSR_medeleg = - 1" "csr_read (csr_reset s) CSR_mideleg = - 1"
    using csr_reset_legal_roots [of CSR_medeleg s] csr_reset_legal_roots [of CSR_mideleg s]
    by (simp_all add: csr_read_def transform_read_def root_of_def general_raw_read_def default_value_def ones_def)
  ultimately show ?thesis by simp
qed

text \<open>C8. A supervisor's write to \<^verbatim>\<open>sstatus\<close> cannot change a field of \<^verbatim>\<open>mstatus\<close> that belongs to
  machine mode: the interrupt stack, the previous privilege, the virtualisation controls, the width of
  supervisor mode and the endianness of machine and supervisor mode.\<close>

theorem sstatus_write_isolated:
  "(let m = csr_mstatus s; m' = csr_mstatus (csr_write s CSR_sstatus v) in
    ms_mie m' = ms_mie m \<and> ms_mpie m' = ms_mpie m \<and> ms_mpp m' = ms_mpp m \<and> ms_mprv m' = ms_mprv m
    \<and> ms_tvm m' = ms_tvm m \<and> ms_tw m' = ms_tw m \<and> ms_tsr m' = ms_tsr m \<and> ms_sxl m' = ms_sxl m
    \<and> ms_mbe m' = ms_mbe m \<and> ms_sbe m' = ms_sbe m)"
  using csr_write_sstatus_machine_fields [of s v] by (simp add: Let_def)

text \<open>C9. The six CSR instructions implement one atomic read-modify-write: an access that privilege,
  translation control or the floating-point state forbids, or a write to a read-only register, is an
  illegal instruction that changes nothing; otherwise the destination receives the old value and the
  register is written exactly when the instruction asks for it.\<close>

theorem csr_instructions_refine_rmw:
  "run_csrrw csr rs1 rd h = csr_rmw csr True (\<lambda>_. xr_read (hart_xregs h) rs1) rd h
   \<and> run_csrrwi csr imm rd h = csr_rmw csr True (\<lambda>_. imm AND 31) rd h
   \<and> run_csrrs csr rs1 rd h = csr_rmw csr (rs1 \<noteq> X0) (\<lambda>old. old OR xr_read (hart_xregs h) rs1) rd h
   \<and> run_csrrsi csr imm rd h = csr_rmw csr (imm AND 31 \<noteq> 0) (\<lambda>old. old OR (imm AND 31)) rd h
   \<and> run_csrrc csr rs1 rd h
     = csr_rmw csr (rs1 \<noteq> X0) (\<lambda>old. old AND NOT (xr_read (hart_xregs h) rs1)) rd h
   \<and> run_csrrci csr imm rd h = csr_rmw csr (imm AND 31 \<noteq> 0) (\<lambda>old. old AND NOT (imm AND 31)) rd h"
  by (intro conjI csr_instr_rmw)

section \<open>Traps\<close>

text \<open>C10. A trap never lowers the privilege, a return never raises it.\<close>

theorem trap_and_return_privilege:
  "hart_mode h \<le> hart_mode (snd (take_trap t ret h))
   \<and> hart_mode (snd (run_mret h)) \<le> hart_mode h \<and> hart_mode (snd (run_sret h)) \<le> hart_mode h"
proof (intro conjI)
  show "hart_mode h \<le> hart_mode (snd (take_trap t ret h))"
    unfolding take_trap_def by (rule take_trap_privilege [of t h ret, OF surjective_pairing])
  show "hart_mode (snd (run_mret h)) \<le> hart_mode h"
  proof (cases "run_mret h")
    case (Pair r h')
    then show ?thesis
      using mret_not_higher [of h _ h'] xret_illegal(1) [of h]
      by (cases r; cases "hart_mode h = Machine"; cases "hart_mode h'") (auto simp: less_eq_Mode_def)
  qed
  show "hart_mode (snd (run_sret h)) \<le> hart_mode h"
  proof (cases "run_sret h")
    case (Pair r h')
    then show ?thesis
      using sret_not_higher [of h _ h'] xret_illegal(2) [of h]
      by (cases r) (auto simp: run_sret_def Let_def split: Mode.splits if_splits)
  qed
qed

text \<open>C11. Trap entry.  A trap goes to supervisor mode exactly when it comes from a lower mode than machine
  mode and its bit of the delegation register is set, and to machine mode otherwise.  The exception
  program counter receives the return address, the trap value the fault address and the cause register
  the cause, except that \<^verbatim>\<open>scause\<close> ignores the causes of machine mode; the status saves the interrupt
  enable and the previous mode and disables interrupts; the handler is the base of the trap vector, plus
  four times the code for an interrupt in vectored mode.  The general and floating-point registers, the
  program counter and the reservation are kept.\<close>

theorem trap_entry_saves:
  assumes "take_trap t ret h = (addr, h')"
  shows
    "(let c = hart_csrs h; c' = hart_csrs h'; m = csr_mstatus c;
          code = trap_exception_code t;
          to_s = (hart_mode h \<noteq> Machine
            \<and> bit (csr_read c (case t of TrapExc _ \<Rightarrow> CSR_medeleg | TrapInt _ \<Rightarrow> CSR_mideleg)) (unat code));
          cause = (case t of TrapExc _ \<Rightarrow> 0 | TrapInt _ \<Rightarrow> 2 ^ 63) + code;
          handler = (\<lambda>tvec. (tvec AND NOT 3)
            + (case t of TrapExc _ \<Rightarrow> 0 | TrapInt _ \<Rightarrow> if tvec AND 3 = 1 then 4 * code else 0))
      in (if to_s
          then hart_mode h' = Supervisor \<and> addr = handler (csr_read c CSR_stvec)
            \<and> csr_read c' CSR_sepc = ret AND NOT 1 \<and> csr_read c' CSR_stval = trap_xtval t
            \<and> csr_read c' CSR_scause =
                (if t \<in> {TrapExc EnvCallFromMMode, TrapInt MachineSoftware, TrapInt MachineTimer,
                         TrapInt MachineExternal} then csr_read c CSR_scause else cause)
            \<and> csr_mstatus c' = m\<lparr>ms_spie := ms_sie m, ms_sie := False,
                ms_spp := (if hart_mode h = User then SPP_User else SPP_Supervisor)\<rparr>
          else hart_mode h' = Machine \<and> addr = handler (csr_read c CSR_mtvec)
            \<and> csr_read c' CSR_mepc = ret AND NOT 1 \<and> csr_read c' CSR_mtval = trap_xtval t
            \<and> csr_read c' CSR_mcause = cause
            \<and> csr_mstatus c' = m\<lparr>ms_mpie := ms_mie m, ms_mie := False,
                ms_mpp := (case hart_mode h of User \<Rightarrow> MPP_User | Supervisor \<Rightarrow> MPP_Supervisor
                             | Machine \<Rightarrow> MPP_Machine)\<rparr>))
    \<and> addr AND 3 = 0 \<and> hart_xregs h' = hart_xregs h \<and> hart_fregs h' = hart_fregs h
    \<and> hart_pc h' = hart_pc h \<and> hart_reservation h' = hart_reservation h"
proof -
  have tt: "take_trap_from_mode t (hart_mode h) ret h = (addr, h')"
    using assms by (simp add: take_trap_def)
  have mpp: "mpp_of_mode m = (case m of User \<Rightarrow> MPP_User | Supervisor \<Rightarrow> MPP_Supervisor | Machine \<Rightarrow> MPP_Machine)" for m
    by (cases m) simp_all
  have "addr AND 3 = 0" using take_trap_frame(7) [OF tt] get_trap_handler_align by simp
  then show ?thesis
    unfolding Let_def delegated_def [symmetric] spec_cause_def [symmetric] spec_handler_def [symmetric]
      machine_only_def [symmetric] mpp [symmetric]
    using take_trap_frame(1-4) [OF tt] take_trap_machine [OF assms] take_trap_supervisor [OF assms]
    by (cases "delegated h t") (simp_all only: if_True if_False simp_thms)
qed

theorem trap_entry_saves_witness:
  "(let (addr, h') = take_trap (TrapExc (LoadAccessFault 64)) 0x80000004 sample_hart in
    hart_mode h' = Machine \<and> csr_read (hart_csrs h') CSR_mtval = 64 \<and> csr_read (hart_csrs h') CSR_mcause = 5
    \<and> csr_read (hart_csrs h') CSR_mepc = 0x80000004 \<and> ms_mpp (csr_mstatus (hart_csrs h')) = MPP_Machine)"
proof -
  obtain addr h' where t: "take_trap (TrapExc (LoadAccessFault 64)) 0x80000004 sample_hart = (addr, h')" by fastforce
  have "hart_mode sample_hart = Machine" by (simp add: sample_hart_def)
  with trap_entry_saves [OF t] show ?thesis by (simp add: t Let_def)
qed

text \<open>C12. A trap to machine mode followed by \<^verbatim>\<open>mret\<close> returns to the interrupted instruction, in the
  interrupted mode, with the interrupt enable and the registers as they were.\<close>

theorem trap_mret_roundtrip:
  assumes "take_trap t ret h = (addr, h')"
    and "get_trap_mode (hart_csrs h) t (hart_mode h) = TrapMachine"
  shows "\<exists>h''. run_mret h' = (Inr (ret AND NOT 1), h'') \<and> hart_mode h'' = hart_mode h
    \<and> ms_mie (csr_mstatus (hart_csrs h'')) = ms_mie (csr_mstatus (hart_csrs h))
    \<and> hart_xregs h'' = hart_xregs h \<and> hart_fregs h'' = hart_fregs h \<and> hart_pc h'' = hart_pc h"
  using assms by (rule mret_after_trap)

theorem trap_mret_roundtrip_witness:
  "\<exists>h''. run_mret (snd (take_trap (TrapExc IllegalInstruction) 0x80000004 sample_hart))
     = (Inr 0x80000004, h'') \<and> hart_mode h'' = Machine"
proof -
  have "take_trap (TrapExc IllegalInstruction) 0x80000004 sample_hart
    = (fst (take_trap (TrapExc IllegalInstruction) 0x80000004 sample_hart),
       snd (take_trap (TrapExc IllegalInstruction) 0x80000004 sample_hart))" by simp
  from trap_mret_roundtrip [OF this] show ?thesis
    by (auto simp: get_trap_mode_def sample_hart_def less_eq_Mode_def)
qed

section \<open>Memory\<close>

text \<open>The address map: the bus sends an address to the devices below 2 GiB, to main memory in the
  range that follows, and nowhere beyond, with the offset into the region.\<close>

theorem bus_address_map:
  assumes "n < 2 ^ 63"
  shows "locate n addr =
    (if unat addr < 2 ^ 31 then (SpaceDevices, addr)
     else if unat addr < 2 ^ 31 + n then (SpaceMainMemory, addr - 2 ^ 31)
     else (SpaceOutOfBounds, addr - 2 ^ 31 - of_nat n))"
  using locate_eq [OF assms, of addr] by (simp add: DEVICES_ADDRESS_SPACE_LENGTH_def)

theorem bus_address_map_witness: "locate 4096 0x80000010 = (SpaceMainMemory, 16)"
  using bus_address_map [of 4096 "0x80000010"] by simp

text \<open>C13. Memory is byte-addressed little-endian storage: a write is read back at its address, and
  reads of every width at an address range disjoint from the written one are unchanged.\<close>

theorem bus_read_after_write:
  fixes v :: "'a::len word"
  assumes "bus_wf s" "8 dvd LENGTH('a)" "8 dvd LENGTH('b::len)" "bus_write s a v = Inr s'"
  shows "bus_read s' a = Inr v
    \<and> (unat a + LENGTH('a) div 8 \<le> unat b \<or> unat b + LENGTH('b) div 8 \<le> unat a \<longrightarrow>
       bus_read s' b = (bus_read s b :: (OutOfBounds, 'b word) result))"
  using addressable.read_write_same [OF bus_addressable [OF assms(2)] assms(1,4)]
    bus_read_write_disjoint [OF assms] by blast

theorem bus_read_after_write_witness:
  "\<exists>b. bus_write sample_bus 0x80000008 (7 :: u64) = Inr b \<and> bus_read b 0x80000008 = Inr (7 :: u64)
     \<and> bus_read b 0x80000000 = (bus_read sample_bus 0x80000000 :: (OutOfBounds, u64) result)"
proof -
  obtain b where b: "bus_write sample_bus 0x80000008 (7 :: u64) = Inr b"
    using sample_write by blast
  from bus_read_after_write [where 'b = 64, OF sample_bus_wf _ _ b, of "0x80000000"] b show ?thesis
    by simp
qed

text \<open>A bulk write of bytes is read back in full.\<close>

theorem bus_bulk_roundtrip:
  fixes vs :: "u8 list"
  assumes "bus_write_all b addr vs = Inr b'"
  shows "bus_read_all b' addr (length vs) = Inr vs"
  using assms by (rule bus_write_read_all_bytes)

theorem bus_bulk_roundtrip_witness:
  "\<exists>b. bus_write_all sample_bus 0x80000000 [1, 2, 3 :: u8] = Inr b
     \<and> bus_read_all b 0x80000000 3 = Inr [1, 2, 3 :: u8]"
proof -
  obtain b where b: "bus_write_all sample_bus 0x80000000 [1, 2, 3 :: u8] = Inr b"
    by (simp add: bus_write_all_def locate_def DEVICES_ADDRESS_SPACE_LENGTH_def saturating_sub_def
        sample_bus_def mm_write_all_def elem_size_def)
  from bus_bulk_roundtrip [OF b] b show ?thesis by (simp add: eval_nat_numeral)
qed

section \<open>Address translation\<close>

text \<open>C14. The page walk computes exactly the translations that the page table in memory defines.  The table
  is the set of 512-entry pages reached from the root page: an entry is a leaf when it is valid and
  readable, or executable and not writable, and points to the next table when it is valid and neither
  readable, writable nor executable.  An address is
  translated when the leaf above it is aligned for its level, has been accessed, and written if this is a
  store; the physical address is the page of the leaf and the offset within it, superpages included.\<close>

theorem page_walk_exact:
  "sv_translate_impl bus va satp sv acc = Inr pa \<longleftrightarrow>
   (\<exists>i pte. page_leaf bus va (case sv of SvLen39 \<Rightarrow> 2 | SvLen48 \<Rightarrow> 3 | SvLen57 \<Rightarrow> 4) (4096 * (unat satp mod 2 ^ 44)) i pte
      \<and> 2 ^ (9 * i) dvd spec_ppn pte \<and> bit pte 6 \<and> (if acc = AccStore then bit pte 7 else True)
      \<and> unat pa = 4096 * spec_ppn pte + unat va mod 2 ^ (12 + 9 * i))"
proof -
  have "levels sv - 1 = (case sv of SvLen39 \<Rightarrow> 2 | SvLen48 \<Rightarrow> 3 | SvLen57 \<Rightarrow> 4)" by (cases sv) simp_all
  then show ?thesis using sv_translate_impl_page_table [of bus va satp sv acc pa] by simp
qed

text \<open>C15. The translation cache answers only what was cached: after any sequence of insertions and
  flushes since reset, a hit is the page recorded last for the mode, address space, kind of access
  and virtual page, and no flush of that kind has happened since.\<close>

theorem translation_cache_refines_history:
  "tcache_try_translate (tc_hist tc ops) m s t v
   \<in> {None, map_option (\<lambda>page. page OR (v AND OFFSET_MASK)) (last_cached ops m s t (v AND PAGE_MASK))}"
  using tc_hist_hit [of tc ops m s t v] by (cases "tcache_try_translate (tc_hist tc ops) m s t v") auto

text \<open>C16. After \<^verbatim>\<open>sfence.vma\<close> a translation through the cache is the translation the page tables
  define.\<close>

theorem sfence_then_translate:
  assumes "tcache_wf (core_tcache s)"
  shows "fst (translate va t (snd (run_sfence_vma asid vaddr s)))
    = translate_without_cache (snd (run_sfence_vma asid vaddr s)) va t"
  by (rule translate_coherent [OF sfence_vma_coherent [OF assms]])

theorem sfence_then_translate_witness:
  "fst (translate 0x80000000 AccLoad (snd (run_sfence_vma X0 X0 sample_core)))
   = translate_without_cache (snd (run_sfence_vma X0 X0 sample_core)) 0x80000000 AccLoad"
  by (rule sfence_then_translate) (simp add: sample_core_def sample_tcache_wf)

text \<open>C17. The cache is keyed on the mode of the hart and not on the mode \<^verbatim>\<open>mstatus.MPRV\<close> selects: once
  a data access of machine mode has been cached, setting \<^verbatim>\<open>MPRV\<close> (any change of the registers that keeps
  \<^verbatim>\<open>satp\<close>) leaves the access untranslated.\<close>

theorem translation_ignores_new_mprv:
  assumes "hart_mode (core_hart s) = Machine" "\<not> ms_mprv (csr_mstatus (hart_csrs (core_hart s)))"
    and "tcache_coherent s" "t \<noteq> AccInstruction"
    and "csr_read csrs CSR_satp = csr_read (hart_csrs (core_hart s)) CSR_satp"
  shows "fst (translate va t (snd (translate va t s)\<lparr>core_hart := (core_hart s)\<lparr>hart_csrs := csrs\<rparr>\<rparr>))
    = Inr va"
  using assms by (rule translate_mprv_stale)

theorem translation_ignores_new_mprv_witness:
  "fst (translate 0x1000 AccLoad (snd (translate 0x1000 AccLoad sample_core)\<lparr>core_hart :=
     (core_hart sample_core)\<lparr>hart_csrs := sample_csrs\<lparr>csr_mstatus := sample_mstatus\<lparr>ms_mprv := True\<rparr>\<rparr>\<rparr>\<rparr>))
   = Inr 0x1000"
  by (rule translation_ignores_new_mprv [OF _ _ sample_coherent])
    (simp_all only: sample_core_def MachineCoreState.simps sample_hart_def HartState.simps sample_satp
      sample_satp [of "csr_mstatus sample_csrs", simplified], simp_all add: sample_defs)

section \<open>Loads and stores\<close>

text \<open>C18. A load reads back what a store to the same address wrote, doubleword, sign-extended word,
  zero-extended halfword and byte, when data accesses are not translated.\<close>

theorem store_then_load:
  assumes "flat s" "bus_wf (core_bus s)" "rd \<noteq> X0"
  shows
    "(run_sd imm rs1 rs2 s = (Inr (), s1) \<longrightarrow>
       (\<exists>s2. run_ld imm rs1 rd s1 = (Inr (), s2) \<and> xr_read (core_xregs s2) rd = xr_read (core_xregs s) rs2))
     \<and> (run_sw imm rs1 rs2 s = (Inr (), s1) \<longrightarrow>
       (\<exists>s2. run_lw imm rs1 rd s1 = (Inr (), s2)
         \<and> xr_read (core_xregs s2) rd = scast (ucast (xr_read (core_xregs s) rs2) :: i32)))
     \<and> (run_sh imm rs1 rs2 s = (Inr (), s1) \<longrightarrow>
       (\<exists>s2. run_lhu imm rs1 rd s1 = (Inr (), s2)
         \<and> xr_read (core_xregs s2) rd = ucast (ucast (xr_read (core_xregs s) rs2) :: u16)))
     \<and> (run_sb imm rs1 rs2 s = (Inr (), s1) \<longrightarrow>
       (\<exists>s2. run_lbu imm rs1 rd s1 = (Inr (), s2)
         \<and> xr_read (core_xregs s2) rd = ucast (ucast (xr_read (core_xregs s) rs2) :: u8)))"
  using load_after_store [OF assms] by blast

theorem store_then_load_witness:
  "\<exists>s1 s2. run_sd 8 X5 X6 sample_core = (Inr (), s1) \<and> run_ld 8 X5 X7 s1 = (Inr (), s2)
     \<and> xr_read (core_xregs s2) X7 = 42"
proof -
  obtain b where "bus_write (core_bus sample_core) 0x80000008 (42 :: u64) = Inr b"
    using sample_write by auto
  from flat_write [OF sample_flat this] obtain s1 where "run_sd 8 X5 X6 sample_core = (Inr (), s1)"
    by (auto simp: run_sd_def write_to_bus_def sample_xregs)
  with store_then_load [OF sample_flat, of X7 8 X5 X6 s1] show ?thesis
    unfolding sample_fields sample_xregs using sample_bus_wf by blast
qed

section \<open>Instructions\<close>

text \<open>C19. The register-register instructions of RV64I and the multiply and divide instructions compute
  the functions the instruction set defines on integers, including the results of division by zero and
  of the overflowing signed division.\<close>

theorem arithmetic_instructions_exact:
  "run_instr_R w i s =
     (Inr (Next w), core_write_x (r_rd (args_R i))
        (isa_R i (xr_read (core_xregs s) (r_rs1 (args_R i))) (xr_read (core_xregs s) (r_rs2 (args_R i)))) s)
   \<and> run_instr_M w j s =
     (Inr (Next w), core_write_x (r_rd (args_M j))
        (isa_M j (xr_read (core_xregs s) (r_rs1 (args_M j))) (xr_read (core_xregs s) (r_rs2 (args_M j)))) s)"
  by (intro conjI run_R_eq run_M_eq)

text \<open>C20. The high and the low half of a product, of every signedness, together are the exact product.\<close>

theorem product_halves:
  assumes "rd \<noteq> X0"
  shows
    "uint (xr_read (run_mulhu rs1 rs2 rd x) rd) * 2 ^ 64 + uint (xr_read (run_mul rs1 rs2 rd x) rd)
       = uint (xr_read x rs1) * uint (xr_read x rs2)
     \<and> sint (xr_read (run_mulh rs1 rs2 rd x) rd) * 2 ^ 64 + uint (xr_read (run_mul rs1 rs2 rd x) rd)
       = sint (xr_read x rs1) * sint (xr_read x rs2)
     \<and> sint (xr_read (run_mulhsu rs1 rs2 rd x) rd) * 2 ^ 64 + uint (xr_read (run_mul rs1 rs2 rd x) rd)
       = sint (xr_read x rs1) * uint (xr_read x rs2)"
  by (intro conjI mul_high_low assms)

theorem product_halves_witness:
  "uint (xr_read (run_mulhu X5 X6 X7 (hart_xregs sample_hart)) X7) * 2 ^ 64
     + uint (xr_read (run_mul X5 X6 X7 (hart_xregs sample_hart)) X7) = 42 * 2 ^ 31"
  using product_halves [of X7 X5 X6 "hart_xregs sample_hart"] by (simp add: sample_xregs)

text \<open>C21. Load-reserved followed by store-conditional to the same aligned doubleword succeeds: the store
  is performed and the destination receives the success code.\<close>

theorem lr_sc_success:
  fixes v :: u64
  assumes "flat s" "xr_read (core_xregs s) rs1 = a" "unat a mod 8 = 0" "a \<noteq> UNSET_VALUE"
    and "bus_read (core_bus s) a = Inr v" "bus_write (core_bus s) a (xr_read (core_xregs s) rs2) = Inr b"
    and "rd \<notin> {rs1, rs2}" "rd' \<noteq> X0"
  shows "\<exists>s1 s2. run_lrd rs1 r rd rl aq s = (Inr (), s1) \<and> run_scd rs1 rs2 rd' rl aq s1 = (Inr (), s2)
    \<and> core_bus s2 = b \<and> xr_read (core_xregs s2) rd' = SC_SUCCESS"
proof -
  have al: "a mod of_nat (elem_size TYPE(u64)) = 0"
    using assms(3) by (simp add: elem_size_def word_unat_eq_iff unat_mod)
  have res: "align_address a RESERVATION_SIZE = a"
    using align_address_aligned [OF assms(3)] by (simp add: RESERVATION_SIZE_def)
  obtain s1 where s1: "run_lrd rs1 r rd rl aq s = (Inr (), s1)" "flat s1" "core_bus s1 = core_bus s"
    "core_xregs s1 = xr_write (core_xregs s) rd v" "hart_reservation (core_hart s1) = a"
    using run_lr_flat [OF assms(1,2) al assms(5), of rd "\<lambda>x. x"] by (auto simp: run_lrd_def res)
  have regs: "xr_read (core_xregs s1) rs1 = a" "xr_read (core_xregs s1) rs2 = xr_read (core_xregs s) rs2"
    using assms(2,7) by (auto simp: s1(4) xr.get_put)
  obtain s2 where "run_scd rs1 rs2 rd' rl aq s1 = (Inr (), s2)" "core_bus s2 = b"
    "core_xregs s2 = xr_write (core_xregs s1) rd' SC_SUCCESS"
    using run_sc_flat [OF s1(2) regs(1) al, of "\<lambda>x. x" rs2 b rd'] assms(4,6)
    by (auto simp: run_scd_def res s1(3,5) regs)
  moreover have "\<not> is_zero rd'" using assms(8) by (simp add: is_zero_def)
  ultimately show ?thesis using s1(1) by (auto simp: xr.get_put)
qed

theorem lr_sc_success_witness:
  "\<exists>s1 s2. run_lrd X5 X0 X7 False False sample_core = (Inr (), s1)
     \<and> run_scd X5 X6 X8 False False s1 = (Inr (), s2) \<and> xr_read (core_xregs s2) X8 = SC_SUCCESS"
proof -
  obtain b where "bus_write (core_bus sample_core) 0x80000000 (xr_read (core_xregs sample_core) X6) = Inr b"
    using sample_write(2) by (auto simp: sample_xregs)
  from lr_sc_success [OF sample_flat _ _ _ _ this, of X5 _ X7 X8 X0 False False] show ?thesis
    by (auto simp: sample_xregs sample_read UNSET_VALUE_def)
qed

text \<open>A store-conditional without a reservation stores nothing and reports failure, and every
  store-conditional consumes the reservation.\<close>

theorem sc_needs_reservation:
  assumes "hart_reservation (core_hart s) = UNSET_VALUE" "rd \<noteq> X0"
  shows "core_bus (snd (run_scd rs1 rs2 rd rl aq s)) = core_bus s
    \<and> (fst (run_scd rs1 rs2 rd rl aq s) = Inr () \<longrightarrow>
       xr_read (core_xregs (snd (run_scd rs1 rs2 rd rl aq s))) rd = SC_FAILURE)
    \<and> hart_reservation (core_hart (snd (run_scd rs1 rs2 rd rl aq s'))) = UNSET_VALUE"
  unfolding run_scd_def using run_sc_unreserved [OF assms(1)] run_sc_clears assms(2) by blast

theorem sc_needs_reservation_witness:
  "core_bus (snd (run_scd X5 X6 X7 False False sample_core)) = sample_bus"
  using sc_needs_reservation [of sample_core X7 X5 X6 False False sample_core]
  by (simp add: sample_hart_def)

text \<open>C22. Every atomic memory operation on a word or a doubleword, in memory reached without translation:
  at an aligned address it reads the old value into the destination, a word sign-extended, and stores the
  combination of the old value and the second operand that the instruction set prescribes; outside memory
  it raises a load fault and keeps registers and memory; at a misaligned address it raises an access fault
  and changes nothing.\<close>

theorem amo_effect:
  assumes "flat s" "xr_read (core_xregs s) (am_rs1 a) = addr"
  shows
    "(amo_w i = Some (op, a) \<longrightarrow>
      (if addr mod 4 \<noteq> 0 then run_instr_A w i s = (Inl (StoreAMOAccessFault addr), s)
       else case bus_read (core_bus s) addr of
          Inl _ \<Rightarrow> \<exists>s'. run_instr_A w i s = (Inl (LoadAccessFault addr), s')
            \<and> core_hart s' = core_hart s \<and> core_bus s' = core_bus s
        | Inr v \<Rightarrow> \<exists>s' b. run_instr_A w i s = (Inr (Next w), s') \<and> core_bus s' = b
            \<and> bus_write (core_bus s) addr (isa_amo op (v :: u32) (ucast (xr_read (core_xregs s) (am_rs2 a)))) = Inr b
            \<and> core_xregs s' = xr_write (core_xregs s) (am_rd a) (scast v)))
    \<and> (amo_d i = Some (op, a) \<longrightarrow>
      (if addr mod 8 \<noteq> 0 then run_instr_A w i s = (Inl (StoreAMOAccessFault addr), s)
       else case bus_read (core_bus s) addr of
          Inl _ \<Rightarrow> \<exists>s'. run_instr_A w i s = (Inl (LoadAccessFault addr), s')
            \<and> core_hart s' = core_hart s \<and> core_bus s' = core_bus s
        | Inr v \<Rightarrow> \<exists>s' b. run_instr_A w i s = (Inr (Next w), s') \<and> core_bus s' = b
            \<and> bus_write (core_bus s) addr (isa_amo op (v :: u64) (xr_read (core_xregs s) (am_rs2 a))) = Inr b
            \<and> core_xregs s' = xr_write (core_xregs s) (am_rd a) v))"
proof (intro conjI impI, goal_cases)
  case 1
  with amo_w_case [OF assms(1) 1 assms(2), of w] amo_misaligned(1) [OF 1, of s w] assms(2) show ?case
    by (cases "addr mod 4 = 0") (simp_all only: if_True if_False simp_thms)
next
  case 2
  with amo_d_case [OF assms(1) 2 assms(2), of w] amo_misaligned(2) [OF 2, of s w] assms(2) show ?case
    by (cases "addr mod 8 = 0") (simp_all only: if_True if_False simp_thms)
qed

theorem amo_effect_witness:
  "\<exists>s' b. run_instr_A Uncompressed (Amoaddd (AmoArgs X7 X5 X6 False False)) sample_core
      = (Inr (Next Uncompressed), s')
    \<and> bus_write sample_bus 0x80000000 (0xCF + 42 :: u64) = Inr b \<and> core_bus s' = b
    \<and> xr_read (core_xregs s') X7 = 0xCF"
  using amo_effect [OF sample_flat, of "AmoArgs X7 X5 X6 False False" "0x80000000"
      "Amoaddd (AmoArgs X7 X5 X6 False False)" AmoAdd Uncompressed]
  by (auto simp: sample_xregs sample_read xr.get_put is_zero_def isa_amo_fun)

section \<open>Floating point\<close>

text \<open>C23. With the floating-point unit disabled in \<^verbatim>\<open>mstatus\<close>, every instruction of the F and D
  extensions, compressed ones included, is illegal and changes nothing.\<close>

theorem disabled_float_illegal:
  assumes "floating_disabled (hart_csrs (core_hart s))" "is_float i"
  shows "run_instr_cacheable lib i s = (Inl IllegalInstruction, s)"
  using assms(2) by (cases i) (simp_all add: run_float_off [OF assms(1)])

theorem disabled_float_illegal_witness:
  "run_instr_cacheable sample_lib (RV64D (Fld (FLoadArgs X5 F1 0))) sample_core
   = (Inl IllegalInstruction, sample_core)"
  by (rule disabled_float_illegal) (simp_all add: floating_disabled_def sample_defs)

text \<open>C24. NaN boxing is lossless: a value of either precision written to a floating-point register is
  read back, for any float library whose encodings are bit patterns of the right width.\<close>

theorem float_register_roundtrip:
  assumes "bits_format 32 (lib_single lib)" "bits_format 64 (lib_double lib)"
  shows "fe_from (Single lib) (fr_read (fr_write regs rd (fe_into (Single lib) x)) rd) = x
    \<and> fe_from (Double lib) (fr_read (fr_write regs rd (fe_into (Double lib) y)) rd) = y"
  by (simp add: fr.get_put single_roundtrip [OF assms(1)] double_roundtrip [OF assms(2)])

theorem float_register_roundtrip_witness:
  "fe_from (Single sample_lib) (fr_read (fr_write (\<lambda>_. 0) F3 (fe_into (Single sample_lib) 0x3f800000)) F3)
   = 0x3f800000"
  using float_register_roundtrip [OF sample_formats, of "\<lambda>_. 0" F3] by blast

text \<open>C25. Addition, subtraction, multiplication and division of floats: with a rounding mode that the
  instruction set reserves, static or from \<^verbatim>\<open>fcsr\<close>, the instruction is illegal and changes nothing;
  otherwise it writes the rounded result of the library, any NaN replaced by the canonical one, ORs each
  of the five exception flags into \<^verbatim>\<open>fflags\<close>, and keeps the rounding mode and the integer registers.
  The canonical NaN has the bits of the standard, boxed when it is single.  The hypotheses on the library
  say that it reads and writes the bits of a float unchanged.\<close>

theorem float_arithmetic_effect:
  fixes lib :: "('s, 'd) FloatLib"
  assumes "(instr, f) \<in> {(run_fadd, af_add_r), (run_fsub, af_sub_r), (run_fmul, af_mul_r), (run_fdiv, af_div_r)}"
    and "\<forall>b < 2 ^ 32. af_to_bits (lib_single lib) (af_from_bits (lib_single lib) b) = b"
    and "\<forall>b < 2 ^ 64. af_to_bits (lib_double lib) (af_from_bits (lib_double lib) b) = b"
  shows "(case spec_round (spec_rm h rm) of
      None \<Rightarrow> instr F rs1 rs2 rm rd h = (Inl IllegalInstruction, h)
    | Some r \<Rightarrow>
        let (st, v) = f (fe_float F) (hart_read_f F h rs1) (hart_read_f F h rs2) r;
            res = (if af_is_nan (fe_float F) v then fe_canonical_nan F else v)
        in \<exists>h'. instr F rs1 rs2 rm rd h = (Inr (), h')
          \<and> hart_fregs h' = fr_write (hart_fregs h) rd (fe_into F res)
          \<and> (\<forall>i \<in> {0..<5}. bit (fflags_of h') i = (bit (fflags_of h) i \<or> bit st (4 - i)))
          \<and> csr_read (hart_csrs h') CSR_frm = csr_read (hart_csrs h) CSR_frm
          \<and> hart_xregs h' = hart_xregs h)
    \<and> fe_into (Single lib) (fe_canonical_nan (Single lib)) = 0xffffffff7fc00000
    \<and> fe_into (Double lib) (fe_canonical_nan (Double lib)) = 0x7ff8000000000000"
proof -
  have instr: "instr F rs1 rs2 rm rd = f_arith_2 F rs1 rs2 rm rd (f (fe_float F))"
    using assms(1) by (auto simp: run_fadd_def run_fsub_def run_fmul_def run_fdiv_def)
  have "fe_into (Single lib) (fe_canonical_nan (Single lib)) = 0xffffffff7fc00000"
    "fe_into (Double lib) (fe_canonical_nan (Double lib)) = 0x7ff8000000000000"
    by (rule canonical_nan_bits; simp add: assms(2,3))+
  then show ?thesis unfolding instr
    using f_arith_2_spec [where h = h and rm = rm and F = F and ?rs1.0 = rs1 and ?rs2.0 = rs2 and rd = rd and f = "f (fe_float F)"] by (simp only: simp_thms)
qed

theorem float_arithmetic_effect_witness:
  "(\<exists>h'. run_fadd (Single sample_lib) F1 F2 (Static RNE) F3 sample_hart = (Inr (), h')
      \<and> hart_xregs h' = hart_xregs sample_hart)
   \<and> fe_into (Double sample_lib) (fe_canonical_nan (Double sample_lib)) = 0x7ff8000000000000"
proof -
  have bits: "\<forall>b < 2 ^ 32. af_to_bits (lib_single sample_lib) (af_from_bits (lib_single sample_lib) b) = b"
    "\<forall>b < 2 ^ 64. af_to_bits (lib_double sample_lib) (af_from_bits (lib_double sample_lib) b) = b"
    by (rule sample_bits)+
  show ?thesis
    using float_arithmetic_effect [OF _ bits, where instr = run_fadd and f = af_add_r and h = sample_hart and
        rm = "Static RNE" and F = "Single sample_lib" and ?rs1.0 = F1 and ?rs2.0 = F2 and rd = F3]
    by (auto simp: spec_round_def spec_rm_def Let_def split: prod.splits)
qed

section \<open>Execution\<close>

text \<open>C26. No cacheable instruction changes the mode, the program counter or the size of the memory
  itself, and each keeps the contents of the registers legal and the translation cache well formed.\<close>

theorem instruction_frame: "core_frame s (snd (run_instr_cacheable lib i s))"
  using run_instr_cacheable_frames [of lib i] by (simp add: frames_def)

section \<open>Caches of instructions\<close>

text \<open>In every reachable state the machine invariant holds: an even program counter, legal registers,
  a well-formed translation cache, and caches that hold only decoded instructions where they may be
  executed from.\<close>

theorem reachable_states_invariant:
  assumes "reachable lib s"
  shows "machine_inv s"
  using assms by (rule reachable_inv)

theorem reachable_states_invariant_witness: "machine_inv (machine_reset sample_machine)"
  by (rule reachable_states_invariant [of sample_lib]) (rule reachable_reset)



text \<open>C28. \<^verbatim>\<open>fence.i\<close> empties both instruction caches: after it no address has a cached instruction, and
  no block has an instruction.\<close>

theorem fencei_empties_caches:
  assumes "machine_inv s" "a \<noteq> - 1"
  shows "icache_fetch_instr (ms_icache (run_fencei s)) a = None
    \<and> get_block (ms_bcache (run_fencei s)) b \<in> {None, Some []}"
proof -
  have c: "icache_fresh (ms_icache s)" "bcache_fresh (ms_bcache s)"
    using assms(1) by (simp_all add: machine_inv_def caches_inv_def)
  have "is = []" if "get_block (bcache_invalidate (ms_bcache s)) b = Some is" for "is"
    using bcache_invalidate_empty [OF c(2) that] .
  then show ?thesis
    using icache_invalidate_miss [OF c(1) assms(2)]
    by (cases "get_block (bcache_invalidate (ms_bcache s)) b") (auto simp: run_fencei_def)
qed

theorem fencei_empties_caches_witness:
  "icache_fetch_instr (ms_icache (run_fencei (machine_reset sample_machine))) 0x80000000 = None"
  using fencei_empties_caches [OF sample_inv, of "0x80000000"] by simp

section \<open>Stepping\<close>

text \<open>C29. Stepping is independent of how the steps are divided: running to a bound is running to any
  smaller bound and then on to the larger one, also when the smaller bound interrupts a cached block.\<close>

theorem stepping_splits:
  assumes "machine_inv s" "m \<le> n"
  shows "step_max_inner lib n steps s = Option.bind (step_max_inner lib m steps s) (then_run lib n)"
  using assms by (intro step_max_inner_split) (simp_all add: machine_inv_def partial_inv_def)

theorem stepping_splits_witness:
  "step_max_inner sample_lib 5 0 (machine_reset sample_machine)
   = Option.bind (step_max_inner sample_lib 2 0 (machine_reset sample_machine)) (then_run sample_lib 5)"
  by (rule stepping_splits [OF sample_inv]) simp

text \<open>C30. A run that is not interrupted by an environment call takes exactly the requested number of
  steps, and one that is takes fewer.\<close>

theorem step_count_exact:
  assumes "step_max_inner lib n steps s = Some (r, steps', s')" "steps \<le> n"
  shows "if is_ok r then steps' = n else steps' < n"
  using step_max_inner_steps [OF assms] by (cases r) simp_all

text \<open>C31. A step of the machine returns: whatever the state of the machine, a step ends unless the next
  instruction is fetched from physical address 0.\<close>

theorem step_returns:
  assumes "machine_inv s" "fetch_addr s \<noteq> Inr 0"
  shows "\<exists>y. machine_step lib s = Some y"
  using assms by (intro machine_step_returns) simp_all

theorem step_returns_witness: "\<exists>y. machine_step sample_lib (machine_reset sample_machine) = Some y"
  by (rule step_returns [OF sample_inv])
    (simp add: reset_fetch_addr start_of_main_memory_def DEVICES_ADDRESS_SPACE_LENGTH_def)

theorem step_count_exact_witness:
  "\<exists>r k s'. step_max_inner sample_lib 1 0 (machine_reset sample_machine) = Some (r, k, s')
     \<and> (if is_ok r then k = 1 else k < 1)"
proof -
  have "\<exists>y. machine_step sample_lib (machine_reset sample_machine) = Some y"
    by (rule machine_step_returns [OF sample_inv])
      (simp add: reset_fetch_addr start_of_main_memory_def DEVICES_ADDRESS_SPACE_LENGTH_def)
  then obtain r k s' where y: "step_max_inner sample_lib 1 0 (machine_reset sample_machine) = Some (r, k, s')"
    by (auto simp: machine_step_def)
  from step_count_exact [OF y] y show ?thesis by simp
qed



section \<open>Programs and booting\<close>

text \<open>C33. Writing bytes into a program stores exactly them, keeps every byte below them, and keeps the
  bytes above them with one exception: where the first byte lies strictly inside a chunk that is already
  there, the rest of that chunk is lost.\<close>

theorem program_write_exact:
  assumes "segs_ok segs" "unat p + length bs < 2 ^ 64"
  shows "\<exists>segs'. (write_bytes p bs segs :: ('g LoadError, Segments) result) = Inr segs' \<and> segs_ok segs'
    \<and> (\<forall>i < length bs. seg_byte segs' (unat p + i) = Some (bs ! i))
    \<and> (\<forall>a < unat p. seg_byte segs' a = seg_byte segs a)
    \<and> (\<forall>a \<ge> unat p + length bs. seg_byte segs' a =
         (if bs \<noteq> [] \<and> (\<exists>k b. (k, b) \<in> set segs \<and> k < p \<and> a < unat k + length b) then None else seg_byte segs a))"
proof -
  obtain segs' where w: "(write_bytes p bs segs :: ('g LoadError, Segments) result) = Inr segs'" "written p bs segs segs'"
    using write_bytes_spec [where 'g = 'g, OF assms] by blast
  show ?thesis using w(1) written_cases [OF w(2) assms(1)] by blast
qed

theorem program_write_exact_witness:
  "\<exists>segs'. (write_bytes 0x1001 [9] [(0x1000, [1, 2, 3, 4])] :: (unit LoadError, Segments) result) = Inr segs'
     \<and> seg_byte segs' 0x1001 = Some 9 \<and> seg_byte segs' 0x1000 = Some 1 \<and> seg_byte segs' 0x1002 = None"
proof -
  have ok: "segs_ok [(0x1000, [1, 2, 3, 4])]"
    by (simp add: segs_ok_def bt_wf_def seg_map_ok_def)
  from program_write_exact [where 'g = unit and p = "0x1001" and bs = "[9]", OF ok]
  obtain segs' where w: "(write_bytes 0x1001 [9] [(0x1000, [1, 2, 3, 4])] :: (unit LoadError, Segments) result) = Inr segs'"
    "\<forall>i < 1. seg_byte segs' (0x1001 + i) = Some ([9] ! i)"
    "\<forall>a < 0x1001. seg_byte segs' a = seg_byte [(0x1000, [1, 2, 3, 4])] a"
    "\<forall>a \<ge> 0x1002. seg_byte segs' a = (if \<exists>k b. (k, b) \<in> set [(0x1000, [1, 2, 3, 4 :: u8])] \<and> k < (0x1001 :: u64)
       \<and> a < unat k + length b then None else seg_byte [(0x1000, [1, 2, 3, 4])] a)"
    by auto
  from w(2) have "seg_byte segs' 0x1001 = Some 9" by simp
  moreover from w(3) have "seg_byte segs' 0x1000 = Some 1" by (simp add: seg_byte_def)
  moreover from w(4) [rule_format, of "0x1002"] have "seg_byte segs' 0x1002 = None" by simp
  ultimately show ?thesis using w(1) by blast
qed

text \<open>C34. Loading a non-relocatable executable whose loadable segments do not overlap gives a program with
  the entry point of the executable and, at every address, exactly the image of the segments: their bytes
  in the file, then zeros up to their size in memory, and nothing elsewhere.\<close>

theorem elf_image_loaded:
  fixes g :: "'g Goblin"
  assumes "gb_parse g contents = Inr elf" "elf_e_type elf = gb_ET_EXEC g"
    and "\<forall>s \<in> set (loadable_segments g elf). segment_wf contents (ph_paddr s) s"
    and "sorted_wrt (apart_segments contents ph_paddr) (loadable_segments g elf)"
  shows "\<exists>program. from_elf g BYTES contents = Inr program \<and> prog_entrypoint program = elf_entry elf
    \<and> segs_ok (prog_segments program)
    \<and> seg_byte (prog_segments program) = image_at contents ph_paddr (loadable_segments g elf)"
  using assms by (rule from_elf_image)

theorem elf_image_loaded_witness:
  "\<exists>program. from_elf sample_goblin 4096 [7, 8] = Inr program \<and> prog_entrypoint program = 0x80000000
     \<and> map (seg_byte (prog_segments program)) [0x80000000, 0x80000002, 0x80000003, 0x80000010]
       = [Some 7, Some 0, None, Some 8]"
proof -
  have "\<exists>program. from_elf sample_goblin 4096 [7, 8] = Inr program \<and> prog_entrypoint program = elf_entry sample_elf
    \<and> segs_ok (prog_segments program)
    \<and> seg_byte (prog_segments program) = image_at [7, 8] ph_paddr (loadable_segments sample_goblin sample_elf)"
    by (rule elf_image_loaded)
      (simp_all add: sample_goblin_def sample_elf_def segment_wf_def apart_segments_def segment_image_def slice_range_def)
  then obtain program where "from_elf sample_goblin 4096 [7, 8] = Inr program" "prog_entrypoint program = elf_entry sample_elf"
    "seg_byte (prog_segments program) = image_at [7, 8] ph_paddr (loadable_segments sample_goblin sample_elf)"
    by blast
  then show ?thesis
    by (intro exI [of _ program]) (simp add: sample_goblin_def sample_elf_def segment_image_def slice_range_def)
qed

text \<open>C35. Booting: when \<^verbatim>\<open>setup_boot\<close> succeeds on a well-formed program, the hart is at the entry point in the
  requested mode with 0 in a0, memory holds every byte of the program, the initial ramdisk follows the last
  segment, and a1 is the address after the ramdisk, where the device tree is.\<close>

theorem boot_places_program:
  assumes "setup_boot fdt program initrd mode s = (Inr (), s')"
    and "bus_wf (core_bus (ms_core s))" "segs_ok (prog_segments program)"
  shows "let h = core_hart (ms_core s'); b = core_bus (ms_core s'); BYTES = bus_BYTES (core_bus (ms_core s));
      ramdisk = segments_end BYTES (prog_segments program)
    in hart_pc h = prog_entrypoint program \<and> hart_mode h = mode \<and> xr_read (hart_xregs h) reg_a0 = 0
      \<and> xr_read (hart_xregs h) reg_a1 = ramdisk_end ramdisk initrd
      \<and> (\<forall>a v. seg_byte (prog_segments program) a = Some v \<longrightarrow> byte_at b a = Some v)
      \<and> (\<forall>bytes i. initrd = Some bytes \<longrightarrow> i < length bytes \<longrightarrow> byte_at b (unat ramdisk + i) = Some (bytes ! i))
      \<and> (\<exists>tree. generate fdt BYTES (ramdisk_info ramdisk initrd) = Inr tree
           \<and> (\<forall>i < length tree. byte_at b (unat (ramdisk_end ramdisk initrd) + i) = Some (tree ! i)))"
proof -
  obtain c where c: "core_setup_boot fdt program initrd mode (ms_core s) = (Inr (), c)" "s' = s\<lparr>ms_core := c\<rparr>"
    using assms(1) by (auto simp: setup_boot_def split: prod.splits)
  from core_setup_boot_ok [OF c(1) assms(2,3)] c(2) show ?thesis by (simp add: booted_def Let_def)
qed

theorem boot_places_program_witness:
  "\<exists>s'. setup_boot sample_fdt sample_program (Some [5, 6]) Supervisor sample_machine = (Inr (), s')
     \<and> hart_pc (core_hart (ms_core s')) = 0x80000000 \<and> hart_mode (core_hart (ms_core s')) = Supervisor
     \<and> byte_at (core_bus (ms_core s')) 0x80000000 = Some 0x13 \<and> byte_at (core_bus (ms_core s')) 0x80000005 = Some 6"
proof -
  obtain s' where s': "setup_boot sample_fdt sample_program (Some [5, 6]) Supervisor sample_machine = (Inr (), s')"
    using sample_boots by blast
  have wf: "bus_wf (core_bus (ms_core sample_machine))" using sample_bus_wf by (simp add: sample_machine_def)
  have e: "segments_end n (prog_segments sample_program) = 0x80000004" for n
    by (simp add: segments_end_def sample_program_def)
  note b = boot_places_program [OF s' wf sample_program_ok, unfolded Let_def e]
  have "seg_byte (prog_segments sample_program) 0x80000000 = Some 0x13"
    by (simp add: seg_byte_def sample_program_def)
  with b have "byte_at (core_bus (ms_core s')) 0x80000000 = Some 0x13" by blast
  moreover from b have "byte_at (core_bus (ms_core s')) (unat (0x80000004 :: u64) + 1) = Some ([5, 6] ! 1)" by force
  ultimately show ?thesis using s' b by (simp add: sample_program_def)
qed

section \<open>The virtual machine\<close>

text \<open>C36. The states of the virtual machine that the node can reach from freshly allocated storage, by
  resetting, booting, evaluating and answering requests, satisfy the machine invariant, and a bounded
  evaluation from them makes no more steps than its bound.  The programs booted have an even entry point,
  which the loader does not check.\<close>

theorem pvm_reachable_invariant:
  assumes "pvm_reachable lib crypto fdt programs pvm"
    and "\<forall>program \<in> programs. even (prog_entrypoint program)"
  shows "machine_inv (pvm_machine_state pvm)
    \<and> (eval_max lib crypto hooks b pvm = Some (Inr n, hooks', pvm') \<and> bounded b \<longrightarrow> n \<le> unwrap_bound b)"
  using pvm_reachable_inv [OF assms] eval_max_ok(2) by blast

theorem pvm_reachable_invariant_witness:
  "\<exists>m. setup_boot sample_fdt sample_program (Some [5, 6]) Supervisor (pvm_machine_state (pvm_allocate 4096)) = (Inr (), m)
    \<and> machine_inv (pvm_machine_state (snd (pvm_provide_no_input ((pvm_allocate 4096)\<lparr>pvm_machine_state := m\<rparr>))))"
proof -
  obtain m where m: "setup_boot sample_fdt sample_program (Some [5, 6]) Supervisor (pvm_machine_state (pvm_allocate 4096)) = (Inr (), m)"
    using allocated_boots by blast
  have "pvm_reachable sample_lib sample_crypto sample_fdt {sample_program} ((pvm_allocate 4096)\<lparr>pvm_machine_state := m\<rparr>)"
    by (rule pvm_reachable.Boot [OF pvm_reachable.Allocate _ m]) simp
  from pvm_reachable_invariant [OF pvm_reachable.No_Input [OF this]] m show ?thesis
    by (auto simp: sample_program_def)
qed

text \<open>Without an even program counter the caches would accept instructions that cross a page.\<close>

lemma odd_address_crosses_page:
  "cacheable_uncompressed 0x80000fff \<and> (0x80000fff :: u64) div 4096 \<noteq> (0x80000fff + 3) div 4096"
  by (simp add: cacheable_uncompressed_def PAGE_SIZE_def PAGE_OFFSET_WIDTH_def)

text \<open>C37. Evaluating in bulk is evaluating step by step: \<^verbatim>\<open>eval_max\<close> with an inclusive bound is that many
  times \<^verbatim>\<open>eval_one\<close>, stopped when the machine waits for the node or a call panics, with the same states,
  the same characters printed and the steps counted one by one.  A step that ends in a trap counts, and
  the evaluation goes on after its handler, unlike what the documentation of \<^verbatim>\<open>eval_max\<close> says.\<close>

theorem bulk_evaluation_is_single_steps:
  assumes "machine_inv (pvm_machine_state pvm)" "pvm_status pvm = Evaluating" "n \<le> USIZE_MAX"
  shows "eval_max lib crypto hooks (Included n) pvm = eval_while lib crypto n 0 hooks pvm"
  using assms by (rule eval_max_while)

theorem bulk_evaluation_is_single_steps_witness:
  "eval_max sample_lib sample_crypto [] (Included 3) sample_pvm = eval_while sample_lib sample_crypto 3 0 [] sample_pvm"
  by (rule bulk_evaluation_is_single_steps [OF sample_pvm_ok]) (simp add: USIZE_MAX_def)

text \<open>C38. An environment call from user or supervisor mode moves past the call, prints at most the
  character it names, changes the status only by the two requests to the node, keeps everything else of
  the hart but a0 and a1, and lets evaluation continue exactly when no request is pending.\<close>

theorem environment_call_effect:
  assumes "handle_call crypto (status, hooks) m cause = (r, (status', hooks'), m')" "cause \<noteq> EnvironCallFromMMode"
  shows "only_results (core_write_pc (hart_pc (core_hart (ms_core m)) + 4) (ms_core m)) (ms_core m')
    \<and> status' = (case requested (ms_core m) of Some st \<Rightarrow> st | None \<Rightarrow> status)
    \<and> hooks' = hooks @ printed (ms_core m)
    \<and> (r = Inl Panic \<or> r = Inr (status' = Evaluating))"
  using handle_call_effect [OF assms] by blast

theorem environment_call_effect_witness:
  "\<exists>r m'. handle_call sample_crypto (Evaluating, [1]) (sample_machine\<lparr>ms_core := sample_args 0x141 0 0 0 0 SBI_CONSOLE_PUTCHAR\<rparr>)
       EnvironCallFromUMode = (r, (Evaluating, [1, 0x41]), m')
     \<and> hart_pc (core_hart (ms_core m')) = 0x80000004"
proof -
  let ?m = "sample_machine\<lparr>ms_core := sample_args 0x141 0 0 0 0 SBI_CONSOLE_PUTCHAR\<rparr>"
  obtain r st out m' where h: "handle_call sample_crypto (Evaluating, [1]) ?m EnvironCallFromUMode = (r, (st, out), m')"
    by (metis prod.collapse)
  from environment_call_effect [OF h] have e: "only_results (core_write_pc (hart_pc (core_hart (ms_core ?m)) + 4) (ms_core ?m)) (ms_core m')"
    "st = (case requested (ms_core ?m) of Some st \<Rightarrow> st | None \<Rightarrow> Evaluating)" "out = [1] @ printed (ms_core ?m)"
    by auto
  have "hart_pc (core_hart (sample_args 0x141 0 0 0 0 SBI_CONSOLE_PUTCHAR)) = 0x80000000"
    by (simp add: sample_args_def core_write_x_def sample_hart_def)
  with e(1) have "hart_pc (core_hart (ms_core m')) = 0x80000004"
    by (simp add: only_results_def core_write_pc_def)
  with h e(2,3) show ?thesis by (simp add: requested_def printed_def)
qed

text \<open>C39. Delivering an input that the guest waits for: the first bytes of the payload, as many as the
  guest's buffer and the protocol allow, are stored at the physical address of the buffer, then the level
  and the counter at theirs; nothing else changes in memory, a0 is the number of bytes, and evaluation goes
  on.  Only the first byte of the buffer is translated: the bytes after it are stored contiguously, whatever
  the page tables say of their own addresses.\<close>

theorem input_delivery:
  assumes "tcache_coherent s" "bus_wf (core_bus s)"
    and "translate_without_cache s (xr_read (core_xregs s) reg_a0) AccStore = Inr buffer"
    and "translate_without_cache s (xr_read (core_xregs s) reg_a2) AccStore = Inr level_addr"
    and "translate_without_cache s (xr_read (core_xregs s) reg_a3) AccStore = Inr counter_addr"
    and "n = min (min (length payload) (unat (xr_read (core_xregs s) reg_a1))) MAX_INPUT_MESSAGE_SIZE"
    and "room s buffer n" "room s level_addr 4" "room s counter_addr 4"
  shows "\<exists>s'. provide_input WaitingForInput level counter payload s = (True, Evaluating, s')
    \<and> core_hart s' = (core_hart s)\<lparr>hart_xregs := xr_write (core_xregs s) reg_a0 (of_nat n)\<rparr>
    \<and> byte_at (core_bus s') = overlay (unat counter_addr) (to_stored counter)
          (overlay (unat level_addr) (to_stored level)
            (overlay (unat buffer) (take n payload) (byte_at (core_bus s))))"
  using assms by (rule provide_input_ok)

theorem input_delivery_witness:
  "\<exists>s'. provide_input WaitingForInput 5 6 [7, 8, 9] (sample_args 0x80000100 2 0x80000200 0x80000204 0 0) = (True, Evaluating, s')
     \<and> map (byte_at (core_bus s')) [0x80000100, 0x80000101, 0x80000102, 0x80000200, 0x80000204]
       = [Some 7, Some 8, Some 0, Some 5, Some 6]"
proof -
  let ?s = "sample_args 0x80000100 2 0x80000200 0x80000204 0 0"
  have "\<exists>s'. provide_input WaitingForInput 5 6 [7, 8, 9] ?s = (True, Evaluating, s')
    \<and> core_hart s' = (core_hart ?s)\<lparr>hart_xregs := xr_write (core_xregs ?s) reg_a0 (of_nat 2)\<rparr>
    \<and> byte_at (core_bus s') = overlay (unat (0x80000204 :: u64)) (to_stored (6 :: u32))
          (overlay (unat (0x80000200 :: u64)) (to_stored (5 :: u32))
            (overlay (unat (0x80000100 :: u64)) (take 2 [7, 8, 9]) (byte_at (core_bus ?s))))"
    by (rule input_delivery [OF sample_args_coherent])
      (simp_all add: sample_args_translate sample_bus_wf room_def MAX_INPUT_MESSAGE_SIZE_def)
  then obtain s' where s': "provide_input WaitingForInput 5 6 [7, 8, 9] ?s = (True, Evaluating, s')"
    "byte_at (core_bus s') = overlay (unat (0x80000204 :: u64)) (to_stored (6 :: u32))
          (overlay (unat (0x80000200 :: u64)) (to_stored (5 :: u32))
            (overlay (unat (0x80000100 :: u64)) (take 2 [7, 8, 9]) (byte_at sample_bus)))"
    by auto
  have "to_stored (5 :: u32) = [5, 0, 0, 0]" "to_stored (6 :: u32) = [6, 0, 0, 0]"
    by (simp_all add: to_stored_def upt_rec)
  with s' show ?thesis
    by (intro exI [of _ s']) (simp add: overlay_def byte_at_def, simp add: sample_bus_def)
qed

text \<open>C40. A guest can end the node: a call for a digest of a message whose length is above the largest
  allocation, at addresses that translate, panics.\<close>

theorem huge_digest_panics:
  assumes "tcache_coherent (ms_core m)" "cause \<noteq> EnvironCallFromMMode"
    and "xr_read (core_xregs (ms_core m)) reg_a7 = SBI_FIRMWARE_TEZOS"
    and "xr_read (core_xregs (ms_core m)) reg_a6 = SBI_TEZOS_BLAKE2B_HASH256"
    and "2 ^ 63 \<le> xr_read (core_xregs (ms_core m)) reg_a2"
    and "translate_without_cache (ms_core m) (xr_read (core_xregs (ms_core m)) reg_a0) AccStore = Inr out_addr"
    and "translate_without_cache (ms_core m) (xr_read (core_xregs (ms_core m)) reg_a1) AccLoad = Inr msg_addr"
  shows "fst (handle_call crypto env m cause) = Inl Panic"
  using assms by (rule huge_message_panics)

theorem huge_digest_panics_witness:
  "fst (handle_call sample_crypto (Evaluating, [])
     (sample_machine\<lparr>ms_core := sample_args 0x80000000 0x80000000 0x8000000000000000 0 SBI_TEZOS_BLAKE2B_HASH256 SBI_FIRMWARE_TEZOS\<rparr>)
     EnvironCallFromUMode) = Inl Panic"
  by (rule huge_digest_panics) (simp_all add: sample_args_coherent sample_args_translate)

end
